theory Spec2Isabelle
  imports Main "HOL-Library.Word"
begin

unbundle bit_operations_syntax

section \<open>Shared declarations\<close>

text \<open>
  Embedding of \<^verbatim>\<open>src/deluge/model/sample/sample.cpp\<close>. Values the file takes from
  headers that are not part of the sources (the cluster size of the audio file manager and
  the constants of \<^verbatim>\<open>definitions_cxx.hpp\<close>) are the fields of a configuration record
  that every operation receives.
\<close>

record Config =
  clusterSizeMagnitude :: nat
  kInterpolationMaxNumSamples :: nat
  kCacheByteDepth :: nat
  kPercBufferReductionMagnitude :: nat
  kDifferenceLPFPoles :: nat
  kPitchDetectWindowSize :: int
  getTanH :: "int \<Rightarrow> int"

text \<open>Undefined behaviour of the C++ code that the model keeps as a value.\<close>

datatype trap = DivisionByZero | RunawayLoop | NullPointer

section \<open>Render cache store: \<^verbatim>\<open>Sample::getOrCreateCache\<close>\<close>

text \<open>
  \<^verbatim>\<open>struct SampleCacheElement\<close>; the \<^verbatim>\<open>cache\<close> pointer is the address of the
  \<^verbatim>\<open>SampleCache\<close> object, an index into the sample's heap of cache objects.
\<close>

record SampleCacheElement =
  sce_phaseIncrement :: "32 word"
  sce_timeStretchRatio :: "32 word"
  sce_skipSamplesAtStart :: "32 word"
  sce_reversed :: "32 word"
  sce_cache :: nat

text \<open>The arguments the \<^verbatim>\<open>SampleCache\<close> constructor receives.\<close>

record SampleCache =
  sc_numClusters :: "32 word"
  sc_waveformLengthBytes :: "64 word"
  sc_phaseIncrement :: "32 word"
  sc_timeStretchRatio :: "32 word"
  sc_skipSamplesAtStart :: "32 word"

record SampleHolder =
  sh_startPos :: "64 word"
  sh_endPos :: "64 word"

text \<open>
  Modelled from the spec: \<^verbatim>\<open>SampleHolder::getEndPos\<close> is not in the sources; the spec
  names its result \<^verbatim>\<open>sampleEndPos\<close>, so the model returns the holder's end position.
\<close>

definition getEndPos :: "SampleHolder \<Rightarrow> bool \<Rightarrow> 64 word" where
  "getEndPos sampleHolder forTimeStretching = sh_endPos sampleHolder"

text \<open>The part of \<^verbatim>\<open>class Sample\<close> that the render cache store reads and writes.\<close>

record CacheStore =
  cs_lengthInSamples :: "64 word"
  cs_numChannels :: "8 word"
  caches :: "SampleCacheElement list"
  cacheObjects :: "SampleCache list"
  numAllocCalls :: nat
  numDeallocCalls :: nat

definition elementKeyWords :: "SampleCacheElement \<Rightarrow> 32 word list" where
  "elementKeyWords e =
     [sce_phaseIncrement e, sce_timeStretchRatio e, sce_skipSamplesAtStart e, sce_reversed e]"

text \<open>
  Modelled from the spec: \<^verbatim>\<open>OrderedResizeableArrayWithMultiWordKey\<close> is not in the
  sources. The spec describes an exact match on the 4-field key in an ordered multi-key
  index with sorted insert. \<^verbatim>\<open>searchMultiWordExact\<close> returns the index of the element
  whose key words equal the given ones, or -1; \<^verbatim>\<open>insertAtKeyMultiWord\<close> returns the
  index that keeps the array ordered by its key words, or -1 when it cannot grow.
\<close>

fun searchFrom :: "int \<Rightarrow> SampleCacheElement list \<Rightarrow> 32 word list \<Rightarrow> int" where
  "searchFrom i [] keyWords = -1"
| "searchFrom i (e # es) keyWords =
     (if elementKeyWords e = keyWords then i else searchFrom (i + 1) es keyWords)"

definition searchMultiWordExact :: "SampleCacheElement list \<Rightarrow> 32 word list \<Rightarrow> int" where
  "searchMultiWordExact es keyWords = searchFrom 0 es keyWords"

fun keyWordsLess :: "32 word list \<Rightarrow> 32 word list \<Rightarrow> bool" where
  "keyWordsLess (a # as) (b # bs) = (a < b \<or> (a = b \<and> keyWordsLess as bs))"
| "keyWordsLess _ _ = False"

definition insertAtKeyMultiWord ::
  "SampleCacheElement list \<Rightarrow> 32 word list \<Rightarrow> bool \<Rightarrow> int" where
  "insertAtKeyMultiWord es keyWords insertOk =
     (if insertOk
      then int (length (takeWhile (\<lambda>e. keyWordsLess (elementKeyWords e) keyWords) es))
      else -1)"

definition combinedIncrement :: "32 word \<Rightarrow> 32 word \<Rightarrow> 64 word" where
  "combinedIncrement phaseIncrement timeStretchRatio =
     drop_bit 24 ((ucast phaseIncrement :: 64 word) * (ucast timeStretchRatio :: 64 word))"

text \<open>
  \<^verbatim>\<open>lengthInSamplesCached\<close> of lines 207 to 216, for a nonzero combined increment.
  \<^verbatim>\<open>lengthInSamples - skipSamplesAtStart\<close> is taken in 64 bits.
\<close>

definition lengthInSamplesCached ::
  "Config \<Rightarrow> 64 word \<Rightarrow> 32 word \<Rightarrow> 32 word \<Rightarrow> 32 word \<Rightarrow> 64 word" where
  "lengthInSamplesCached cfg lengthInSamples skipSamplesAtStart phaseIncrement timeStretchRatio =
     (let l0 = push_bit 24 (lengthInSamples - scast skipSamplesAtStart)
                 div combinedIncrement phaseIncrement timeStretchRatio + 1;
          l1 = (if phaseIncrement \<noteq> 16777216
                then l0 + of_nat (kInterpolationMaxNumSamples cfg div 2) else l0);
          l2 = (if timeStretchRatio \<noteq> 16777216 then l1 + 16384 else l1)
      in l2)"

definition lengthInBytesCached ::
  "Config \<Rightarrow> 64 word \<Rightarrow> 8 word \<Rightarrow> 32 word \<Rightarrow> 32 word \<Rightarrow> 32 word \<Rightarrow> 64 word" where
  "lengthInBytesCached cfg lengthInSamples numChannels skipSamplesAtStart phaseIncrement
       timeStretchRatio =
     lengthInSamplesCached cfg lengthInSamples skipSamplesAtStart phaseIncrement timeStretchRatio
       * of_nat (kCacheByteDepth cfg) * ucast numChannels"

definition cacheSkipSamplesAtStart :: "CacheStore \<Rightarrow> SampleHolder \<Rightarrow> bool \<Rightarrow> 32 word" where
  "cacheSkipSamplesAtStart s sampleHolder reversed =
     (if \<not> reversed then ucast (sh_startPos sampleHolder)
      else ucast (cs_lengthInSamples s - getEndPos sampleHolder False))"

definition cacheKeyWords ::
  "CacheStore \<Rightarrow> SampleHolder \<Rightarrow> 32 word \<Rightarrow> 32 word \<Rightarrow> bool \<Rightarrow> 32 word list" where
  "cacheKeyWords s sampleHolder phaseIncrement timeStretchRatio reversed =
     [phaseIncrement, timeStretchRatio, cacheSkipSamplesAtStart s sampleHolder reversed,
      (if reversed then 1 else 0)]"

text \<open>
  \<^verbatim>\<open>Sample::getOrCreateCache\<close>. \<^verbatim>\<open>created\<close> is the value behind the out-parameter
  before the call; \<^verbatim>\<open>allocOk\<close> and \<^verbatim>\<open>insertOk\<close> say whether the general memory
  allocator and the array insertion succeed when they are reached. The result is the
  returned pointer (\<^verbatim>\<open>None\<close> for NULL), the value behind \<^verbatim>\<open>created\<close> after the call
  and the sample.
\<close>

definition getOrCreateCache ::
  "Config \<Rightarrow> CacheStore \<Rightarrow> SampleHolder \<Rightarrow> 32 word \<Rightarrow> 32 word \<Rightarrow> bool \<Rightarrow> bool \<Rightarrow> bool
     \<Rightarrow> bool \<Rightarrow> bool \<Rightarrow> trap + (nat option \<times> bool \<times> CacheStore)" where
  "getOrCreateCache cfg s sampleHolder phaseIncrement timeStretchRatio reversed mayCreate created
       allocOk insertOk =
     (let skipSamplesAtStart = cacheSkipSamplesAtStart s sampleHolder reversed;
          keyWords = cacheKeyWords s sampleHolder phaseIncrement timeStretchRatio reversed;
          i = searchMultiWordExact (caches s) keyWords
      in if i \<noteq> -1 then Inr (Some (sce_cache (caches s ! nat i)), False, s)
         else if \<not> mayCreate then Inr (None, created, s)
         else if combinedIncrement phaseIncrement timeStretchRatio = 0 then Inl DivisionByZero
         else
           let lengthInBytes = lengthInBytesCached cfg (cs_lengthInSamples s) (cs_numChannels s)
                                 skipSamplesAtStart phaseIncrement timeStretchRatio
           in if 33554432 \<le> lengthInBytes then Inr (None, created, s)
              else
                let numClusters =
                      (ucast (drop_bit (clusterSizeMagnitude cfg) (lengthInBytes - 1)) :: 32 word) + 1;
                    s1 = s\<lparr>numAllocCalls := numAllocCalls s + 1\<rparr>
                in if \<not> allocOk then Inr (None, created, s1)
                   else
                     let memory = length (cacheObjects s1);
                         iNew = insertAtKeyMultiWord (caches s1) keyWords insertOk
                     in if iNew = -1
                        then Inr (None, created, s1\<lparr>numDeallocCalls := numDeallocCalls s1 + 1\<rparr>)
                        else
                          let samplePitchAdjustment =
                                \<lparr>sc_numClusters = numClusters,
                                 sc_waveformLengthBytes = lengthInBytes,
                                 sc_phaseIncrement = phaseIncrement,
                                 sc_timeStretchRatio = timeStretchRatio,
                                 sc_skipSamplesAtStart = skipSamplesAtStart\<rparr>;
                              element =
                                \<lparr>sce_phaseIncrement = phaseIncrement,
                                 sce_timeStretchRatio = timeStretchRatio,
                                 sce_skipSamplesAtStart = skipSamplesAtStart,
                                 sce_reversed = (if reversed then 1 else 0),
                                 sce_cache = memory\<rparr>
                          in Inr (Some memory, True,
                                  s1\<lparr>caches := take (nat iNew) (caches s1) @ [element]
                                                   @ drop (nat iNew) (caches s1),
                                      cacheObjects := cacheObjects s1 @ [samplePitchAdjustment]\<rparr>))"

text \<open>A sequence of calls on one sample; a trap ends it.\<close>

record CacheCall =
  cc_holder :: SampleHolder
  cc_phaseIncrement :: "32 word"
  cc_timeStretchRatio :: "32 word"
  cc_reversed :: bool
  cc_mayCreate :: bool
  cc_allocOk :: bool
  cc_insertOk :: bool

definition cacheCall :: "Config \<Rightarrow> CacheStore \<Rightarrow> CacheCall \<Rightarrow> trap + (nat option \<times> bool \<times> CacheStore)" where
  "cacheCall cfg s c =
     getOrCreateCache cfg s (cc_holder c) (cc_phaseIncrement c) (cc_timeStretchRatio c)
       (cc_reversed c) (cc_mayCreate c) False (cc_allocOk c) (cc_insertOk c)"

fun cacheCalls :: "Config \<Rightarrow> CacheStore \<Rightarrow> CacheCall list \<Rightarrow> trap + CacheStore" where
  "cacheCalls cfg s [] = Inr s"
| "cacheCalls cfg s (c # cs) =
     (case cacheCall cfg s c of
        Inl t \<Rightarrow> Inl t
      | Inr (p, created, s') \<Rightarrow> cacheCalls cfg s' cs)"


text \<open>
  The cache pointer stored under a key, if any: the reading of the index that
  \<^verbatim>\<open>searchMultiWordExact\<close> implements.
\<close>

definition lookupCache :: "SampleCacheElement list \<Rightarrow> 32 word list \<Rightarrow> nat option" where
  "lookupCache es keyWords =
     map_option sce_cache (List.find (\<lambda>e. elementKeyWords e = keyWords) es)"

text \<open>Every stored key has a byte estimate below 32 MiB for this sample.\<close>

definition cachesWithinCap :: "Config \<Rightarrow> CacheStore \<Rightarrow> bool" where
  "cachesWithinCap cfg s =
     list_all (\<lambda>e. lengthInBytesCached cfg (cs_lengthInSamples s) (cs_numChannels s)
                 (sce_skipSamplesAtStart e) (sce_phaseIncrement e) (sce_timeStretchRatio e)
               < 33554432) (caches s)"

text \<open>
  The entry size as the specification words it, on unbounded integers: the quotient is
  rounded up.
\<close>

definition cachedSampleCount_spec :: "Config \<Rightarrow> int \<Rightarrow> int \<Rightarrow> int \<Rightarrow> int \<Rightarrow> int" where
  "cachedSampleCount_spec cfg lengthInSamples skipSamplesAtStart phaseIncrement timeStretchRatio =
     (let combined = phaseIncrement * timeStretchRatio div 2 ^ 24;
          quotient = ((lengthInSamples - skipSamplesAtStart) * 2 ^ 24 + combined - 1) div combined
      in quotient + 1
         + (if phaseIncrement \<noteq> 16777216 then int (kInterpolationMaxNumSamples cfg div 2) else 0)
         + (if timeStretchRatio \<noteq> 16777216 then 16384 else 0))"

text \<open>Concrete inputs for the examples: the device's constants and a 1000-sample stereo file.\<close>

definition exampleConfig :: Config where
  "exampleConfig = \<lparr>clusterSizeMagnitude = 15, kInterpolationMaxNumSamples = 16,
     kCacheByteDepth = 3, kPercBufferReductionMagnitude = 7, kDifferenceLPFPoles = 2,
     kPitchDetectWindowSize = 8192,
     getTanH = (\<lambda>x. x)\<rparr>"

definition shortStore :: CacheStore where
  "shortStore = \<lparr>cs_lengthInSamples = 1000, cs_numChannels = 2, caches = [], cacheObjects = [],
     numAllocCalls = 0, numDeallocCalls = 0\<rparr>"

definition shortStore1 :: CacheStore where
  "shortStore1 = \<lparr>cs_lengthInSamples = 1000, cs_numChannels = 2,
     caches = [\<lparr>sce_phaseIncrement = 25165824, sce_timeStretchRatio = 16777216,
                 sce_skipSamplesAtStart = 0, sce_reversed = 0, sce_cache = 0\<rparr>],
     cacheObjects = [\<lparr>sc_numClusters = 1, sc_waveformLengthBytes = 4050,
                       sc_phaseIncrement = 25165824, sc_timeStretchRatio = 16777216,
                       sc_skipSamplesAtStart = 0\<rparr>],
     numAllocCalls = 1, numDeallocCalls = 0\<rparr>"

definition shortStore2 :: CacheStore where
  "shortStore2 = \<lparr>cs_lengthInSamples = 1000, cs_numChannels = 2,
     caches = [\<lparr>sce_phaseIncrement = 25165824, sce_timeStretchRatio = 16777216,
                 sce_skipSamplesAtStart = 0, sce_reversed = 0, sce_cache = 0\<rparr>,
               \<lparr>sce_phaseIncrement = 33554432, sce_timeStretchRatio = 16777216,
                 sce_skipSamplesAtStart = 0, sce_reversed = 1, sce_cache = 1\<rparr>],
     cacheObjects = [\<lparr>sc_numClusters = 1, sc_waveformLengthBytes = 4050,
                       sc_phaseIncrement = 25165824, sc_timeStretchRatio = 16777216,
                       sc_skipSamplesAtStart = 0\<rparr>,
                     \<lparr>sc_numClusters = 1, sc_waveformLengthBytes = 3054,
                       sc_phaseIncrement = 33554432, sc_timeStretchRatio = 16777216,
                       sc_skipSamplesAtStart = 0\<rparr>],
     numAllocCalls = 2, numDeallocCalls = 0\<rparr>"

definition longStore :: CacheStore where
  "longStore = \<lparr>cs_lengthInSamples = 20000000, cs_numChannels = 2, caches = [],
     cacheObjects = [], numAllocCalls = 0, numDeallocCalls = 0\<rparr>"

definition longStore1 :: CacheStore where
  "longStore1 = \<lparr>cs_lengthInSamples = 20000000, cs_numChannels = 2,
     caches = [\<lparr>sce_phaseIncrement = 33554432, sce_timeStretchRatio = 16777216,
                 sce_skipSamplesAtStart = 19999000, sce_reversed = 1, sce_cache = 0\<rparr>],
     cacheObjects = [\<lparr>sc_numClusters = 1, sc_waveformLengthBytes = 3054,
                       sc_phaseIncrement = 33554432, sc_timeStretchRatio = 16777216,
                       sc_skipSamplesAtStart = 19999000\<rparr>],
     numAllocCalls = 1, numDeallocCalls = 0\<rparr>"

definition wholeSample :: SampleHolder where
  "wholeSample = \<lparr>sh_startPos = 0, sh_endPos = 1000\<rparr>"

definition otherCall :: CacheCall where
  "otherCall = \<lparr>cc_holder = wholeSample, cc_phaseIncrement = 33554432,
     cc_timeStretchRatio = 16777216, cc_reversed = True, cc_mayCreate = True,
     cc_allocOk = True, cc_insertOk = True\<rparr>"

section \<open>Percussive envelope cache: \<^verbatim>\<open>Sample::fillPercCache\<close> and \<^verbatim>\<open>Sample::percCacheClusterStolen\<close>\<close>

text \<open>
  Sample positions, byte positions and sample values are \<^verbatim>\<open>int32_t\<close> in the source.
  They are modelled as integers. The values the filter works on are shifted right by 2
  before they are subtracted, so the filter does not wrap, and the one place where a 64-bit
  value is narrowed to 32 bits (\<^verbatim>\<open>percussiveness\<close>, line 654) is written out.
  \<^verbatim>\<open>lengthInSamples\<close> is an unsigned 64-bit number, so the comparisons of lines 283
  and 365 convert the start position to one: that is written out as \<open>mod 2\<^sup>6\<^sup>4\<close>, and a
  negative forward start position is beyond the waveform.

  Positions are not wrapped to 32 bits: the integers of the model are the values of the
  source as long as sample and byte positions stay below \<open>2\<^sup>3\<^sup>1\<close>. Past that the source
  wraps \<^verbatim>\<open>sourceBytePos\<close> (lines 506, 511, 589) to a negative number and leaves the
  loop at line 519 without reading; the model does not follow it there, see
  \<^verbatim>\<open>callFitsInt32\<close> below.
\<close>

definition to_int32 :: "int \<Rightarrow> int" where
  "to_int32 x = (x + 2 ^ 31) mod 2 ^ 32 - 2 ^ 31"

datatype Error = NO_ERROR | ERROR_INSUFFICIENT_RAM

record SamplePercCacheZone =
  startPos :: int
  endPos :: int
  samplesAtStartWhichShouldBeReplaced :: int
  lastSampleRead :: int
  lastAngle :: int
  angleLPFMem :: "int list"

text \<open>
  Modelled from the spec: \<^verbatim>\<open>sample_perc_cache_zone.cpp\<close> is not in the sources. A zone
  is created where computation begins at an uncovered position, so it starts empty at that
  position with no provisional prefix and a cleared filter state; \<^verbatim>\<open>resetEndPos\<close> trims
  the zone to a new end, where no filter state is known, so the state is cleared.
\<close>

definition resetEndPos :: "SamplePercCacheZone \<Rightarrow> int \<Rightarrow> SamplePercCacheZone" where
  "resetEndPos z newEndPos =
     z\<lparr>endPos := newEndPos, lastSampleRead := 0, lastAngle := 0,
       angleLPFMem := replicate (length (angleLPFMem z)) 0\<rparr>"

definition newSamplePercCacheZone :: "Config \<Rightarrow> int \<Rightarrow> SamplePercCacheZone" where
  "newSamplePercCacheZone cfg newStartPos =
     \<lparr>startPos = newStartPos, endPos = newStartPos, samplesAtStartWhichShouldBeReplaced = 0,
      lastSampleRead = 0, lastAngle = 0,
      angleLPFMem = replicate (kDifferenceLPFPoles cfg) 0\<rparr>"

text \<open>
  Modelled from the spec: \<^verbatim>\<open>OrderedResizeableArray\<close> is not in the sources. The spec
  describes an ordered dynamic array with position-based binary search and a directional
  comparator. On an array ordered by its key (the zone's \<^verbatim>\<open>startPos\<close>),
  \<^verbatim>\<open>search(key, GREATER_OR_EQUAL)\<close> is the index of the first element whose key is at
  least \<^verbatim>\<open>key\<close> (the number of elements when there is none) and
  \<^verbatim>\<open>search(key, LESS)\<close> is the index before it.
\<close>

definition GREATER_OR_EQUAL :: int where "GREATER_OR_EQUAL = 0"

definition LESS :: int where "LESS = -1"

definition search :: "SamplePercCacheZone list \<Rightarrow> int \<Rightarrow> int \<Rightarrow> int" where
  "search zones searchKey comparison =
     int (length (takeWhile (\<lambda>z. startPos z < searchKey) zones)) + comparison"

definition insertAtIndex ::
  "SamplePercCacheZone list \<Rightarrow> int \<Rightarrow> SamplePercCacheZone \<Rightarrow> SamplePercCacheZone list" where
  "insertAtIndex zones i z = take (nat i) zones @ [z] @ drop (nat i) zones"

definition deleteAtIndex :: "SamplePercCacheZone list \<Rightarrow> int \<Rightarrow> int \<Rightarrow> SamplePercCacheZone list" where
  "deleteAtIndex zones i numToDelete = take (nat i) zones @ drop (nat (i + numToDelete)) zones"

text \<open>
  A source cluster: whether it is loaded, and the 32-bit value \<^verbatim>\<open>*(int32_t*)&data[k]\<close>
  read at byte offset \<^verbatim>\<open>k\<close> of its data.
\<close>

record Cluster =
  loaded :: bool
  data :: "int \<Rightarrow> int"

text \<open>
  The part of \<^verbatim>\<open>class Sample\<close> that the percussive cache reads and writes. The two
  directions are indexed by \<^verbatim>\<open>reversed\<close>. A percussive buffer maps an index
  (\<^verbatim>\<open>position >> kPercBufferReductionMagnitude\<close>) to the byte written there; a
  percussive cluster is its buffer, addressed by the same index as the source does through
  its shifted data pointer.
\<close>

record Sample =
  lengthInSamples :: int
  numChannels :: nat
  byteDepth :: nat
  audioDataStartPosBytes :: int
  audioDataLengthBytes :: int
  numClusterElements :: int
  clusters :: "int \<Rightarrow> Cluster option"
  percCacheMemory :: "bool \<Rightarrow> (int \<rightharpoonup> int) option"
  percCacheClusters :: "bool \<Rightarrow> (int \<Rightarrow> (int \<rightharpoonup> int) option) option"
  numPercCacheClusters :: int
  percCacheZones :: "bool \<Rightarrow> SamplePercCacheZone list"

text \<open>
  What the collaborators answer during one call: the general memory allocator for the
  direction's storage, \<^verbatim>\<open>insertAtIndex\<close> of the zone array, and
  \<^verbatim>\<open>allocateCluster\<close> for the percussive cluster of an index.
\<close>

record FillEnv =
  env_allocStorageOk :: bool
  env_insertOk :: bool
  env_allocClusterOk :: "int \<Rightarrow> bool"

definition clusterSize :: "Config \<Rightarrow> int" where
  "clusterSize cfg = 2 ^ clusterSizeMagnitude cfg"

definition kPercBufferReductionSize :: "Config \<Rightarrow> int" where
  "kPercBufferReductionSize cfg = 2 ^ kPercBufferReductionMagnitude cfg"

definition getFirstClusterIndexWithAudioData :: "Config \<Rightarrow> Sample \<Rightarrow> int" where
  "getFirstClusterIndexWithAudioData cfg s =
     drop_bit (clusterSizeMagnitude cfg) (audioDataStartPosBytes s)"

definition getFirstClusterIndexWithNoAudioData :: "Config \<Rightarrow> 'a Sample_scheme \<Rightarrow> int" where
  "getFirstClusterIndexWithNoAudioData cfg s =
     (let clusterIndex =
            drop_bit (clusterSizeMagnitude cfg) (audioDataStartPosBytes s + audioDataLengthBytes s - 1)
              + 1
      in if clusterIndex > numClusterElements s then numClusterElements s else clusterIndex)"

definition lengthInSamplesAfterReduction :: "Config \<Rightarrow> Sample \<Rightarrow> int" where
  "lengthInSamplesAfterReduction cfg s =
     max (drop_bit (kPercBufferReductionMagnitude cfg) (lengthInSamples s - 1) + 1) 1"

definition percCacheDoneWithClusters :: "Config \<Rightarrow> Sample \<Rightarrow> bool" where
  "percCacheDoneWithClusters cfg s =
     (lengthInSamplesAfterReduction cfg s \<ge> drop_bit 1 (clusterSize cfg))"

subsection \<open>The per-sample filter (lines 613 to 641)\<close>

definition bytesPerSample :: "Sample \<Rightarrow> int" where
  "bytesPerSample s = int (numChannels s * byteDepth s)"

definition thisSampleRead :: "Sample \<Rightarrow> Cluster \<Rightarrow> int \<Rightarrow> int" where
  "thisSampleRead s cluster currentPos =
     (if numChannels s = 2
      then drop_bit 2 (data cluster currentPos)
           + drop_bit 2 (data cluster (currentPos + int (byteDepth s)))
      else drop_bit 2 (data cluster currentPos))"

fun angleLPF :: "int \<Rightarrow> int list \<Rightarrow> int \<times> int list" where
  "angleLPF angle [] = (angle, [])"
| "angleLPF angle (pole # poles) =
     (let distanceToGo = angle - pole;
          pole' = pole + drop_bit 9 distanceToGo;
          (angle', poles') = angleLPF pole' poles
      in (angle', pole' # poles'))"

text \<open>
  One pass of the body of \<^verbatim>\<open>while (true)\<close> up to the test \<^verbatim>\<open>currentPos == endPos\<close>:
  the zone with the sample read and the filter memory updated, and the local \<^verbatim>\<open>angle\<close>.
\<close>

definition sampleStep :: "Sample \<Rightarrow> Cluster \<Rightarrow> int \<Rightarrow> SamplePercCacheZone \<Rightarrow> int \<times> SamplePercCacheZone" where
  "sampleStep s cluster currentPos z =
     (let sampleRead = thisSampleRead s cluster currentPos;
          angle0 = \<bar>sampleRead - lastSampleRead z\<bar>;
          (angle, poles) = angleLPF angle0 (angleLPFMem z)
      in (angle, z\<lparr>lastSampleRead := sampleRead, angleLPFMem := poles\<rparr>))"

text \<open>
  The \<^verbatim>\<open>while (true)\<close> loop with \<^verbatim>\<open>passesLeft\<close> further passes to make after this one:
  \<^verbatim>\<open>lastAngle\<close> is stored after every pass but the last.
\<close>

fun sampleLoop ::
  "Sample \<Rightarrow> Cluster \<Rightarrow> int \<Rightarrow> nat \<Rightarrow> int \<Rightarrow> SamplePercCacheZone \<Rightarrow> int \<times> SamplePercCacheZone" where
  "sampleLoop s cluster posIncrement 0 currentPos z = sampleStep s cluster currentPos z"
| "sampleLoop s cluster posIncrement (Suc passesLeft) currentPos z =
     (let (angle, z') = sampleStep s cluster currentPos z
      in sampleLoop s cluster posIncrement passesLeft (currentPos + posIncrement)
           (z'\<lparr>lastAngle := angle\<rparr>))"

text \<open>
  Lines 649 to 658: the output byte. The divisor is the local \<^verbatim>\<open>angle\<close>; the quotient is
  taken in 64 bits unsigned and narrowed to \<^verbatim>\<open>int32_t\<close>.
\<close>

definition percussivenessByte :: "Config \<Rightarrow> int \<Rightarrow> int \<Rightarrow> trap + int" where
  "percussivenessByte cfg angle lastAngleBefore =
     (let difference = \<bar>angle - lastAngleBefore\<bar>
      in if angle mod 2 ^ 64 = 0 then Inl DivisionByZero
         else
           let percussiveness =
                 to_int32 (drop_bit 1 ((difference mod 2 ^ 64) * 262144 mod 2 ^ 64 div (angle mod 2 ^ 64)))
           in Inr (getTanH cfg percussiveness mod 256))"

subsection \<open>The segment loop (lines 594 to 664)\<close>

text \<open>Lines 595 to 607: the number of samples up to the next segment boundary, at most.\<close>

definition numSamplesThisPercPixelSegment :: "Config \<Rightarrow> bool \<Rightarrow> int \<Rightarrow> int \<Rightarrow> int" where
  "numSamplesThisPercPixelSegment cfg reversed numSamplesThisClusterReadWrite startPosSamples =
     (let size = kPercBufferReductionSize cfg;
          left0 = (if reversed
                   then (startPosSamples + 1 + drop_bit 1 size) AND (size - 1)
                   else size - ((startPosSamples + drop_bit 1 size) AND (size - 1)));
          numSamplesLeftThisPercPixelSegment = (if left0 = 0 then size else left0)
      in min numSamplesThisClusterReadWrite numSamplesLeftThisPercPixelSegment)"

text \<open>
  Lines 645 to 659, at the position reached: on a segment boundary the output byte is
  written at \<^verbatim>\<open>startPosSamples >> kPercBufferReductionMagnitude\<close>.
\<close>

definition writePercussiveness ::
  "Config \<Rightarrow> bool \<Rightarrow> int \<Rightarrow> int \<Rightarrow> int \<Rightarrow> (int \<rightharpoonup> int) \<Rightarrow> trap + (int \<rightharpoonup> int)" where
  "writePercussiveness cfg reversed startPosSamples angle lastAngleBefore percCacheNow =
     (let size = kPercBufferReductionSize cfg;
          posWithinPercPixel = startPosSamples AND (size - 1)
      in if posWithinPercPixel = drop_bit 1 size - (if reversed then 1 else 0)
         then case percussivenessByte cfg angle lastAngleBefore of
                Inl t \<Rightarrow> Inl t
              | Inr b \<Rightarrow>
                  Inr (percCacheNow(drop_bit (kPercBufferReductionMagnitude cfg) startPosSamples \<mapsto> b))
         else Inr percCacheNow)"

text \<open>
  The \<^verbatim>\<open>do ... while (numSamplesThisClusterReadWrite)\<close> loop. With a nonzero step the
  inner \<^verbatim>\<open>while (true)\<close> loop ends after \<^verbatim>\<open>numSamplesThisPercPixelSegment\<close> passes when that
  number is positive, and never reaches \<^verbatim>\<open>endPos\<close> otherwise; with a zero step it ends
  after one pass. The result is the final \<^verbatim>\<open>startPosSamples\<close>, zone and buffer.
\<close>

function segmentLoop ::
  "Config \<Rightarrow> Sample \<Rightarrow> Cluster \<Rightarrow> bool \<Rightarrow> int \<Rightarrow> int \<Rightarrow> int \<Rightarrow> int \<Rightarrow> int \<Rightarrow> SamplePercCacheZone
     \<Rightarrow> (int \<rightharpoonup> int) \<Rightarrow> trap + (int \<times> SamplePercCacheZone \<times> (int \<rightharpoonup> int))" where
  "segmentLoop cfg s cluster reversed playDirection posIncrement numSamplesThisClusterReadWrite
       currentPos startPosSamples z percCacheNow =
     (let m = numSamplesThisPercPixelSegment cfg reversed numSamplesThisClusterReadWrite
                startPosSamples
      in if m \<le> 0 then Inl RunawayLoop
         else
           let passesLeft = (if posIncrement = 0 then 0 else nat (m - 1));
               (angle, z1) = sampleLoop s cluster posIncrement passesLeft currentPos z;
               startPosSamples' = startPosSamples + m * playDirection
           in case writePercussiveness cfg reversed startPosSamples' angle (lastAngle z1)
                     percCacheNow of
                Inl t \<Rightarrow> Inl t
              | Inr percCacheNow' \<Rightarrow>
                  if numSamplesThisClusterReadWrite - m \<noteq> 0
                  then segmentLoop cfg s cluster reversed playDirection posIncrement
                         (numSamplesThisClusterReadWrite - m) (currentPos + m * posIncrement)
                         startPosSamples' (z1\<lparr>lastAngle := angle\<rparr>) percCacheNow'
                  else Inr (startPosSamples', z1\<lparr>lastAngle := angle\<rparr>, percCacheNow'))"
  by pat_completeness auto
termination
  by (relation "measure (\<lambda>(cfg, s, cluster, reversed, playDirection, posIncrement, n, rest). nat n)")
     (auto simp: numSamplesThisPercPixelSegment_def Let_def min_def split: if_splits)

subsection \<open>The cluster loop (lines 513 to 666)\<close>

definition percClusterIndexOf :: "Config \<Rightarrow> int \<Rightarrow> int" where
  "percClusterIndexOf cfg startPosSamples =
     drop_bit (clusterSizeMagnitude cfg + kPercBufferReductionMagnitude cfg) startPosSamples"

definition samplesLeftThisDestCluster :: "Config \<Rightarrow> bool \<Rightarrow> int \<Rightarrow> int" where
  "samplesLeftThisDestCluster cfg reversed startPosSamples =
     (let big = push_bit (kPercBufferReductionMagnitude cfg) (clusterSize cfg);
          posWithinPercClusterBig = startPosSamples AND (big - 1)
      in if reversed then posWithinPercClusterBig + 1 else big - posWithinPercClusterBig)"

text \<open>Line 519: the source cluster index lies outside the audio data.\<close>

definition outsideAudioData :: "Config \<Rightarrow> Sample \<Rightarrow> int \<Rightarrow> bool" where
  "outsideAudioData cfg s sourceClusterIndex =
     (sourceClusterIndex \<ge> getFirstClusterIndexWithNoAudioData cfg s
      \<or> sourceClusterIndex < getFirstClusterIndexWithAudioData cfg s)"

text \<open>
  Lines 526 to 546: with cluster storage, the percussive cluster of the current position
  is allocated on first touch; \<^verbatim>\<open>None\<close> when \<^verbatim>\<open>allocateCluster\<close> fails.
\<close>

definition percClusterSlots :: "Sample \<Rightarrow> bool \<Rightarrow> int \<Rightarrow> (int \<rightharpoonup> int) option" where
  "percClusterSlots s reversed = (case percCacheClusters s reversed of None \<Rightarrow> (\<lambda>c. None) | Some f \<Rightarrow> f)"

definition touchPercCluster :: "Config \<Rightarrow> FillEnv \<Rightarrow> Sample \<Rightarrow> bool \<Rightarrow> int \<Rightarrow> Sample option" where
  "touchPercCluster cfg env s reversed startPosSamples =
     (let percClusterIndex = percClusterIndexOf cfg startPosSamples
      in if percCacheDoneWithClusters cfg s \<and> percClusterSlots s reversed percClusterIndex = None
         then if \<not> env_allocClusterOk env percClusterIndex then None
              else Some (s\<lparr>percCacheClusters := (percCacheClusters s)
                           (reversed := Some ((percClusterSlots s reversed)
                                                (percClusterIndex := Some Map.empty)))\<rparr>)
         else Some s)"

text \<open>Lines 550 and 564: the buffer \<^verbatim>\<open>percCacheNow\<close> points into.\<close>

definition percCacheNowOf :: "Config \<Rightarrow> Sample \<Rightarrow> bool \<Rightarrow> int \<Rightarrow> (int \<rightharpoonup> int)" where
  "percCacheNowOf cfg s reversed startPosSamples =
     (if percCacheDoneWithClusters cfg s
      then (case percClusterSlots s reversed (percClusterIndexOf cfg startPosSamples) of
              None \<Rightarrow> Map.empty | Some b \<Rightarrow> b)
      else (case percCacheMemory s reversed of None \<Rightarrow> Map.empty | Some b \<Rightarrow> b))"

text \<open>
  Lines 515, 560 and 574 to 583: how many samples this pass of the loop reads. The
  division of line 582 is reached with a zero divisor only for a sample without bytes.
\<close>

definition bytesLeftThisSourceCluster :: "Config \<Rightarrow> Sample \<Rightarrow> bool \<Rightarrow> int \<Rightarrow> int" where
  "bytesLeftThisSourceCluster cfg s reversed sourceBytePos =
     (let bytePosWithinCluster = sourceBytePos AND (clusterSize cfg - 1)
      in if reversed then bytePosWithinCluster + bytesPerSample s
         else clusterSize cfg - bytePosWithinCluster + bytesPerSample s - 1)"

definition numSamplesThisCluster ::
  "Config \<Rightarrow> Sample \<Rightarrow> bool \<Rightarrow> int \<Rightarrow> int \<Rightarrow> int \<Rightarrow> trap + int" where
  "numSamplesThisCluster cfg s reversed numSamples startPosSamples sourceBytePos =
     (let n1 = (if percCacheDoneWithClusters cfg s
                then min numSamples (samplesLeftThisDestCluster cfg reversed startPosSamples)
                else numSamples);
          bytesLeft = bytesLeftThisSourceCluster cfg s reversed sourceBytePos;
          bytesWeWantToRead = n1 * bytesPerSample s
      in if bytesWeWantToRead > bytesLeft + bytesPerSample s
         then (if bytesPerSample s = 0 then Inl DivisionByZero
               else Inr (bytesLeft div bytesPerSample s))
         else Inr n1)"

definition writeBackZone :: "Sample \<Rightarrow> bool \<Rightarrow> int \<Rightarrow> SamplePercCacheZone \<Rightarrow> Sample" where
  "writeBackZone s reversed i z =
     s\<lparr>percCacheZones := (percCacheZones s)(reversed := (percCacheZones s reversed)[nat i := z])\<rparr>"

definition writeBackBuffer :: "Config \<Rightarrow> Sample \<Rightarrow> bool \<Rightarrow> int \<Rightarrow> (int \<rightharpoonup> int) \<Rightarrow> Sample" where
  "writeBackBuffer cfg s reversed percClusterIndex percCacheNow =
     (if percCacheDoneWithClusters cfg s
      then s\<lparr>percCacheClusters := (percCacheClusters s)
               (reversed := Some ((percClusterSlots s reversed)(percClusterIndex := Some percCacheNow)))\<rparr>
      else s\<lparr>percCacheMemory := (percCacheMemory s)(reversed := Some percCacheNow)\<rparr>)"

text \<open>
  The \<^verbatim>\<open>do ... while (numSamples)\<close> loop. The result carries the error code, whether the
  loop ran to its end (\<^verbatim>\<open>False\<close> for a \<^verbatim>\<open>goto getOut\<close>), the sample, and the locals
  \<^verbatim>\<open>startPosSamples\<close> and \<^verbatim>\<open>sourceBytePos\<close>. A pass that would read no sample, or more
  samples than are left, would never reach the end of the loop.
\<close>

function clusterLoop ::
  "Config \<Rightarrow> FillEnv \<Rightarrow> bool \<Rightarrow> int \<Rightarrow> int \<Rightarrow> int \<Rightarrow> int \<Rightarrow> int \<Rightarrow> Sample
     \<Rightarrow> trap + (Error \<times> bool \<times> Sample \<times> int \<times> int)" where
  "clusterLoop cfg env reversed playDirection i numSamples startPosSamples sourceBytePos s =
     (let sourceClusterIndex = drop_bit (clusterSizeMagnitude cfg) sourceBytePos
      in if outsideAudioData cfg s sourceClusterIndex
         then Inr (NO_ERROR, False, s, startPosSamples, sourceBytePos)
         else
           case touchPercCluster cfg env s reversed startPosSamples of
             None \<Rightarrow> Inr (ERROR_INSUFFICIENT_RAM, False, s, startPosSamples, sourceBytePos)
           | Some s1 \<Rightarrow>
               (case clusters s sourceClusterIndex of
                  None \<Rightarrow> Inr (NO_ERROR, False, s1, startPosSamples, sourceBytePos)
                | Some cluster \<Rightarrow>
                    if \<not> loaded cluster
                    then Inr (NO_ERROR, False, s1, startPosSamples, sourceBytePos)
                    else
                      case numSamplesThisCluster cfg s reversed numSamples startPosSamples
                             sourceBytePos of
                        Inl t \<Rightarrow> Inl t
                      | Inr n \<Rightarrow>
                          if n \<le> 0 \<or> n > numSamples then Inl RunawayLoop
                          else
                            let z = (percCacheZones s1 reversed ! nat i)
                                      \<lparr>endPos := endPos (percCacheZones s1 reversed ! nat i)
                                                   + n * playDirection\<rparr>;
                                posIncrement = bytesPerSample s * playDirection;
                                currentPos = (sourceBytePos AND (clusterSize cfg - 1)) - 4
                                               + int (byteDepth s)
                            in case segmentLoop cfg s cluster reversed playDirection posIncrement n
                                      currentPos startPosSamples z
                                      (percCacheNowOf cfg s1 reversed startPosSamples) of
                                 Inl t \<Rightarrow> Inl t
                               | Inr (startPosSamples', z', percCacheNow') \<Rightarrow>
                                   let s2 = writeBackBuffer cfg (writeBackZone s1 reversed i z')
                                              reversed (percClusterIndexOf cfg startPosSamples)
                                              percCacheNow'
                                   in if numSamples - n \<noteq> 0
                                      then clusterLoop cfg env reversed playDirection i
                                             (numSamples - n) startPosSamples'
                                             (sourceBytePos + n * posIncrement) s2
                                      else Inr (NO_ERROR, True, s2, startPosSamples',
                                                sourceBytePos + n * posIncrement)))"
  by pat_completeness auto
termination
  by (relation "measure (\<lambda>(cfg, env, reversed, playDirection, i, numSamples, rest). nat numSamples)")
     auto

subsection \<open>\<^verbatim>\<open>Sample::fillPercCache\<close>\<close>

text \<open>
  The calls into the time stretcher (which only pin clusters), the debug-build freezes
  under \<^verbatim>\<open>ALPHA_OR_BETA_VERSION\<close>, the lock macros and the performance measurement are
  left out.

  Lines 303 to 331: the direction's storage is allocated on first use.
\<close>

definition allocatePercCacheStorage :: "Config \<Rightarrow> FillEnv \<Rightarrow> bool \<Rightarrow> Sample \<Rightarrow> Error \<times> Sample" where
  "allocatePercCacheStorage cfg env reversed s =
     (if percCacheDoneWithClusters cfg s
      then (if percCacheClusters s reversed = None
            then let s1 = s\<lparr>numPercCacheClusters :=
                              drop_bit (clusterSizeMagnitude cfg)
                                (lengthInSamplesAfterReduction cfg s - 1) + 1\<rparr>
                 in if \<not> env_allocStorageOk env then (ERROR_INSUFFICIENT_RAM, s1)
                    else (NO_ERROR,
                          s1\<lparr>percCacheClusters := (percCacheClusters s1)(reversed := Some (\<lambda>c. None))\<rparr>)
            else (NO_ERROR, s))
      else (if percCacheMemory s reversed = None
            then if \<not> env_allocStorageOk env then (ERROR_INSUFFICIENT_RAM, s)
                 else (NO_ERROR, s\<lparr>percCacheMemory := (percCacheMemory s)(reversed := Some Map.empty)\<rparr>)
            else (NO_ERROR, s)))"

text \<open>
  The label \<^verbatim>\<open>getOut\<close> (lines 701 to 715). \<^verbatim>\<open>percCacheZone\<close> points at element
  \<^verbatim>\<open>i\<close> of the array; \<^verbatim>\<open>pointee\<close> is what that memory held last, read when the array
  has become shorter than \<^verbatim>\<open>i + 1\<close>.
\<close>

definition getOut :: "bool \<Rightarrow> int \<Rightarrow> SamplePercCacheZone \<Rightarrow> Error \<Rightarrow> Sample \<Rightarrow> Error \<times> Sample" where
  "getOut reversed i pointee error s =
     (let zones = percCacheZones s reversed;
          percCacheZone = (if nat i < length zones then zones ! nat i else pointee)
      in if endPos percCacheZone = startPos percCacheZone
         then (error, s\<lparr>percCacheZones := (percCacheZones s)(reversed := deleteAtIndex zones i 1)\<rparr>)
         else (error, s))"

text \<open>Lines 471 to 504: where this call stops, and whether it reaches the next zone.\<close>

definition clampEndPos :: "Sample \<Rightarrow> bool \<Rightarrow> int \<Rightarrow> int \<Rightarrow> int \<Rightarrow> int \<Rightarrow> int" where
  "clampEndPos s reversed playDirection maxNumSamplesToProcess startPosSamples endPosSamples =
     (let endPos1 = (if \<not> reversed then min endPosSamples (lengthInSamples s)
                     else max endPosSamples (-1));
          endPosSamplesLimit0 = startPosSamples + maxNumSamplesToProcess * playDirection
      in if (endPos1 - endPosSamplesLimit0) * playDirection \<ge> 0 then endPosSamplesLimit0
         else endPos1)"

definition willHitNextElement :: "SamplePercCacheZone list \<Rightarrow> int \<Rightarrow> int \<Rightarrow> int \<Rightarrow> bool" where
  "willHitNextElement zones iNext playDirection endPosSamples =
     (iNext \<ge> 0 \<and> iNext < int (length zones)
      \<and> (endPosSamples - startPos (zones ! nat iNext)) * playDirection \<ge> 0)"

definition endPosSamplesLimit :: "SamplePercCacheZone list \<Rightarrow> int \<Rightarrow> int \<Rightarrow> int" where
  "endPosSamplesLimit zones iNext playDirection =
     startPos (zones ! nat iNext)
       + samplesAtStartWhichShouldBeReplaced (zones ! nat iNext) * playDirection"

text \<open>Lines 668 to 688: after the loop has run to its end.\<close>

definition connectZones ::
  "SamplePercCacheZone list \<Rightarrow> int \<Rightarrow> int \<Rightarrow> bool \<Rightarrow> int \<Rightarrow> int \<Rightarrow> SamplePercCacheZone list" where
  "connectZones zones i playDirection willHit limit endPosSamples =
     (let z = zones ! nat i;
          z' = z\<lparr>samplesAtStartWhichShouldBeReplaced :=
                    max 2048 ((endPos z - startPos z) * playDirection)\<rparr>;
          zones1 = zones[nat i := z'];
          iNext = i + playDirection
      in if willHit
         then
           let nextZone = zones1 ! nat iNext
           in if (endPosSamples - limit) * playDirection \<ge> 0
              then deleteAtIndex
                     (zones1[nat iNext := nextZone\<lparr>startPos := startPos z',
                               samplesAtStartWhichShouldBeReplaced :=
                                 samplesAtStartWhichShouldBeReplaced z'\<rparr>]) i 1
              else zones1[nat iNext := nextZone\<lparr>samplesAtStartWhichShouldBeReplaced :=
                               samplesAtStartWhichShouldBeReplaced nextZone
                                 - (endPosSamples - startPos nextZone) * playDirection,
                             startPos := endPosSamples\<rparr>]
         else zones1)"

text \<open>The label \<^verbatim>\<open>doLoading\<close> (lines 461 to 716), for the zone at index \<^verbatim>\<open>i\<close>.\<close>

definition doLoading ::
  "Config \<Rightarrow> FillEnv \<Rightarrow> bool \<Rightarrow> int \<Rightarrow> int \<Rightarrow> int \<Rightarrow> int \<Rightarrow> int \<Rightarrow> Sample \<Rightarrow> trap + (Error \<times> Sample)" where
  "doLoading cfg env reversed playDirection maxNumSamplesToProcess i startPosSamples endPosSamples0 s =
     (let zones = percCacheZones s reversed;
          endPos2 = clampEndPos s reversed playDirection maxNumSamplesToProcess startPosSamples
                      endPosSamples0;
          iNext = i + playDirection;
          willHit = willHitNextElement zones iNext playDirection endPos2;
          limit = (if willHit then endPosSamplesLimit zones iNext playDirection else 0);
          endPosSamples = (if willHit \<and> (endPos2 - limit) * playDirection \<ge> 0 then limit
                           else endPos2);
          numSamples = (endPosSamples - startPosSamples) * playDirection
      in if numSamples \<le> 0 then Inr (getOut reversed i (zones ! nat i) NO_ERROR s)
         else
           let sourceBytePos = audioDataStartPosBytes s + startPosSamples * bytesPerSample s
           in case clusterLoop cfg env reversed playDirection i numSamples startPosSamples
                     sourceBytePos s of
                Inl t \<Rightarrow> Inl t
              | Inr (error, finished, s1, startPosSamples', sourceBytePos') \<Rightarrow>
                  if \<not> finished
                  then Inr (getOut reversed i (percCacheZones s1 reversed ! nat i) error s1)
                  else
                    let zones1 = percCacheZones s1 reversed;
                        zones2 = connectZones zones1 i playDirection willHit limit endPosSamples;
                        pointee = (zones1 ! nat i)
                                    \<lparr>samplesAtStartWhichShouldBeReplaced :=
                                        max 2048 ((endPos (zones1 ! nat i) - startPos (zones1 ! nat i))
                                                  * playDirection)\<rparr>
                    in Inr (getOut reversed i pointee error
                              (s1\<lparr>percCacheZones := (percCacheZones s1)(reversed := zones2)\<rparr>)))"

definition fillPercCache ::
  "Config \<Rightarrow> FillEnv \<Rightarrow> Sample \<Rightarrow> int \<Rightarrow> int \<Rightarrow> int \<Rightarrow> int \<Rightarrow> trap + (Error \<times> Sample)" where
  "fillPercCache cfg env s startPosSamples endPosSamples playDirection maxNumSamplesToProcess =
     (let reversed = (playDirection \<noteq> 1)
      in if (if \<not> reversed then startPosSamples mod 2 ^ 64 \<ge> lengthInSamples s
            else startPosSamples < 0)
         then Inr (NO_ERROR, s)
         else
           case allocatePercCacheStorage cfg env reversed s of
             (ERROR_INSUFFICIENT_RAM, s1) \<Rightarrow> Inr (ERROR_INSUFFICIENT_RAM, s1)
           | (NO_ERROR, s1) \<Rightarrow>
               let zones = percCacheZones s1 reversed;
                   i = (if \<not> reversed then search zones (startPosSamples + 1) LESS
                        else search zones startPosSamples GREATER_OR_EQUAL)
               in if i \<ge> 0 \<and> i < int (length zones)
                     \<and> (endPos (zones ! nat i) - startPosSamples) * playDirection \<ge> -2048
                  then
                    let startPosSamples' = endPos (zones ! nat i)
                    in if (if \<not> reversed then startPosSamples' mod 2 ^ 64 \<ge> lengthInSamples s1
                           else startPosSamples' < 0)
                       then Inr (NO_ERROR, s1)
                       else if (endPos (zones ! nat i) - endPosSamples) * playDirection \<ge> 0
                       then Inr (NO_ERROR, s1)
                       else doLoading cfg env reversed playDirection maxNumSamplesToProcess i
                              startPosSamples' endPosSamples s1
                  else
                    let iNew = (if \<not> reversed then i + 1 else i)
                    in if \<not> env_insertOk env then Inr (ERROR_INSUFFICIENT_RAM, s1)
                       else doLoading cfg env reversed playDirection maxNumSamplesToProcess iNew
                              startPosSamples endPosSamples
                              (s1\<lparr>percCacheZones := (percCacheZones s1)
                                    (reversed := insertAtIndex zones iNew
                                                   (newSamplePercCacheZone cfg startPosSamples))\<rparr>))"

subsection \<open>\<^verbatim>\<open>Sample::percCacheClusterStolen\<close>\<close>

text \<open>
  The stolen cluster is given by its type (\<^verbatim>\<open>reversed\<close>) and its \<^verbatim>\<open>clusterIndex\<close>;
  \<^verbatim>\<open>insertSucceeds\<close> says whether \<^verbatim>\<open>insertAtIndex\<close> succeeds if it is reached.
\<close>

definition percCacheClusterStolen :: "Config \<Rightarrow> bool \<Rightarrow> Sample \<Rightarrow> bool \<Rightarrow> int \<Rightarrow> Sample" where
  "percCacheClusterStolen cfg insertSucceeds s reversed clusterIndex =
     (let playDirection = (if reversed then -1 else 1 :: int);
          comparison = (if reversed then GREATER_OR_EQUAL else LESS);
          r = (if reversed then 1 else 0 :: int);
          s1 = s\<lparr>percCacheClusters := (percCacheClusters s)
                 (reversed := map_option (\<lambda>slots. slots(clusterIndex := None))
                                (percCacheClusters s reversed))\<rparr>;
          shift = clusterSizeMagnitude cfg + kPercBufferReductionMagnitude cfg;
          leftBorder = push_bit shift clusterIndex;
          rightBorder = push_bit shift (clusterIndex + 1);
          laterBorder = (if reversed then leftBorder - 1 else rightBorder);
          earlierBorder = (if reversed then rightBorder - 1 else leftBorder);
          zones = percCacheZones s1 reversed;
          iEarlier = search zones (earlierBorder + r) comparison;
          eats = (iEarlier \<ge> 0 \<and> iEarlier < int (length zones)
                  \<and> (endPos (zones ! nat iEarlier) - earlierBorder) * playDirection > 0)
      in if eats \<and> (endPos (zones ! nat iEarlier) - laterBorder) * playDirection > 0
         then
           let zoneEarlier = zones ! nat iEarlier;
               oldStartPos = startPos zoneEarlier;
               oldSamplesAtStartWhichShouldBeReplaced =
                 samplesAtStartWhichShouldBeReplaced zoneEarlier;
               zones1 = zones[nat iEarlier :=
                          zoneEarlier\<lparr>startPos := laterBorder,
                                       samplesAtStartWhichShouldBeReplaced := 0\<rparr>];
               iNew = (if reversed then iEarlier + 1 else iEarlier)
           in if \<not> insertSucceeds
              then s1\<lparr>percCacheZones := (percCacheZones s1)(reversed := zones1)\<rparr>
              else
                let newZone = (newSamplePercCacheZone cfg oldStartPos)
                                \<lparr>samplesAtStartWhichShouldBeReplaced :=
                                    oldSamplesAtStartWhichShouldBeReplaced,
                                 endPos := earlierBorder\<rparr>
                in s1\<lparr>percCacheZones := (percCacheZones s1)
                        (reversed := insertAtIndex zones1 iNew newZone)\<rparr>
         else
           let zones1 = (if eats
                         then zones[nat iEarlier := resetEndPos (zones ! nat iEarlier) earlierBorder]
                         else zones);
               iLater0 = search zones1 (laterBorder + r) comparison;
               trims = ((iLater0 - iEarlier) * playDirection > 0
                        \<and> (endPos (zones1 ! nat iLater0) - laterBorder) * playDirection > 0);
               zones2 = (if trims
                         then let zoneLater = zones1 ! nat iLater0
                              in zones1[nat iLater0 :=
                                   zoneLater\<lparr>samplesAtStartWhichShouldBeReplaced :=
                                                 max 0 (samplesAtStartWhichShouldBeReplaced zoneLater
                                                        - (laterBorder - startPos zoneLater)
                                                          * playDirection),
                                               startPos := laterBorder\<rparr>]
                         else zones1);
               iLater = (if trims then iLater0 else iLater0 + playDirection);
               numToDelete = (iLater - iEarlier) * playDirection - 1;
               deleteFrom = (if reversed then iLater + 1 else iEarlier + 1);
               zones3 = (if numToDelete \<noteq> 0 then deleteAtIndex zones2 deleteFrom numToDelete
                         else zones2)
           in s1\<lparr>percCacheZones := (percCacheZones s1)(reversed := zones3)\<rparr>)"

subsection \<open>The zone invariant\<close>

text \<open>
  Zones of one direction, in array order: each zone is a nonempty interval in its
  direction, and each zone ends at or before the start of the zones after it in the array
  (forwards) or starts at or before their end (reversed, where \<^verbatim>\<open>endPos\<close> lies below
  \<^verbatim>\<open>startPos\<close>).
\<close>

definition zoneNonEmpty :: "bool \<Rightarrow> SamplePercCacheZone \<Rightarrow> bool" where
  "zoneNonEmpty reversed z = (if reversed then endPos z < startPos z else startPos z < endPos z)"

definition zoneBefore :: "bool \<Rightarrow> SamplePercCacheZone \<Rightarrow> SamplePercCacheZone \<Rightarrow> bool" where
  "zoneBefore reversed a b = (if reversed then startPos a \<le> endPos b else endPos a \<le> startPos b)"

definition zoneInvariant :: "bool \<Rightarrow> SamplePercCacheZone list \<Rightarrow> bool" where
  "zoneInvariant reversed zones =
     (list_all (zoneNonEmpty reversed) zones \<and> sorted_wrt (zoneBefore reversed) zones)"

section \<open>Reading the loops\<close>

text \<open>
  Predicates that say what the loops of \<^verbatim>\<open>fillPercCache\<close> leave alone: the fields of
  the sample outside the percussive cache, and, for the zone being filled, everything but
  its end (which advances by \<open>d\<close>) and its filter state.
\<close>

definition sameExceptCache :: "Sample \<Rightarrow> Sample \<Rightarrow> bool" where
  "sameExceptCache s s' =
     (lengthInSamples s' = lengthInSamples s \<and> numChannels s' = numChannels s
      \<and> byteDepth s' = byteDepth s \<and> audioDataStartPosBytes s' = audioDataStartPosBytes s
      \<and> audioDataLengthBytes s' = audioDataLengthBytes s
      \<and> numClusterElements s' = numClusterElements s \<and> clusters s' = clusters s)"

definition zoneAdvanced :: "SamplePercCacheZone \<Rightarrow> SamplePercCacheZone \<Rightarrow> int \<Rightarrow> bool" where
  "zoneAdvanced z z' d =
     (startPos z' = startPos z \<and> endPos z' = endPos z + d
      \<and> samplesAtStartWhichShouldBeReplaced z' = samplesAtStartWhichShouldBeReplaced z)"

definition zonesStepped :: "Sample \<Rightarrow> Sample \<Rightarrow> bool \<Rightarrow> int \<Rightarrow> int \<Rightarrow> bool" where
  "zonesStepped s s' r i d =
     (\<exists>z'. percCacheZones s' r = (percCacheZones s r)[nat i := z']
          \<and> percCacheZones s' (\<not> r) = percCacheZones s (\<not> r)
          \<and> zoneAdvanced (percCacheZones s r ! nat i) z' d)"


text \<open>
  The tests of lines 519 and 567 for the first pass of the loop: the source cluster that
  holds the sample at \<^verbatim>\<open>startPosSamples\<close> lies inside the audio data and is loaded.
  The byte position is the integer one; it is the \<^verbatim>\<open>int32_t\<close> value of the source when
  it is below \<open>2\<^sup>3\<^sup>1\<close>.
\<close>

definition firstSampleLoaded :: "Config \<Rightarrow> Sample \<Rightarrow> int \<Rightarrow> bool" where
  "firstSampleLoaded cfg s startPosSamples =
     (let sourceClusterIndex = drop_bit (clusterSizeMagnitude cfg)
            (audioDataStartPosBytes s + startPosSamples * bytesPerSample s)
      in \<not> outsideAudioData cfg s sourceClusterIndex
         \<and> (case clusters s sourceClusterIndex of None \<Rightarrow> False | Some cl \<Rightarrow> loaded cl))"

text \<open>
  The same tests on the byte position as the source holds it, in an \<^verbatim>\<open>int32_t\<close>
  (lines 506 and 511).
\<close>

definition firstSampleLoaded32 :: "Config \<Rightarrow> Sample \<Rightarrow> int \<Rightarrow> bool" where
  "firstSampleLoaded32 cfg s startPosSamples =
     (let sourceBytePos = to_int32 (audioDataStartPosBytes s + startPosSamples * bytesPerSample s);
          sourceClusterIndex = drop_bit (clusterSizeMagnitude cfg) sourceBytePos
      in \<not> outsideAudioData cfg s sourceClusterIndex
         \<and> (case clusters s sourceClusterIndex of None \<Rightarrow> False | Some cl \<Rightarrow> loaded cl))"

text \<open>
  The values of a call fit the 32-bit variables that hold them in the source. The model
  computes on the integers, the source in \<^verbatim>\<open>int32_t\<close> and \<^verbatim>\<open>uint32_t\<close>: the byte
  position \<^verbatim>\<open>sourceBytePos\<close> of lines 506, 511 and 589, the length of the file as
  line 473 narrows it, the end position and \<^verbatim>\<open>endPosSamplesLimit0\<close> of line 477, the
  shifted cluster size of line 551, the cluster indices of lines 996 and 1001. When the
  audio data starts below byte \<open>2\<^sup>3\<^sup>0\<close>, is not empty and ends below byte \<open>2\<^sup>3\<^sup>1\<close>, the
  samples of the file and the 2048 of the slack take fewer than \<open>2\<^sup>3\<^sup>0\<close> bytes, and the
  end position and the cap of the call are below \<open>2\<^sup>3\<^sup>0\<close> in size, none of these wraps
  and the integers of the model are the values of the source.
\<close>

definition callFitsInt32 :: "Config \<Rightarrow> Sample \<Rightarrow> int \<Rightarrow> int \<Rightarrow> bool" where
  "callFitsInt32 cfg s endPosSamples maxNumSamplesToProcess =
     (clusterSizeMagnitude cfg + kPercBufferReductionMagnitude cfg < 31
      \<and> 0 \<le> audioDataStartPosBytes s \<and> audioDataStartPosBytes s < 2 ^ 30
      \<and> 0 < audioDataLengthBytes s
      \<and> audioDataStartPosBytes s + audioDataLengthBytes s < 2 ^ 31
      \<and> (lengthInSamples s + 2048) * bytesPerSample s < 2 ^ 30
      \<and> 0 \<le> numClusterElements s \<and> numClusterElements s < 2 ^ 31
      \<and> lengthInSamples s < 2 ^ 30
      \<and> - (2 ^ 30) < endPosSamples \<and> endPosSamples < 2 ^ 30
      \<and> maxNumSamplesToProcess < 2 ^ 30)"

text \<open>
  Notions for comparing one forward call with two that cover the same range.
\<close>

text \<open>The number of samples from a position to the next segment boundary, playing forward.\<close>

definition leftForward :: "Config \<Rightarrow> int \<Rightarrow> int" where
  "leftForward cfg start =
     kPercBufferReductionSize cfg
       - ((start + drop_bit 1 (kPercBufferReductionSize cfg)) mod kPercBufferReductionSize cfg)"

text \<open>A zone with its end and its provisional prefix replaced.\<close>

definition reposition :: "SamplePercCacheZone \<Rightarrow> int \<Rightarrow> int \<Rightarrow> SamplePercCacheZone" where
  "reposition z e p = z\<lparr>endPos := e, samplesAtStartWhichShouldBeReplaced := p\<rparr>"

text \<open>The sample after a forward run that ended: the buffer written back, and the one zone of the direction.\<close>

definition storeRun ::
  "Config \<Rightarrow> Sample \<Rightarrow> int \<Rightarrow> SamplePercCacheZone \<Rightarrow> (int \<rightharpoonup> int) \<Rightarrow> Sample" where
  "storeRun cfg t percClusterIndex z buf =
     (writeBackBuffer cfg t False percClusterIndex buf)
       \<lparr>percCacheZones := (percCacheZones t)(False := [z])\<rparr>"

text \<open>The first \<open>n\<close> samples lie in one source cluster.\<close>

definition rangeInFirstCluster :: "Config \<Rightarrow> Sample \<Rightarrow> int \<Rightarrow> bool" where
  "rangeInFirstCluster cfg s n =
     (0 < bytesPerSample s
      \<and> (audioDataStartPosBytes s AND (clusterSize cfg - 1)) + n * bytesPerSample s \<le> clusterSize cfg)"

text \<open>The sample when a call that starts at 0 with no forward zone enters the loop: storage allocated, the new zone inserted, the percussive cluster of position 0 present.\<close>

definition startedAtZero :: "Config \<Rightarrow> FillEnv \<Rightarrow> Sample \<Rightarrow> Sample" where
  "startedAtZero cfg env s =
     (let sA = snd (allocatePercCacheStorage cfg env False s);
          s2 = sA\<lparr>percCacheZones := (percCacheZones sA)(False := [newSamplePercCacheZone cfg 0])\<rparr>
      in case touchPercCluster cfg env s2 False 0 of None \<Rightarrow> s2 | Some s3 \<Rightarrow> s3)"

text \<open>The source cluster that holds the first sample.\<close>

definition firstCluster :: "Config \<Rightarrow> Sample \<Rightarrow> Cluster" where
  "firstCluster cfg s =
     (case clusters s (drop_bit (clusterSizeMagnitude cfg) (audioDataStartPosBytes s)) of
        None \<Rightarrow> \<lparr>loaded = False, data = (\<lambda>k. 0)\<rparr>
      | Some cl \<Rightarrow> cl)"
section \<open>Pitch detection: the search for the onset\<close>

text \<open>
  \<^verbatim>\<open>Sample::determinePitch\<close> from the label \<^verbatim>\<open>startAgain\<close> (line 1316) to the test after
  \<^verbatim>\<open>doneReading\<close> (line 1459), up to the moment the onset is found. The window that is
  filled after it, the transform and the choice of the peak work on floating-point values
  and are not part of the model; \<^verbatim>\<open>lengthDoublings\<close>, which lines 1290 to 1308 compute
  from the sample rate and the frequency limit, is a parameter.

  The members of \<^verbatim>\<open>Sample\<close> that this function uses beyond those of the percussive
  cache:
\<close>

record PitchSample = Sample +
  sampleRate :: int
  beginningOffsetForPitchDetection :: int
  beginningOffsetForPitchDetectionFound :: bool

text \<open>
  Line 158, \<^verbatim>\<open>workOutBitMask\<close>: the 32-bit mask that keeps the \<^verbatim>\<open>byteDepth\<close> upper bytes
  (the shift is defined for a \<^verbatim>\<open>byteDepth\<close> from 1 to 4).
\<close>

definition workOutBitMask :: "nat \<Rightarrow> int" where
  "workOutBitMask bd = push_bit (nat ((4 - int bd) * 8)) 4294967295 mod 2 ^ 32"

text \<open>
  Modelled from the spec: \<^verbatim>\<open>SampleCluster::getCluster\<close> is not in the sources. With
  \<^verbatim>\<open>CLUSTER_LOAD_IMMEDIATELY\<close> it hands out the cluster, reading it from the card first if
  it is not in memory, and null if that fails; \<^verbatim>\<open>canLoad\<close> says for which clusters the
  read succeeds. The \<^verbatim>\<open>data\<close> of a cluster is what the file holds there.
\<close>

definition getCluster :: "(int \<Rightarrow> bool) \<Rightarrow> 'a Sample_scheme \<Rightarrow> int \<Rightarrow> Cluster option" where
  "getCluster canLoad s clusterIndex =
     (case clusters s clusterIndex of
        None \<Rightarrow> None
      | Some cl \<Rightarrow> if loaded cl \<or> canLoad clusterIndex then Some cl else None)"

text \<open>The locals of the reading loop.\<close>

record Reader =
  rd_currentOffset :: int
  rd_currentClusterIndex :: int
  rd_cluster :: "Cluster option"
  rd_nextCluster :: "Cluster option"

datatype ReadEnd = FailedToLoadNext | DoneReading

text \<open>Lines 1373 to 1375.\<close>

definition individualSampleValue :: "Config \<Rightarrow> 'a Sample_scheme \<Rightarrow> Cluster \<Rightarrow> int \<Rightarrow> int" where
  "individualSampleValue cfg s cl currentOffset =
     to_int32 (data cl ((currentOffset AND (clusterSize cfg - 1)) - 4 + int (byteDepth s))
               AND workOutBitMask (byteDepth s))"

text \<open>
  Lines 1353 to 1394, one pass while nothing has been found (the averaging loop then never
  gets beyond its first round): the value read and the locals after it, or how the
  reading ended. The end of the file is noticed before the value just read is looked at.
\<close>

definition readStep ::
  "Config \<Rightarrow> (int \<Rightarrow> bool) \<Rightarrow> 'a Sample_scheme \<Rightarrow> Reader \<Rightarrow> trap + (ReadEnd + int \<times> Reader)" where
  "readStep cfg canLoad s rd =
     (let wantNext = (rd_nextCluster rd = None
                      \<and> rd_currentClusterIndex rd + 1 < getFirstClusterIndexWithNoAudioData cfg s);
          nextCluster = (if wantNext then getCluster canLoad s (rd_currentClusterIndex rd + 1)
                         else rd_nextCluster rd)
      in if wantNext \<and> nextCluster = None then Inr (Inl FailedToLoadNext)
         else
           case rd_cluster rd of
             None \<Rightarrow> Inl NullPointer
           | Some cl \<Rightarrow>
               let v = individualSampleValue cfg s cl (rd_currentOffset rd);
                   currentOffset = rd_currentOffset rd + int (byteDepth s)
               in if currentOffset \<ge> audioDataLengthBytes s + audioDataStartPosBytes s
                  then Inr (Inl DoneReading)
                  else
                    let newClusterIndex = drop_bit (clusterSizeMagnitude cfg) currentOffset
                    in if newClusterIndex \<noteq> rd_currentClusterIndex rd
                       then Inr (Inr (v, \<lparr>rd_currentOffset = currentOffset,
                                         rd_currentClusterIndex = newClusterIndex,
                                         rd_cluster = nextCluster, rd_nextCluster = None\<rparr>))
                       else Inr (Inr (v, rd\<lparr>rd_currentOffset := currentOffset,
                                           rd_nextCluster := nextCluster\<rparr>)))"

text \<open>Line 1398. The negation of the least 32-bit value wraps.\<close>

definition absoluteValue :: "int \<Rightarrow> int" where
  "absoluteValue v = (if v < 0 then to_int32 (- v) else v)"

text \<open>Lines 1410 to 1422: where the window will start, kept for later calls.\<close>

definition onsetOffset :: "Config \<Rightarrow> 'a PitchSample_scheme \<Rightarrow> nat \<Rightarrow> int \<Rightarrow> int" where
  "onsetOffset cfg s lengthDoublings currentOffset =
     (let o1 = currentOffset + drop_bit 2 (sampleRate s) * int (numChannels s) * int (byteDepth s);
          o2 = min o1 (audioDataStartPosBytes s + audioDataLengthBytes s
                       - push_bit lengthDoublings (kPitchDetectWindowSize cfg)
                           * int (numChannels s) * int (byteDepth s))
      in max o2 currentOffset)"

text \<open>
  The loop of lines 1351 to 1436 until the onset is found: the result is how the reading
  ended and \<^verbatim>\<open>biggestValueFound\<close>, or the locals, \<^verbatim>\<open>biggestValueFound\<close> and the new
  \<^verbatim>\<open>beginningOffsetForPitchDetection\<close>. A sample without bytes would be read forever.
\<close>

datatype SearchEnd = NotFound ReadEnd int | Found Reader int int

function onsetSearch ::
  "Config \<Rightarrow> (int \<Rightarrow> bool) \<Rightarrow> 'a PitchSample_scheme \<Rightarrow> nat \<Rightarrow> int \<Rightarrow> int \<Rightarrow> Reader
     \<Rightarrow> trap + SearchEnd" where
  "onsetSearch cfg canLoad s lengthDoublings startValueThreshold biggestValueFound rd =
     (if byteDepth s = 0 then Inl RunawayLoop
      else
        case readStep cfg canLoad s rd of
          Inl t \<Rightarrow> Inl t
        | Inr (Inl e) \<Rightarrow> Inr (NotFound e biggestValueFound)
        | Inr (Inr (v, rd')) \<Rightarrow>
            let biggestValueFound' = (if absoluteValue v > biggestValueFound then absoluteValue v
                                      else biggestValueFound)
            in if absoluteValue v < startValueThreshold
               then onsetSearch cfg canLoad s lengthDoublings startValueThreshold
                      biggestValueFound' rd'
               else Inr (Found rd' biggestValueFound'
                          (onsetOffset cfg s lengthDoublings (rd_currentOffset rd'))))"
  by pat_completeness auto
termination
  by (relation "measure (\<lambda>(cfg, canLoad, s, lengthDoublings, startValueThreshold, biggestValueFound, rd).
        nat (audioDataLengthBytes s + audioDataStartPosBytes s - rd_currentOffset rd))")
     (auto simp: readStep_def Let_def split: if_splits option.splits)

text \<open>
  The absolute values that the loop compares with the threshold, in order, when no
  comparison stops it: those of the samples read before the reading ends.
\<close>

function testedValues :: "Config \<Rightarrow> (int \<Rightarrow> bool) \<Rightarrow> 'a Sample_scheme \<Rightarrow> Reader \<Rightarrow> int list" where
  "testedValues cfg canLoad s rd =
     (if byteDepth s = 0 then []
      else
        case readStep cfg canLoad s rd of
          Inr (Inr (v, rd')) \<Rightarrow> absoluteValue v # testedValues cfg canLoad s rd'
        | _ \<Rightarrow> [])"
  by pat_completeness auto
termination
  by (relation "measure (\<lambda>(cfg, canLoad, s, rd).
        nat (audioDataLengthBytes s + audioDataStartPosBytes s - rd_currentOffset rd))")
     (auto simp: readStep_def Let_def split: if_splits option.splits)

text \<open>And how that reading ends.\<close>

function readingEnd :: "Config \<Rightarrow> (int \<Rightarrow> bool) \<Rightarrow> 'a Sample_scheme \<Rightarrow> Reader \<Rightarrow> trap + ReadEnd" where
  "readingEnd cfg canLoad s rd =
     (if byteDepth s = 0 then Inl RunawayLoop
      else
        case readStep cfg canLoad s rd of
          Inl t \<Rightarrow> Inl t
        | Inr (Inl e) \<Rightarrow> Inr e
        | Inr (Inr (v, rd')) \<Rightarrow> readingEnd cfg canLoad s rd')"
  by pat_completeness auto
termination
  by (relation "measure (\<lambda>(cfg, canLoad, s, rd).
        nat (audioDataLengthBytes s + audioDataStartPosBytes s - rd_currentOffset rd))")
     (auto simp: readStep_def Let_def split: if_splits option.splits)

text \<open>
  From \<^verbatim>\<open>startAgain\<close> to the test after \<^verbatim>\<open>doneReading\<close>. The result carries the
  locals \<^verbatim>\<open>doingSecondPassWithReducedThreshold\<close> and \<^verbatim>\<open>startValueThreshold\<close> as they are
  when the search is over, and what it came to: a cluster could not be loaded or no sound
  was found (the function returns 0), the onset was known from an earlier call, or it has
  been found and \<^verbatim>\<open>beginningOffsetForPitchDetection\<close> has the given value.
\<close>

datatype OnsetOutcome = FailedToLoad | NoSoundFound | OnsetKnown | OnsetFound int

function startAgain ::
  "Config \<Rightarrow> (int \<Rightarrow> bool) \<Rightarrow> 'a PitchSample_scheme \<Rightarrow> nat \<Rightarrow> bool \<Rightarrow> int
     \<Rightarrow> trap + (bool \<times> int \<times> OnsetOutcome)" where
  "startAgain cfg canLoad s lengthDoublings doingSecondPassWithReducedThreshold startValueThreshold =
     (let currentOffset = beginningOffsetForPitchDetection s;
          currentClusterIndex = drop_bit (clusterSizeMagnitude cfg) currentOffset
      in case getCluster canLoad s currentClusterIndex of
           None \<Rightarrow> Inr (doingSecondPassWithReducedThreshold, startValueThreshold, FailedToLoad)
         | Some cl \<Rightarrow>
             if beginningOffsetForPitchDetectionFound s
             then Inr (doingSecondPassWithReducedThreshold, startValueThreshold, OnsetKnown)
             else
               case onsetSearch cfg canLoad s lengthDoublings startValueThreshold 0
                      \<lparr>rd_currentOffset = currentOffset, rd_currentClusterIndex = currentClusterIndex,
                       rd_cluster = Some cl, rd_nextCluster = None\<rparr> of
                 Inl t \<Rightarrow> Inl t
               | Inr (Found rd biggestValueFound newOffset) \<Rightarrow>
                   Inr (doingSecondPassWithReducedThreshold, startValueThreshold, OnsetFound newOffset)
               | Inr (NotFound FailedToLoadNext biggestValueFound) \<Rightarrow>
                   Inr (doingSecondPassWithReducedThreshold, startValueThreshold, FailedToLoad)
               | Inr (NotFound DoneReading biggestValueFound) \<Rightarrow>
                   if \<not> doingSecondPassWithReducedThreshold \<and> biggestValueFound \<ge> 2 ^ (31 - 9)
                   then startAgain cfg canLoad s lengthDoublings True (drop_bit 4 biggestValueFound)
                   else Inr (doingSecondPassWithReducedThreshold, startValueThreshold, NoSoundFound))"
  by pat_completeness auto
termination
  by (relation "measure (\<lambda>(cfg, canLoad, s, lengthDoublings, doingSecondPass, startValueThreshold).
        if doingSecondPass then 0 else 1)") auto

declare onsetSearch.simps [simp del] testedValues.simps [simp del] readingEnd.simps [simp del]
  startAgain.simps [simp del]

text \<open>Lines 1310 to 1314 and the loop above.\<close>

definition determinePitchOnset ::
  "Config \<Rightarrow> (int \<Rightarrow> bool) \<Rightarrow> 'a PitchSample_scheme \<Rightarrow> nat \<Rightarrow> trap + (bool \<times> int \<times> OnsetOutcome)" where
  "determinePitchOnset cfg canLoad s lengthDoublings =
     startAgain cfg canLoad
       (if beginningOffsetForPitchDetection s = 0
        then s\<lparr>beginningOffsetForPitchDetection := audioDataStartPosBytes s\<rparr> else s)
       lengthDoublings False (2 ^ (31 - 4))"

text \<open>The reader at \<^verbatim>\<open>startAgain\<close>, and \<^verbatim>\<open>biggestValueFound\<close> over a list of values.\<close>

definition firstReader :: "Config \<Rightarrow> (int \<Rightarrow> bool) \<Rightarrow> 'a PitchSample_scheme \<Rightarrow> Reader" where
  "firstReader cfg canLoad s =
     (let currentOffset = (if beginningOffsetForPitchDetection s = 0 then audioDataStartPosBytes s
                           else beginningOffsetForPitchDetection s);
          currentClusterIndex = drop_bit (clusterSizeMagnitude cfg) currentOffset
      in \<lparr>rd_currentOffset = currentOffset, rd_currentClusterIndex = currentClusterIndex,
          rd_cluster = getCluster canLoad s currentClusterIndex, rd_nextCluster = None\<rparr>)"

definition biggestOf :: "int list \<Rightarrow> int" where
  "biggestOf vs = fold (\<lambda>a b. if a > b then a else b) vs 0"

section \<open>Concrete samples for the examples\<close>

text \<open>
  A mono 16-bit file of 1000 silent samples whose audio data starts at byte 44 of its only
  cluster, with nothing cached yet, and collaborators that never fail.
\<close>

definition silentSample :: Sample where
  "silentSample = \<lparr>lengthInSamples = 1000, numChannels = 1, byteDepth = 2,
     audioDataStartPosBytes = 44, audioDataLengthBytes = 2000, numClusterElements = 1,
     clusters = (\<lambda>c. if c = 0 then Some \<lparr>loaded = True, data = (\<lambda>k. 0)\<rparr> else None),
     percCacheMemory = (\<lambda>r. None), percCacheClusters = (\<lambda>r. None), numPercCacheClusters = 0,
     percCacheZones = (\<lambda>r. [])\<rparr>"

definition allOk :: FillEnv where
  "allOk = \<lparr>env_allocStorageOk = True, env_insertOk = True, env_allocClusterOk = (\<lambda>c. True)\<rparr>"

text \<open>The silent file after the forward range from 70 to 71 has been filled.\<close>

definition afterFirstFill :: Sample where
  "afterFirstFill = silentSample\<lparr>percCacheMemory := (\<lambda>r. None)(False := Some Map.empty),
      percCacheZones := (\<lambda>r. [])(False := [\<lparr>startPos = 70, endPos = 71,
          samplesAtStartWhichShouldBeReplaced = 2048, lastSampleRead = 0,
          lastAngle = 0, angleLPFMem = [0, 0]\<rparr>])\<rparr>"

text \<open>And after the forward range from 66 to 71 has been filled next.\<close>

definition afterSecondFill :: Sample where
  "afterSecondFill = silentSample\<lparr>percCacheMemory := (\<lambda>r. None)(False := Some Map.empty),
      percCacheZones := (\<lambda>r. [])(False :=
        [\<lparr>startPos = 66, endPos = 71, samplesAtStartWhichShouldBeReplaced = 2048,
          lastSampleRead = 0, lastAngle = 0, angleLPFMem = [0, 0]\<rparr>,
         \<lparr>startPos = 71, endPos = 71, samplesAtStartWhichShouldBeReplaced = 2047,
          lastSampleRead = 0, lastAngle = 0, angleLPFMem = [0, 0]\<rparr>])\<rparr>"

text \<open>
  A long file with cluster storage: one forward zone from 100 to 9000000 with a provisional
  prefix of 2048 samples. With the device's constants the percussive cluster of index 1
  covers the positions from 4194304 to 8388608.
\<close>

definition straddlingZone :: SamplePercCacheZone where
  "straddlingZone = \<lparr>startPos = 100, endPos = 9000000,
     samplesAtStartWhichShouldBeReplaced = 2048, lastSampleRead = 5, lastAngle = 7,
     angleLPFMem = [3, 4]\<rparr>"

definition evictionSample :: Sample where
  "evictionSample = \<lparr>lengthInSamples = 10000000, numChannels = 1, byteDepth = 2,
     audioDataStartPosBytes = 44, audioDataLengthBytes = 20000000, numClusterElements = 611,
     clusters = (\<lambda>c. None),
     percCacheMemory = (\<lambda>r. None),
     percCacheClusters = (\<lambda>r. None)(False := Some (\<lambda>c. Some Map.empty)),
     numPercCacheClusters = 3,
     percCacheZones = (\<lambda>r. [])(False := [straddlingZone])\<rparr>"

text \<open>
  A mono 16-bit file of 20000 samples over two clusters, the second of which is not loaded.
  The audio data starts at byte 44, so the first cluster holds the samples up to 16361.
\<close>

definition rampSample :: Sample where
  "rampSample = \<lparr>lengthInSamples = 20000, numChannels = 1, byteDepth = 2,
     audioDataStartPosBytes = 44, audioDataLengthBytes = 40000, numClusterElements = 2,
     clusters = (\<lambda>c. if c = 0 then Some \<lparr>loaded = True, data = (\<lambda>k. (k mod 256) * 4194304)\<rparr>
                     else if c = 1 then Some \<lparr>loaded = False, data = (\<lambda>k. 0)\<rparr> else None),
     percCacheMemory = (\<lambda>r. None), percCacheClusters = (\<lambda>r. None), numPercCacheClusters = 0,
     percCacheZones = (\<lambda>r. [])\<rparr>"

text \<open>The same file with its forward storage allocated and a new zone at 16355.\<close>

definition rampStarted :: Sample where
  "rampStarted = rampSample\<lparr>percCacheMemory := (\<lambda>r. None)(False := Some Map.empty),
     percCacheZones := (\<lambda>r. [])(False := [\<lparr>startPos = 16355, endPos = 16355,
          samplesAtStartWhichShouldBeReplaced = 0, lastSampleRead = 0, lastAngle = 0,
          angleLPFMem = [0, 0]\<rparr>])\<rparr>"

text \<open>And after the seven samples from 16355 to 16361 have been read.\<close>

definition rampStopped :: Sample where
  "rampStopped = rampSample\<lparr>percCacheMemory := (\<lambda>r. None)(False := Some Map.empty),
     percCacheZones := (\<lambda>r. [])(False := [\<lparr>startPos = 16355, endPos = 16362,
          samplesAtStartWhichShouldBeReplaced = 0, lastSampleRead = 264241152, lastAngle = 6806,
          angleLPFMem = [510241, 6806]\<rparr>])\<rparr>"

definition insertFails :: FillEnv where
  "insertFails = \<lparr>env_allocStorageOk = True, env_insertOk = False, env_allocClusterOk = (\<lambda>c. True)\<rparr>"

text \<open>
  The same file with one forward zone from 100 to 230, then with that zone extended by three
  samples, and with a second zone of three samples at 3230.
\<close>

definition earlyZone :: SamplePercCacheZone where
  "earlyZone = \<lparr>startPos = 100, endPos = 230, samplesAtStartWhichShouldBeReplaced = 2048,
     lastSampleRead = 0, lastAngle = 0, angleLPFMem = [0, 0]\<rparr>"

definition rampEarly :: Sample where
  "rampEarly = rampSample\<lparr>percCacheMemory := (\<lambda>r. None)(False := Some Map.empty),
     percCacheZones := (\<lambda>r. [])(False := [earlyZone])\<rparr>"

definition rampExtended :: Sample where
  "rampExtended = rampSample\<lparr>percCacheMemory := (\<lambda>r. None)(False := Some Map.empty),
     percCacheZones := (\<lambda>r. [])(False := [\<lparr>startPos = 100, endPos = 233,
          samplesAtStartWhichShouldBeReplaced = 2048, lastSampleRead = 262144000,
          lastAngle = 2964, angleLPFMem = [510025, 2964]\<rparr>])\<rparr>"

definition rampSecondZone :: Sample where
  "rampSecondZone = rampSample\<lparr>percCacheMemory := (\<lambda>r. None)(False := Some Map.empty),
     percCacheZones := (\<lambda>r. [])(False := [earlyZone, \<lparr>startPos = 3230, endPos = 3233,
          samplesAtStartWhichShouldBeReplaced = 2048, lastSampleRead = 111149056,
          lastAngle = 1242, angleLPFMem = [216264, 1242]\<rparr>])\<rparr>"

text \<open>
  Mono 16-bit files of a few samples in one cluster, the audio data at byte 44: the value
  read at a byte offset has the sample in its upper half. Every cluster can be loaded.
\<close>

definition pcm16 :: "int list \<Rightarrow> Cluster" where
  "pcm16 xs = \<lparr>loaded = True,
     data = (\<lambda>k. (if 42 \<le> k \<and> nat ((k - 42) div 2) < length xs
                      then xs ! nat ((k - 42) div 2) else 0) * 65536)\<rparr>"

definition monoFile :: "int list \<Rightarrow> PitchSample" where
  "monoFile xs = \<lparr>lengthInSamples = int (length xs), numChannels = 1, byteDepth = 2,
     audioDataStartPosBytes = 44, audioDataLengthBytes = 2 * int (length xs),
     numClusterElements = 1,
     clusters = (\<lambda>c. if c = 0 then Some (pcm16 xs) else None),
     percCacheMemory = (\<lambda>r. None), percCacheClusters = (\<lambda>r. None), numPercCacheClusters = 0,
     percCacheZones = (\<lambda>r. []),
     sampleRate = 44100, beginningOffsetForPitchDetection = 0,
     beginningOffsetForPitchDetectionFound = False\<rparr>"

definition allLoad :: "int \<Rightarrow> bool" where
  "allLoad = (\<lambda>c. True)"

definition edgeTone :: PitchSample where
  "edgeTone = monoFile [256, 2048, 0, 0]"

definition lateClick :: PitchSample where
  "lateClick = monoFile [0, 0, 0, 32767]"

definition loudTone :: PitchSample where
  "loudTone = monoFile [0, 4096, 0, 0]"

definition softTone :: PitchSample where
  "softTone = monoFile [0, 256, 1024, 0]"

definition quietTone :: PitchSample where
  "quietTone = monoFile [0, 1, 0, 0]"

text \<open>The ramp file after its first two and its first four samples have been read.\<close>

definition rampTwo :: Sample where
  "rampTwo = rampSample\<lparr>percCacheMemory := (\<lambda>r. None)(False := Some Map.empty),
     percCacheZones := (\<lambda>r. [])(False := [\<lparr>startPos = 0, endPos = 2,
          samplesAtStartWhichShouldBeReplaced = 2048, lastSampleRead = 46137344,
          lastAngle = 343, angleLPFMem = [89944, 343]\<rparr>])\<rparr>"

definition rampFour :: Sample where
  "rampFour = rampSample\<lparr>percCacheMemory := (\<lambda>r. None)(False := Some Map.empty),
     percCacheZones := (\<lambda>r. [])(False := [\<lparr>startPos = 0, endPos = 4,
          samplesAtStartWhichShouldBeReplaced = 2048, lastSampleRead = 50331648,
          lastAngle = 714, angleLPFMem = [97776, 714]\<rparr>])\<rparr>"

section \<open>Properties of the render cache store\<close>

lemmas cache_example_defs =
  getOrCreateCache_def cacheSkipSamplesAtStart_def cacheKeyWords_def searchMultiWordExact_def
  lengthInBytesCached_def lengthInSamplesCached_def combinedIncrement_def insertAtKeyMultiWord_def
  getEndPos_def elementKeyWords_def exampleConfig_def shortStore_def shortStore1_def
  shortStore2_def longStore_def longStore1_def wholeSample_def otherCall_def cacheCall_def Let_def

lemma uint_lt32: "uint (p :: 32 word) < 4294967296"
  using unsigned_less [of p, where 'a = int] by simp

lemma uint_lt64: "uint (p :: 64 word) < 18446744073709551616"
  using unsigned_less [of p, where 'a = int] by simp

lemma uint_ucast_32_64: "uint (ucast (p :: 32 word) :: 64 word) = uint p"
  using uint_lt32 [of p] by (simp add: unsigned_ucast_eq take_bit_eq_mod)


lemma uint_combinedIncrement:
  "uint (combinedIncrement p t) = (uint p * uint t) div 2 ^ 24"
proof -
  have "uint p * uint t < 4294967296 * 4294967296"
    using uint_lt32 [of p] uint_lt32 [of t] by (intro mult_strict_mono) simp_all
  then have "uint ((ucast p :: 64 word) * ucast t) = uint p * uint t"
    by (simp add: uint_word_ariths uint_ucast_32_64)
  then show ?thesis
    by (simp add: combinedIncrement_def drop_bit_eq_div uint_div_distrib)
qed

lemma uint_length_minus_skip:
  assumes "0 \<le> sint (skip :: 32 word)" "sint skip \<le> uint (len :: 64 word)"
  shows "uint (len - scast skip) = uint len - sint skip"
proof -
  have "scast skip = (word_of_int (sint skip) :: 64 word)"
    by (rule scast_eq)
  then have "len - scast skip = word_of_int (uint len) - word_of_int (sint skip)"
    by (simp only: word_of_int_uint)
  also have "\<dots> = word_of_int (uint len - sint skip)"
    by (simp only: wi_hom_sub)
  finally have e: "len - scast skip = word_of_int (uint len - sint skip)" .
  have "uint (len - scast skip) = (uint len - sint skip) mod 2 ^ LENGTH(64)"
    unfolding e by (rule uint_word_of_int)
  then have "uint (len - scast skip) = (uint len - sint skip) mod 2 ^ 64"
    by simp
  moreover have "uint len - sint skip < 18446744073709551616"
    using uint_lt64 [of len] assms by linarith
  ultimately show ?thesis
    using assms by simp
qed

lemma uint_push_bit_24:
  assumes "uint (x :: 64 word) < 2 ^ 39"
  shows "uint (push_bit 24 x) = uint x * 2 ^ 24"
proof -
  have "uint x * 2 ^ 24 < 2 ^ 39 * 2 ^ 24"
    using assms by (intro mult_strict_right_mono) simp_all
  moreover have "0 \<le> uint x * 2 ^ 24" by simp
  ultimately show ?thesis
    by (simp add: push_bit_eq_mult uint_word_ariths)
qed

lemma uint_lengthInSamplesCached:
  assumes ci: "combinedIncrement phaseIncrement timeStretchRatio \<noteq> 0"
    and skip: "0 \<le> sint skipSamplesAtStart" "sint skipSamplesAtStart \<le> uint len"
    and lenb: "uint len - sint skipSamplesAtStart < 2 ^ 39"
    and k: "kInterpolationMaxNumSamples cfg < 2 ^ 32"
  shows "uint (lengthInSamplesCached cfg len skipSamplesAtStart phaseIncrement
                 timeStretchRatio) =
         (uint len - sint skipSamplesAtStart) * 2 ^ 24
            div (uint phaseIncrement * uint timeStretchRatio div 2 ^ 24) + 1
          + (if phaseIncrement \<noteq> 16777216 then int (kInterpolationMaxNumSamples cfg div 2) else 0)
          + (if timeStretchRatio \<noteq> 16777216 then 16384 else 0)"
proof -
  define d where "d = uint len - sint skipSamplesAtStart"
  define c where "c = uint phaseIncrement * uint timeStretchRatio div 2 ^ 24"
  define x where "x = push_bit 24 (len - scast skipSamplesAtStart)
                        div combinedIncrement phaseIncrement timeStretchRatio"
  have c_pos: "0 < c"
    using ci uint_combinedIncrement [of phaseIncrement timeStretchRatio]
    by (simp add: c_def word_neq_0_conv word_less_def)
  have d1: "uint (len - scast skipSamplesAtStart) = d"
    unfolding d_def by (rule uint_length_minus_skip [OF skip])
  have d_nonneg: "0 \<le> d" using skip by (simp add: d_def)
  have d2: "uint (push_bit 24 (len - scast skipSamplesAtStart)) = d * 2 ^ 24"
    using uint_push_bit_24 [of "len - scast skipSamplesAtStart"] d1 lenb
    by (simp add: d_def)
  have x: "uint x = d * 2 ^ 24 div c"
    unfolding x_def by (simp only: uint_div_distrib d2 uint_combinedIncrement c_def)
  have "d * 2 ^ 24 div c \<le> d * 2 ^ 24"
    using c_pos d_nonneg zdiv_mono2 [of "d * 2 ^ 24" 1 c] by simp
  moreover have "d * 2 ^ 24 < 2 ^ 39 * 2 ^ 24"
    using lenb by (intro mult_strict_right_mono) (simp_all add: d_def)
  ultimately have xb: "uint x < 2 ^ 63" using x by simp
  have x0: "0 \<le> uint x" by simp
  have kb: "int (kInterpolationMaxNumSamples cfg div 2) < 2 ^ 32"
    using k by simp
  have k1: "uint (of_nat (kInterpolationMaxNumSamples cfg div 2) :: 64 word)
            = int (kInterpolationMaxNumSamples cfg div 2)"
    using kb by (simp add: unsigned_of_nat take_bit_eq_mod)
  show ?thesis
    unfolding lengthInSamplesCached_def Let_def x_def [symmetric] d_def [symmetric] c_def [symmetric]
    using xb x0 kb by (simp add: uint_word_ariths x k1)
qed

lemma searchFrom_none:
  "0 \<le> i \<Longrightarrow> List.find (\<lambda>e. elementKeyWords e = kw) es = None \<Longrightarrow> searchFrom i es kw = -1"
  by (induction es arbitrary: i) (auto split: if_splits)

lemma searchFrom_some:
  "0 \<le> i \<Longrightarrow> List.find (\<lambda>e. elementKeyWords e = kw) es = Some e \<Longrightarrow>
     i \<le> searchFrom i es kw \<and> es ! nat (searchFrom i es kw - i) = e"
proof (induction es arbitrary: i)
  case Nil
  then show ?case by simp
next
  case (Cons a es)
  show ?case
  proof (cases "elementKeyWords a = kw")
    case True
    with Cons.prems show ?thesis by simp
  next
    case False
    with Cons.prems have f: "List.find (\<lambda>e. elementKeyWords e = kw) es = Some e" by simp
    have "0 \<le> i + 1" using Cons.prems by simp
    from Cons.IH [OF this f]
    have ih: "i + 1 \<le> searchFrom (i + 1) es kw" "es ! nat (searchFrom (i + 1) es kw - (i + 1)) = e"
      by simp_all
    have "nat (searchFrom (i + 1) es kw - i) = Suc (nat (searchFrom (i + 1) es kw - (i + 1)))"
      using ih(1) by linarith
    with ih False show ?thesis by simp
  qed
qed

lemma searchMultiWordExact_miss:
  "lookupCache es kw = None \<Longrightarrow> searchMultiWordExact es kw = -1"
  by (simp add: lookupCache_def searchMultiWordExact_def searchFrom_none)

lemma searchMultiWordExact_hit:
  assumes "lookupCache es kw = Some p"
  shows "searchMultiWordExact es kw \<noteq> -1 \<and> sce_cache (es ! nat (searchMultiWordExact es kw)) = p"
proof -
  from assms obtain e where e: "List.find (\<lambda>e. elementKeyWords e = kw) es = Some e" "sce_cache e = p"
    by (auto simp: lookupCache_def)
  from searchFrom_some [OF _ e(1), of 0] e(2) show ?thesis
    by (auto simp: searchMultiWordExact_def)
qed

lemma find_insert_other:
  "\<not> P e \<Longrightarrow> List.find P (take n es @ [e] @ drop n es) = List.find P es"
proof (induction es arbitrary: n)
  case Nil
  then show ?case by simp
next
  case (Cons a es)
  then show ?case by (cases n) auto
qed

lemma find_insert_same:
  "P e \<Longrightarrow> List.find P es = None \<Longrightarrow> List.find P (take n es @ [e] @ drop n es) = Some e"
proof (induction es arbitrary: n)
  case Nil
  then show ?case by simp
next
  case (Cons a es)
  then show ?case by (cases n) (auto split: if_splits)
qed

lemma getOrCreateCache_hit:
  assumes "lookupCache (caches s) (cacheKeyWords s h p t r) = Some a"
  shows "getOrCreateCache cfg s h p t r mayCreate created allocOk insertOk = Inr (Some a, False, s)"
  using searchMultiWordExact_hit [OF assms] by (simp add: getOrCreateCache_def Let_def)

lemma getOrCreateCache_fields:
  assumes "getOrCreateCache cfg s h p t r mayCreate created allocOk insertOk = Inr (res, cr, s')"
  shows "cs_lengthInSamples s' = cs_lengthInSamples s \<and> cs_numChannels s' = cs_numChannels s"
  using assms by (auto simp: getOrCreateCache_def Let_def split: if_splits)


lemma getOrCreateCache_caches:
  assumes "getOrCreateCache cfg s h p t r mayCreate created allocOk insertOk = Inr (res, cr, s')"
  shows "caches s' = caches s \<and> cacheObjects s' = cacheObjects s \<and> (res = None \<or> \<not> cr) \<or>
         (\<exists>n e. caches s' = take n (caches s) @ [e] @ drop n (caches s)
             \<and> elementKeyWords e = cacheKeyWords s h p t r
             \<and> sce_skipSamplesAtStart e = cacheSkipSamplesAtStart s h r
             \<and> sce_phaseIncrement e = p \<and> sce_timeStretchRatio e = t
             \<and> sce_cache e = length (cacheObjects s)
             \<and> res = Some (length (cacheObjects s)) \<and> cr \<and> mayCreate \<and> allocOk \<and> insertOk
             \<and> searchMultiWordExact (caches s) (cacheKeyWords s h p t r) = -1
             \<and> combinedIncrement p t \<noteq> 0
             \<and> lengthInBytesCached cfg (cs_lengthInSamples s) (cs_numChannels s)
                   (cacheSkipSamplesAtStart s h r) p t < 33554432
             \<and> length (cacheObjects s') = Suc (length (cacheObjects s))
             \<and> sc_waveformLengthBytes (cacheObjects s' ! length (cacheObjects s)) =
                   lengthInBytesCached cfg (cs_lengthInSamples s) (cs_numChannels s)
                     (cacheSkipSamplesAtStart s h r) p t)"
proof (cases "cr \<and> res \<noteq> None")
  case False
  with assms show ?thesis
    by (auto simp: getOrCreateCache_def Let_def split: if_splits)
next
  case True
  let ?e = "\<lparr>sce_phaseIncrement = p, sce_timeStretchRatio = t,
        sce_skipSamplesAtStart = cacheSkipSamplesAtStart s h r,
        sce_reversed = (if r then 1 else 0), sce_cache = length (cacheObjects s)\<rparr>"
  let ?n = "nat (insertAtKeyMultiWord (caches s) (cacheKeyWords s h p t r) insertOk)"
  have key: "elementKeyWords ?e = cacheKeyWords s h p t r"
    by (simp add: elementKeyWords_def cacheKeyWords_def)
  have "caches s' = take ?n (caches s) @ [?e] @ drop ?n (caches s)
      \<and> res = Some (length (cacheObjects s)) \<and> cr \<and> mayCreate \<and> allocOk \<and> insertOk
      \<and> searchMultiWordExact (caches s) (cacheKeyWords s h p t r) = -1
      \<and> combinedIncrement p t \<noteq> 0
      \<and> lengthInBytesCached cfg (cs_lengthInSamples s) (cs_numChannels s)
                   (cacheSkipSamplesAtStart s h r) p t < 33554432
      \<and> length (cacheObjects s') = Suc (length (cacheObjects s))
      \<and> sc_waveformLengthBytes (cacheObjects s' ! length (cacheObjects s)) =
                   lengthInBytesCached cfg (cs_lengthInSamples s) (cs_numChannels s)
                     (cacheSkipSamplesAtStart s h r) p t"
    using assms True
    by (auto simp: getOrCreateCache_def Let_def insertAtKeyMultiWord_def not_le split: if_splits)
  with key show ?thesis by (intro disjI2 exI [of _ ?n] exI [of _ ?e]) simp
qed

lemma getOrCreateCache_keeps_lookup:
  assumes res: "getOrCreateCache cfg s h p t r mayCreate created allocOk insertOk = Inr (res, cr, s')"
    and look: "lookupCache (caches s) kw = Some a"
  shows "lookupCache (caches s') kw = Some a"
proof -
  from getOrCreateCache_caches [OF res]
  consider "caches s' = caches s"
    | n e where "caches s' = take n (caches s) @ [e] @ drop n (caches s)"
        "elementKeyWords e = cacheKeyWords s h p t r"
        "searchMultiWordExact (caches s) (cacheKeyWords s h p t r) = -1"
    by blast
  then show ?thesis
  proof cases
    case 1
    with look show ?thesis by simp
  next
    case 2
    have "kw \<noteq> cacheKeyWords s h p t r"
      using searchMultiWordExact_hit [of "caches s" kw a] look 2(3) by auto
    with 2(2) have "\<not> (elementKeyWords e = kw)" by simp
    from find_insert_other [of "\<lambda>e. elementKeyWords e = kw", OF this] look 2(1)
    show ?thesis by (simp add: lookupCache_def)
  qed
qed

lemma cacheCalls_keep_lookup:
  "cacheCalls cfg s cs = Inr s' \<Longrightarrow> lookupCache (caches s) kw = Some a \<Longrightarrow>
     lookupCache (caches s') kw = Some a"
proof (induction cs arbitrary: s)
  case Nil
  then show ?case by simp
next
  case (Cons c cs)
  from Cons.prems(1) obtain res cr s1 where
    c: "cacheCall cfg s c = Inr (res, cr, s1)" and rest: "cacheCalls cfg s1 cs = Inr s'"
    by (auto split: sum.splits)
  from c Cons.prems(2) have "lookupCache (caches s1) kw = Some a"
    unfolding cacheCall_def by (rule getOrCreateCache_keeps_lookup)
  from Cons.IH [OF rest this] show ?case .
qed

lemma getOrCreateCache_created_lookup:
  assumes "getOrCreateCache cfg s h p t r mayCreate created allocOk insertOk = Inr (Some a, True, s')"
  shows "lookupCache (caches s') (cacheKeyWords s h p t r) = Some a"
proof -
  from getOrCreateCache_caches [OF assms]
  obtain n e where e: "caches s' = take n (caches s) @ [e] @ drop n (caches s)"
        "elementKeyWords e = cacheKeyWords s h p t r" "sce_cache e = a"
        "searchMultiWordExact (caches s) (cacheKeyWords s h p t r) = -1"
    by auto
  have "List.find (\<lambda>e. elementKeyWords e = cacheKeyWords s h p t r) (caches s) = None"
  proof (rule ccontr)
    assume "List.find (\<lambda>e. elementKeyWords e = cacheKeyWords s h p t r) (caches s) \<noteq> None"
    then obtain z where "lookupCache (caches s) (cacheKeyWords s h p t r) = Some z"
      by (auto simp: lookupCache_def)
    from searchMultiWordExact_hit [OF this] e(4) show False by simp
  qed
  from find_insert_same [of "\<lambda>x. elementKeyWords x = cacheKeyWords s h p t r" e, OF e(2) this] e
  show ?thesis by (simp add: lookupCache_def)
qed

lemma getOrCreateCache_within_cap:
  assumes res: "getOrCreateCache cfg s h p t r mayCreate created allocOk insertOk = Inr (res, cr, s')"
    and inv: "cachesWithinCap cfg s"
  shows "cachesWithinCap cfg s'"
proof -
  note f = getOrCreateCache_fields [OF res]
  from getOrCreateCache_caches [OF res]
  consider "caches s' = caches s"
    | n e where "caches s' = take n (caches s) @ [e] @ drop n (caches s)"
        "sce_skipSamplesAtStart e = cacheSkipSamplesAtStart s h r"
        "sce_phaseIncrement e = p" "sce_timeStretchRatio e = t"
        "lengthInBytesCached cfg (cs_lengthInSamples s) (cs_numChannels s)
                   (cacheSkipSamplesAtStart s h r) p t < 33554432"
    by blast
  then show ?thesis
  proof cases
    case 1
    with inv f show ?thesis by (simp add: cachesWithinCap_def)
  next
    case 2
    have "set (take n (caches s)) \<subseteq> set (caches s)" "set (drop n (caches s)) \<subseteq> set (caches s)"
      by (simp_all add: set_take_subset set_drop_subset)
    with inv 2 f show ?thesis
      by (auto simp: cachesWithinCap_def list_all_iff)
  qed
qed

lemma cacheCalls_within_cap:
  "cacheCalls cfg s cs = Inr s' \<Longrightarrow> cachesWithinCap cfg s \<Longrightarrow> cachesWithinCap cfg s'"
proof (induction cs arbitrary: s)
  case Nil
  then show ?case by simp
next
  case (Cons c cs)
  from Cons.prems(1) obtain res cr s1 where
    c: "cacheCall cfg s c = Inr (res, cr, s1)" and rest: "cacheCalls cfg s1 cs = Inr s'"
    by (auto split: sum.splits)
  from c Cons.prems(2) have "cachesWithinCap cfg s1"
    unfolding cacheCall_def by (rule getOrCreateCache_within_cap)
  from Cons.IH [OF rest this] show ?case .
qed

lemma within_cap_miss:
  assumes inv: "cachesWithinCap cfg s"
    and big: "33554432 \<le> lengthInBytesCached cfg (cs_lengthInSamples s) (cs_numChannels s)
                 (cacheSkipSamplesAtStart s h r) p t"
  shows "lookupCache (caches s) (cacheKeyWords s h p t r) = None"
proof (rule ccontr)
  assume "lookupCache (caches s) (cacheKeyWords s h p t r) \<noteq> None"
  then obtain e where e: "List.find (\<lambda>e. elementKeyWords e = cacheKeyWords s h p t r) (caches s) = Some e"
    by (auto simp: lookupCache_def)
  then have "e \<in> set (caches s)" "elementKeyWords e = cacheKeyWords s h p t r"
    by (auto simp: find_Some_iff)
  then have "lengthInBytesCached cfg (cs_lengthInSamples s) (cs_numChannels s)
                 (cacheSkipSamplesAtStart s h r) p t < 33554432"
    using inv by (auto simp: cachesWithinCap_def list_all_iff elementKeyWords_def cacheKeyWords_def)
  with big show False by simp
qed

text \<open>
  C5. In every state reached from an empty store by \<^verbatim>\<open>getOrCreateCache\<close> calls, a call
  whose byte estimate is at least 32 MiB returns NULL, leaves \<^verbatim>\<open>created\<close> untouched and
  leaves the sample as it was: no allocator call is counted and the key index is unchanged.
\<close>

theorem getOrCreateCache_size_cap:
  assumes "caches s0 = []"
    and "cacheCalls cfg s0 cs = Inr s"
    and "combinedIncrement p t \<noteq> 0"
    and "33554432 \<le> lengthInBytesCached cfg (cs_lengthInSamples s) (cs_numChannels s)
                 (cacheSkipSamplesAtStart s h r) p t"
  shows "getOrCreateCache cfg s h p t r mayCreate created allocOk insertOk = Inr (None, created, s)"
proof -
  have "cachesWithinCap cfg s0" using assms(1) by (simp add: cachesWithinCap_def)
  from cacheCalls_within_cap [OF assms(2) this] have "cachesWithinCap cfg s" .
  from within_cap_miss [OF this assms(4)]
  have "searchMultiWordExact (caches s) (cacheKeyWords s h p t r) = -1"
    by (rule searchMultiWordExact_miss)
  with assms(3,4) show ?thesis
    by (simp add: getOrCreateCache_def Let_def)
qed


theorem getOrCreateCache_size_cap_witness:
  "caches longStore = []
   \<and> cacheCalls exampleConfig longStore [otherCall] = Inr longStore1
   \<and> combinedIncrement 16777216 16777216 \<noteq> 0
   \<and> 33554432 \<le> lengthInBytesCached exampleConfig (cs_lengthInSamples longStore1)
         (cs_numChannels longStore1) (cacheSkipSamplesAtStart longStore1 wholeSample False)
         16777216 16777216
   \<and> getOrCreateCache exampleConfig longStore1 wholeSample 16777216 16777216 False True False
         True True = Inr (None, False, longStore1)"
proof -
  have h1: "caches longStore = []" by (simp add: longStore_def)
  have h2: "cacheCalls exampleConfig longStore [otherCall] = Inr longStore1"
    by (simp add: cache_example_defs)
  have h3: "combinedIncrement 16777216 16777216 \<noteq> 0" by (simp add: combinedIncrement_def)
  have h4: "33554432 \<le> lengthInBytesCached exampleConfig (cs_lengthInSamples longStore1)
         (cs_numChannels longStore1) (cacheSkipSamplesAtStart longStore1 wholeSample False)
         16777216 16777216"
    by (simp add: cache_example_defs)
  from getOrCreateCache_size_cap [OF h1 h2 h3 h4] h1 h2 h3 h4 show ?thesis by simp
qed

text \<open>
  C2, as stated, fails on a first call that the size cap rejects: on a 20,000,000-sample
  stereo file the first call with \<^verbatim>\<open>mayCreate = true\<close> at unity pitch and speed returns
  NULL, does not set \<^verbatim>\<open>created\<close> and creates nothing.
\<close>

theorem getOrCreateCache_first_call_counterexample:
  "caches longStore = []
   \<and> getOrCreateCache exampleConfig longStore wholeSample 16777216 16777216 False True False
         True True = Inr (None, False, longStore)"
  by (simp add: cache_example_defs)

text \<open>
  C2, amended. Take a call that misses with \<^verbatim>\<open>mayCreate = true\<close>. With a nonzero
  combined increment it creates an entry and sets \<^verbatim>\<open>created\<close> when the byte estimate
  is below 32 MiB and the allocation and the insertion succeed; when the estimate is 32 MiB
  or more, or the allocation or the insertion fails, it returns NULL, leaves
  \<^verbatim>\<open>created\<close> as it was and leaves the key index and the cache objects as they were.
  With a combined increment of zero the division of line 207 has a zero divisor and the
  call has no result. After a call that created an entry, and after any further calls on
  the sample, every call whose parameters give the same four key words returns that entry
  with \<^verbatim>\<open>created = false\<close> and changes nothing. A call that misses with
  \<^verbatim>\<open>mayCreate = false\<close> returns NULL and changes nothing.
\<close>

theorem getOrCreateCache_same_key:
  "(searchMultiWordExact (caches s) (cacheKeyWords s h p t r) = -1
      \<and> combinedIncrement p t \<noteq> 0
      \<and> lengthInBytesCached cfg (cs_lengthInSamples s) (cs_numChannels s)
            (cacheSkipSamplesAtStart s h r) p t < 33554432
    \<longrightarrow> (\<exists>s1. getOrCreateCache cfg s h p t r True created True True
                 = Inr (Some (length (cacheObjects s)), True, s1)))
   \<and> (searchMultiWordExact (caches s) (cacheKeyWords s h p t r) = -1
      \<and> combinedIncrement p t \<noteq> 0
      \<and> (33554432 \<le> lengthInBytesCached cfg (cs_lengthInSamples s) (cs_numChannels s)
                        (cacheSkipSamplesAtStart s h r) p t
          \<or> \<not> allocOk \<or> \<not> insertOk)
    \<longrightarrow> (\<exists>s1. getOrCreateCache cfg s h p t r True created allocOk insertOk
                 = Inr (None, created, s1)
              \<and> caches s1 = caches s \<and> cacheObjects s1 = cacheObjects s))
   \<and> (searchMultiWordExact (caches s) (cacheKeyWords s h p t r) = -1
      \<and> combinedIncrement p t = 0
    \<longrightarrow> getOrCreateCache cfg s h p t r True created allocOk insertOk = Inl DivisionByZero)
   \<and> (getOrCreateCache cfg s h p t r True created allocOk insertOk = Inr (Some a, True, s1)
      \<and> cacheCalls cfg s1 cs = Inr s2
      \<and> cacheKeyWords s2 h' p' t' r' = cacheKeyWords s h p t r
    \<longrightarrow> getOrCreateCache cfg s2 h' p' t' r' mayCreate' created' allocOk' insertOk'
          = Inr (Some a, False, s2))
   \<and> (searchMultiWordExact (caches s) (cacheKeyWords s h p t r) = -1
    \<longrightarrow> getOrCreateCache cfg s h p t r False created allocOk insertOk = Inr (None, created, s))"
proof (intro conjI impI)
  assume "searchMultiWordExact (caches s) (cacheKeyWords s h p t r) = -1
      \<and> combinedIncrement p t \<noteq> 0
      \<and> lengthInBytesCached cfg (cs_lengthInSamples s) (cs_numChannels s)
            (cacheSkipSamplesAtStart s h r) p t < 33554432"
  then show "\<exists>s1. getOrCreateCache cfg s h p t r True created True True
                 = Inr (Some (length (cacheObjects s)), True, s1)"
    by (simp add: getOrCreateCache_def Let_def insertAtKeyMultiWord_def not_le [symmetric])
next
  assume a: "searchMultiWordExact (caches s) (cacheKeyWords s h p t r) = -1
      \<and> combinedIncrement p t \<noteq> 0
      \<and> (33554432 \<le> lengthInBytesCached cfg (cs_lengthInSamples s) (cs_numChannels s)
                        (cacheSkipSamplesAtStart s h r) p t
          \<or> \<not> allocOk \<or> \<not> insertOk)"
  show "\<exists>s1. getOrCreateCache cfg s h p t r True created allocOk insertOk
                 = Inr (None, created, s1)
              \<and> caches s1 = caches s \<and> cacheObjects s1 = cacheObjects s"
  proof (cases "33554432 \<le> lengthInBytesCached cfg (cs_lengthInSamples s) (cs_numChannels s)
                        (cacheSkipSamplesAtStart s h r) p t")
    case True
    with a show ?thesis by (simp add: getOrCreateCache_def Let_def)
  next
    case below: False
    show ?thesis
    proof (cases allocOk)
      case False
      with a below show ?thesis by (simp add: getOrCreateCache_def Let_def)
    next
      case True
      with a below have "\<not> insertOk" by simp
      with a below True show ?thesis
        by (simp add: getOrCreateCache_def Let_def insertAtKeyMultiWord_def)
    qed
  qed
next
  assume "searchMultiWordExact (caches s) (cacheKeyWords s h p t r) = -1
      \<and> combinedIncrement p t = 0"
  then show "getOrCreateCache cfg s h p t r True created allocOk insertOk = Inl DivisionByZero"
    by (simp add: getOrCreateCache_def Let_def)
next
  assume a: "getOrCreateCache cfg s h p t r True created allocOk insertOk = Inr (Some a, True, s1)
      \<and> cacheCalls cfg s1 cs = Inr s2
      \<and> cacheKeyWords s2 h' p' t' r' = cacheKeyWords s h p t r"
  then have "lookupCache (caches s1) (cacheKeyWords s h p t r) = Some a"
    using getOrCreateCache_created_lookup [of cfg s h p t r True created allocOk insertOk a s1]
    by simp
  with a have "lookupCache (caches s2) (cacheKeyWords s h p t r) = Some a"
    using cacheCalls_keep_lookup [of cfg s1 cs s2] by simp
  with a have "lookupCache (caches s2) (cacheKeyWords s2 h' p' t' r') = Some a" by simp
  then show "getOrCreateCache cfg s2 h' p' t' r' mayCreate' created' allocOk' insertOk'
          = Inr (Some a, False, s2)"
    by (rule getOrCreateCache_hit)
next
  assume "searchMultiWordExact (caches s) (cacheKeyWords s h p t r) = -1"
  then show "getOrCreateCache cfg s h p t r False created allocOk insertOk = Inr (None, created, s)"
    by (simp add: getOrCreateCache_def Let_def)
qed


theorem getOrCreateCache_same_key_witness:
  "searchMultiWordExact (caches shortStore)
       (cacheKeyWords shortStore wholeSample 25165824 16777216 False) = -1
   \<and> combinedIncrement 25165824 16777216 \<noteq> 0
   \<and> lengthInBytesCached exampleConfig (cs_lengthInSamples shortStore)
         (cs_numChannels shortStore) (cacheSkipSamplesAtStart shortStore wholeSample False)
         25165824 16777216 < 33554432
   \<and> getOrCreateCache exampleConfig shortStore wholeSample 25165824 16777216 False True False
         True True = Inr (Some 0, True, shortStore1)
   \<and> (\<exists>s1. getOrCreateCache exampleConfig shortStore wholeSample 25165824 16777216 False True
         False True False = Inr (None, False, s1)
           \<and> caches s1 = caches shortStore \<and> cacheObjects s1 = cacheObjects shortStore)
   \<and> searchMultiWordExact (caches shortStore) (cacheKeyWords shortStore wholeSample 1 1 False) = -1
   \<and> combinedIncrement 1 1 = 0
   \<and> getOrCreateCache exampleConfig shortStore wholeSample 1 1 False True False True True
       = Inl DivisionByZero
   \<and> cacheCalls exampleConfig shortStore1 [otherCall] = Inr shortStore2
   \<and> cacheKeyWords shortStore2 wholeSample 25165824 16777216 False
       = cacheKeyWords shortStore wholeSample 25165824 16777216 False
   \<and> getOrCreateCache exampleConfig shortStore2 wholeSample 25165824 16777216 False True True
         False False = Inr (Some 0, False, shortStore2)
   \<and> getOrCreateCache exampleConfig shortStore wholeSample 25165824 16777216 False False True
         True True = Inr (None, True, shortStore)"
proof -
  have h1: "searchMultiWordExact (caches shortStore)
       (cacheKeyWords shortStore wholeSample 25165824 16777216 False) = -1"
    by (simp add: cache_example_defs)
  have h2: "combinedIncrement 25165824 16777216 \<noteq> 0" by (simp add: combinedIncrement_def)
  have h3: "lengthInBytesCached exampleConfig (cs_lengthInSamples shortStore)
         (cs_numChannels shortStore) (cacheSkipSamplesAtStart shortStore wholeSample False)
         25165824 16777216 < 33554432"
    by (simp add: cache_example_defs)
  have h4: "getOrCreateCache exampleConfig shortStore wholeSample 25165824 16777216 False True
         False True True = Inr (Some 0, True, shortStore1)"
    by (simp add: cache_example_defs)
  have h5: "cacheCalls exampleConfig shortStore1 [otherCall] = Inr shortStore2"
    by (simp add: cache_example_defs)
  have h6: "cacheKeyWords shortStore2 wholeSample 25165824 16777216 False
       = cacheKeyWords shortStore wholeSample 25165824 16777216 False"
    by (simp add: cache_example_defs)
  have h7: "searchMultiWordExact (caches shortStore)
       (cacheKeyWords shortStore wholeSample 1 1 False) = -1"
    by (simp add: cache_example_defs)
  have h8: "combinedIncrement 1 1 = 0" by (simp add: combinedIncrement_def)
  note later = getOrCreateCache_same_key [where s = shortStore and h = wholeSample
      and p = 25165824 and t = 16777216 and r = False and cfg = exampleConfig
      and created = False and allocOk = True and insertOk = True and a = 0
      and ?s1.0 = shortStore1 and cs = "[otherCall]" and ?s2.0 = shortStore2
      and h' = wholeSample and p' = 25165824 and t' = 16777216 and r' = False
      and mayCreate' = True and created' = True and allocOk' = False and insertOk' = False]
  from later h4 h5 h6 have c2: "getOrCreateCache exampleConfig shortStore2 wholeSample 25165824
      16777216 False True True False False = Inr (Some 0, False, shortStore2)"
    by blast
  note lookup = getOrCreateCache_same_key [where s = shortStore and h = wholeSample
      and p = 25165824 and t = 16777216 and r = False and cfg = exampleConfig
      and created = True and allocOk = True and insertOk = True]
  from lookup h1 have c3: "getOrCreateCache exampleConfig shortStore wholeSample 25165824 16777216
      False False True True True = Inr (None, True, shortStore)"
    by blast
  note failing = getOrCreateCache_same_key [where s = shortStore and h = wholeSample
      and p = 25165824 and t = 16777216 and r = False and cfg = exampleConfig
      and created = False and allocOk = True and insertOk = False]
  from failing h1 h2 have c4: "\<exists>s1. getOrCreateCache exampleConfig shortStore wholeSample 25165824
      16777216 False True False True False = Inr (None, False, s1)
        \<and> caches s1 = caches shortStore \<and> cacheObjects s1 = cacheObjects shortStore"
    by blast
  note zero = getOrCreateCache_same_key [where s = shortStore and h = wholeSample
      and p = 1 and t = 1 and r = False and cfg = exampleConfig
      and created = False and allocOk = True and insertOk = True]
  from zero h7 h8 have c5: "getOrCreateCache exampleConfig shortStore wholeSample 1 1 False
      True False True True = Inl DivisionByZero"
    by blast
  from h1 h2 h3 h4 c4 h7 h8 c5 h5 h6 c2 c3 show ?thesis by (intro conjI)
qed

text \<open>
  C7, as stated, fails where the quotient is not exact: for 1000 samples at a phase
  increment of one and a half the code stores 675 samples (666 + 1 + 8), the rounded-up
  quotient of the specification gives 676.
\<close>

theorem entry_size_counterexample:
  "uint (lengthInSamplesCached exampleConfig 1000 0 25165824 16777216) = 675
   \<and> cachedSampleCount_spec exampleConfig 1000 0 25165824 16777216 = 676"
  by (simp add: lengthInSamplesCached_def combinedIncrement_def cachedSampleCount_spec_def
      exampleConfig_def)

text \<open>
  C7, amended. When \<^verbatim>\<open>getOrCreateCache\<close> creates an entry, the combined increment is
  the 64-bit product of the two ratios shifted right by 24; the entry's byte length is the
  cached sample count times the cache byte depth times the channel count; and, for a skip
  between 0 and the length and fewer than \<open>2 ^ 39\<close> remaining samples, the cached sample
  count is the quotient of the remaining samples shifted left by 24 and the combined
  increment, rounded down, plus 1, plus half the interpolation window if the phase increment
  is not unity, plus 16384 if the time stretch ratio is not unity.
\<close>

theorem getOrCreateCache_entry_size:
  assumes res: "getOrCreateCache cfg s h p t r mayCreate created allocOk insertOk = Inr (Some a, True, s')"
    and skip: "0 \<le> sint (cacheSkipSamplesAtStart s h r)"
       "sint (cacheSkipSamplesAtStart s h r) \<le> uint (cs_lengthInSamples s)"
    and len: "uint (cs_lengthInSamples s) - sint (cacheSkipSamplesAtStart s h r) < 2 ^ 39"
    and k: "kInterpolationMaxNumSamples cfg < 2 ^ 32"
  shows "uint (combinedIncrement p t) = uint p * uint t div 2 ^ 24
    \<and> sc_waveformLengthBytes (cacheObjects s' ! a) =
        lengthInSamplesCached cfg (cs_lengthInSamples s) (cacheSkipSamplesAtStart s h r) p t
          * of_nat (kCacheByteDepth cfg) * ucast (cs_numChannels s)
    \<and> uint (lengthInSamplesCached cfg (cs_lengthInSamples s) (cacheSkipSamplesAtStart s h r) p t) =
        (uint (cs_lengthInSamples s) - sint (cacheSkipSamplesAtStart s h r)) * 2 ^ 24
            div (uint p * uint t div 2 ^ 24) + 1
          + (if p \<noteq> 16777216 then int (kInterpolationMaxNumSamples cfg div 2) else 0)
          + (if t \<noteq> 16777216 then 16384 else 0)"
proof -
  from getOrCreateCache_caches [OF res]
  have ci: "combinedIncrement p t \<noteq> 0"
    and w: "sc_waveformLengthBytes (cacheObjects s' ! a) =
                   lengthInBytesCached cfg (cs_lengthInSamples s) (cs_numChannels s)
                     (cacheSkipSamplesAtStart s h r) p t"
    by auto
  from uint_lengthInSamplesCached [OF ci skip len k] w uint_combinedIncrement [of p t]
  show ?thesis by (simp add: lengthInBytesCached_def)
qed


theorem getOrCreateCache_entry_size_witness:
  "getOrCreateCache exampleConfig shortStore wholeSample 25165824 16777216 False True False
       True True = Inr (Some 0, True, shortStore1)
   \<and> 0 \<le> sint (cacheSkipSamplesAtStart shortStore wholeSample False)
   \<and> sint (cacheSkipSamplesAtStart shortStore wholeSample False)
       \<le> uint (cs_lengthInSamples shortStore)
   \<and> uint (cs_lengthInSamples shortStore)
       - sint (cacheSkipSamplesAtStart shortStore wholeSample False) < 2 ^ 39
   \<and> kInterpolationMaxNumSamples exampleConfig < 2 ^ 32
   \<and> sc_waveformLengthBytes (cacheObjects shortStore1 ! 0) = 4050
   \<and> uint (lengthInSamplesCached exampleConfig (cs_lengthInSamples shortStore)
         (cacheSkipSamplesAtStart shortStore wholeSample False) 25165824 16777216) = 675"
proof -
  have h1: "getOrCreateCache exampleConfig shortStore wholeSample 25165824 16777216 False True
       False True True = Inr (Some 0, True, shortStore1)"
    by (simp add: cache_example_defs)
  have h2: "0 \<le> sint (cacheSkipSamplesAtStart shortStore wholeSample False)"
    by (simp add: cache_example_defs)
  have h3: "sint (cacheSkipSamplesAtStart shortStore wholeSample False)
       \<le> uint (cs_lengthInSamples shortStore)"
    by (simp add: cache_example_defs)
  have h4: "uint (cs_lengthInSamples shortStore)
       - sint (cacheSkipSamplesAtStart shortStore wholeSample False) < 2 ^ 39"
    by (simp add: cache_example_defs)
  have h5: "kInterpolationMaxNumSamples exampleConfig < 2 ^ 32"
    by (simp add: exampleConfig_def)
  have v: "cs_lengthInSamples shortStore = 1000"
    "sint (cacheSkipSamplesAtStart shortStore wholeSample False) = 0"
    "kInterpolationMaxNumSamples exampleConfig = 16"
    by (simp_all add: cache_example_defs)
  from getOrCreateCache_entry_size [OF h1 h2 h3 h4 h5]
  have "uint (lengthInSamplesCached exampleConfig (cs_lengthInSamples shortStore)
         (cacheSkipSamplesAtStart shortStore wholeSample False) 25165824 16777216) = 675"
    by (simp add: v)
  moreover have "sc_waveformLengthBytes (cacheObjects shortStore1 ! 0) = 4050"
    by (simp add: shortStore1_def)
  ultimately show ?thesis using h1 h2 h3 h4 h5 by simp
qed

section \<open>Properties of the percussive envelope cache\<close>

lemmas perc_defs =
  fillPercCache_def doLoading_def getOut_def connectZones_def clampEndPos_def
  willHitNextElement_def endPosSamplesLimit_def allocatePercCacheStorage_def
  percCacheDoneWithClusters_def lengthInSamplesAfterReduction_def clusterSize_def
  kPercBufferReductionSize_def getFirstClusterIndexWithAudioData_def
  getFirstClusterIndexWithNoAudioData_def search_def LESS_def GREATER_OR_EQUAL_def
  insertAtIndex_def deleteAtIndex_def newSamplePercCacheZone_def bytesPerSample_def
  percClusterIndexOf_def samplesLeftThisDestCluster_def writeBackZone_def writeBackBuffer_def
  sampleStep_def thisSampleRead_def percussivenessByte_def to_int32_def
  numSamplesThisPercPixelSegment_def writePercussiveness_def outsideAudioData_def
  percClusterSlots_def touchPercCluster_def percCacheNowOf_def bytesLeftThisSourceCluster_def
  numSamplesThisCluster_def

lemmas perc_example_defs =
  exampleConfig_def allOk_def silentSample_def afterFirstFill_def afterSecondFill_def
  straddlingZone_def evictionSample_def rampSample_def rampStarted_def rampStopped_def
  insertFails_def earlyZone_def rampEarly_def rampExtended_def rampSecondZone_def
  rampTwo_def rampFour_def

subsection \<open>The zone array\<close>

lemma zoneInvariant_forward_nth:
  assumes "zoneInvariant False zones" "i < j" "j < length zones"
  shows "startPos (zones ! i) < endPos (zones ! i)" "endPos (zones ! i) \<le> startPos (zones ! j)"
  using assms
  by (auto simp: zoneInvariant_def zoneNonEmpty_def zoneBefore_def list_all_length
      sorted_wrt_iff_nth_less)

lemma zoneInvariant_forward_nonempty:
  "zoneInvariant False zones \<Longrightarrow> i < length zones \<Longrightarrow> startPos (zones ! i) < endPos (zones ! i)"
  by (auto simp: zoneInvariant_def zoneNonEmpty_def list_all_length)

lemma search_forward_straddle:
  assumes inv: "zoneInvariant False zones"
    and k: "k < length zones"
    and s: "startPos (zones ! k) < key" and e: "key \<le> endPos (zones ! k)"
  shows "search zones key LESS = int k"
proof -
  have "takeWhile (\<lambda>z. startPos z < key) zones = take (Suc k) zones"
  proof (rule takeWhile_eq_take_P_nth)
    fix j assume j: "j < Suc k" "j < length zones"
    show "startPos (zones ! j) < key"
    proof (cases "j = k")
      case True
      with s show ?thesis by simp
    next
      case False
      with j have "j < k" by simp
      from zoneInvariant_forward_nth [OF inv this k] s show ?thesis by linarith
    qed
  next
    assume n: "Suc k < length zones"
    have "k < Suc k" by simp
    from zoneInvariant_forward_nth(2) [OF inv this n] e
    show "\<not> startPos (zones ! Suc k) < key" by linarith
  qed
  with k show ?thesis by (simp add: search_def LESS_def min_def)
qed

lemma border_less: "push_bit n (c :: int) < push_bit n (c + 1)"
  by (simp add: push_bit_eq_mult algebra_simps)

lemma drop_at_update:
  assumes "k < length xs"
  shows "drop k (xs[k := y]) = y # drop (Suc k) xs"
  using assms
  by (metis Cons_nth_drop_Suc drop_update_cancel drop_update_swap length_list_update
        lessI nth_list_update_eq order_refl)

subsection \<open>Eviction\<close>

text \<open>
  C4, as stated, fails on which zone keeps the provisional prefix. A forward zone from 100
  to 9000000 with a prefix of 2048 loses the cluster that covers 4194304 to 8388608: the
  earlier zone, 100 to 4194304, keeps the 2048, and the later zone, 8388608 to 9000000,
  has its prefix set to 0.
\<close>

theorem percCacheClusterStolen_later_prefix_counterexample:
  "samplesAtStartWhichShouldBeReplaced (percCacheZones evictionSample False ! 0) = 2048
   \<and> percCacheZones (percCacheClusterStolen exampleConfig True evictionSample False 1) False =
       [\<lparr>startPos = 100, endPos = 4194304, samplesAtStartWhichShouldBeReplaced = 2048,
         lastSampleRead = 0, lastAngle = 0, angleLPFMem = [0, 0]\<rparr>,
        \<lparr>startPos = 8388608, endPos = 9000000, samplesAtStartWhichShouldBeReplaced = 0,
         lastSampleRead = 5, lastAngle = 7, angleLPFMem = [3, 4]\<rparr>]"
  by (simp add: percCacheClusterStolen_def perc_defs perc_example_defs Let_def eval_nat_numeral)

text \<open>
  C4, amended. In the forward direction with cluster storage, let the stolen cluster cover
  the positions from \<open>leftBorder\<close> to \<open>rightBorder\<close> (its index and the next, shifted left by
  the cluster and reduction magnitudes), let the zones satisfy the invariant and let a zone
  start before \<open>leftBorder\<close> and end after \<open>rightBorder\<close>. When the array insertion
  succeeds, the zone is replaced by an earlier zone from its start to \<open>leftBorder\<close>, which
  keeps the zone's \<^verbatim>\<open>samplesAtStartWhichShouldBeReplaced\<close> and has a cleared filter
  state, and a later zone from \<open>rightBorder\<close> to its end, which keeps the filter state and
  has \<^verbatim>\<open>samplesAtStartWhichShouldBeReplaced\<close> 0; the other zones are untouched and the
  storage slot of the stolen cluster is NULL.
\<close>

theorem percCacheClusterStolen_splits:
  assumes inv: "zoneInvariant False (percCacheZones s False)"
    and k: "k < length (percCacheZones s False)"
    and z: "z = percCacheZones s False ! k"
    and L: "leftBorder = push_bit (clusterSizeMagnitude cfg + kPercBufferReductionMagnitude cfg) clusterIndex"
    and R: "rightBorder = push_bit (clusterSizeMagnitude cfg + kPercBufferReductionMagnitude cfg) (clusterIndex + 1)"
    and before: "startPos z < leftBorder"
    and after: "rightBorder < endPos z"
    and slots: "percCacheClusters s False = Some slots"
  shows "percCacheClusterStolen cfg True s False clusterIndex =
     s\<lparr>percCacheClusters := (percCacheClusters s)(False := Some (slots(clusterIndex := None))),
       percCacheZones := (percCacheZones s)
         (False := take k (percCacheZones s False)
              @ [\<lparr>startPos = startPos z, endPos = leftBorder,
                  samplesAtStartWhichShouldBeReplaced = samplesAtStartWhichShouldBeReplaced z,
                  lastSampleRead = 0, lastAngle = 0,
                  angleLPFMem = replicate (kDifferenceLPFPoles cfg) 0\<rparr>,
                 z\<lparr>startPos := rightBorder, samplesAtStartWhichShouldBeReplaced := 0\<rparr>]
              @ drop (Suc k) (percCacheZones s False))\<rparr>"
proof -
  let ?zones = "percCacheZones s False"
  have LR: "leftBorder < rightBorder" unfolding L R by (rule border_less)
  have "search ?zones leftBorder LESS = int k"
    using before after LR z by (intro search_forward_straddle [OF inv k]) simp_all
  then have i: "search ?zones leftBorder LESS = int k" .
  note upd = drop_at_update [OF k]
  have e: "0 < endPos (?zones ! k) - leftBorder" "0 < endPos (?zones ! k) - rightBorder"
    using after LR z by simp_all
  have "percCacheClusterStolen cfg True s False clusterIndex =
      (s\<lparr>percCacheClusters := (percCacheClusters s)(False := Some (slots(clusterIndex := None)))\<rparr>)
       \<lparr>percCacheZones := (percCacheZones s)(False :=
          insertAtIndex (?zones[k := (?zones ! k)\<lparr>startPos := rightBorder,
               samplesAtStartWhichShouldBeReplaced := 0\<rparr>]) (int k)
            ((newSamplePercCacheZone cfg (startPos (?zones ! k)))
               \<lparr>samplesAtStartWhichShouldBeReplaced :=
                  samplesAtStartWhichShouldBeReplaced (?zones ! k), endPos := leftBorder\<rparr>))\<rparr>"
    unfolding percCacheClusterStolen_def Let_def L [symmetric] R [symmetric]
    using k e slots
    by (simp add: i del: fun_upd_apply)
  then show ?thesis
    by (simp add: insertAtIndex_def newSamplePercCacheZone_def upd z)
qed

theorem percCacheClusterStolen_splits_witness:
  "zoneInvariant False (percCacheZones evictionSample False)
   \<and> (0 :: nat) < length (percCacheZones evictionSample False)
   \<and> startPos straddlingZone < 4194304
   \<and> 8388608 < endPos straddlingZone
   \<and> percCacheZones (percCacheClusterStolen exampleConfig True evictionSample False 1) False =
       [\<lparr>startPos = 100, endPos = 4194304, samplesAtStartWhichShouldBeReplaced = 2048,
         lastSampleRead = 0, lastAngle = 0, angleLPFMem = [0, 0]\<rparr>,
        straddlingZone\<lparr>startPos := 8388608, samplesAtStartWhichShouldBeReplaced := 0\<rparr>]
   \<and> percCacheClusters (percCacheClusterStolen exampleConfig True evictionSample False 1) False
       = Some ((\<lambda>c. Some Map.empty)(1 := None))"
proof -
  have h1: "zoneInvariant False (percCacheZones evictionSample False)"
    by (simp add: zoneInvariant_def zoneNonEmpty_def perc_example_defs)
  have h2: "(0 :: nat) < length (percCacheZones evictionSample False)"
    by (simp add: perc_example_defs)
  have h3: "straddlingZone = percCacheZones evictionSample False ! 0"
    by (simp add: perc_example_defs)
  have h4: "(4194304 :: int) = push_bit (clusterSizeMagnitude exampleConfig
        + kPercBufferReductionMagnitude exampleConfig) 1"
    by (simp add: exampleConfig_def)
  have h5: "(8388608 :: int) = push_bit (clusterSizeMagnitude exampleConfig
        + kPercBufferReductionMagnitude exampleConfig) (1 + 1)"
    by (simp add: exampleConfig_def)
  have h6: "startPos straddlingZone < 4194304" by (simp add: straddlingZone_def)
  have h7: "8388608 < endPos straddlingZone" by (simp add: straddlingZone_def)
  have h8: "percCacheClusters evictionSample False = Some (\<lambda>c. Some Map.empty)"
    by (simp add: evictionSample_def)
  note t = percCacheClusterStolen_splits [OF h1 h2 h3 h4 h5 h6 h7 h8]
  have c1: "percCacheZones (percCacheClusterStolen exampleConfig True evictionSample False 1) False =
       [\<lparr>startPos = 100, endPos = 4194304, samplesAtStartWhichShouldBeReplaced = 2048,
         lastSampleRead = 0, lastAngle = 0, angleLPFMem = [0, 0]\<rparr>,
        straddlingZone\<lparr>startPos := 8388608, samplesAtStartWhichShouldBeReplaced := 0\<rparr>]"
    unfolding t by (simp add: perc_example_defs eval_nat_numeral)
  have c2: "percCacheClusters (percCacheClusterStolen exampleConfig True evictionSample False 1)
       False = Some ((\<lambda>c. Some Map.empty)(1 := None))"
    unfolding t by simp
  from h1 h2 h6 h7 c1 c2 show ?thesis by simp
qed

subsection \<open>What the loops change\<close>


lemma sampleStep_frame:
  "startPos (snd (sampleStep s cl p z)) = startPos z"
  "endPos (snd (sampleStep s cl p z)) = endPos z"
  "samplesAtStartWhichShouldBeReplaced (snd (sampleStep s cl p z)) = samplesAtStartWhichShouldBeReplaced z"
  by (simp_all add: sampleStep_def Let_def split: prod.splits)

lemma sampleLoop_frame:
  "startPos (snd (sampleLoop s cl inc m p z)) = startPos z
   \<and> endPos (snd (sampleLoop s cl inc m p z)) = endPos z
   \<and> samplesAtStartWhichShouldBeReplaced (snd (sampleLoop s cl inc m p z))
       = samplesAtStartWhichShouldBeReplaced z"
proof (induction m arbitrary: p z)
  case 0
  then show ?case by (simp add: sampleStep_frame)
next
  case (Suc m)
  obtain a z' where st: "sampleStep s cl p z = (a, z')" by (cases "sampleStep s cl p z")
  from sampleStep_frame [of s cl p z] st
  have f: "startPos z' = startPos z" "endPos z' = endPos z"
    "samplesAtStartWhichShouldBeReplaced z' = samplesAtStartWhichShouldBeReplaced z"
    by simp_all
  from Suc [of "p + inc" "z'\<lparr>lastAngle := a\<rparr>"] st f show ?case by simp
qed

lemma segmentLoop_frame:
  "segmentLoop cfg s cl r dir inc n cur start z buf = Inr (start', z', buf') \<Longrightarrow>
     start' = start + n * dir \<and> startPos z' = startPos z \<and> endPos z' = endPos z
     \<and> samplesAtStartWhichShouldBeReplaced z' = samplesAtStartWhichShouldBeReplaced z"
proof (induction cfg s cl r dir inc n cur start z buf rule: segmentLoop.induct)
  case (1 cfg s cluster reversed playDirection posIncrement n currentPos startPosSamples z percCacheNow)
  let ?m = "numSamplesThisPercPixelSegment cfg reversed n startPosSamples"
  let ?more = "(if posIncrement = 0 then 0 else nat (?m - 1))"
  obtain angle z1 where sl: "sampleLoop s cluster posIncrement ?more currentPos z = (angle, z1)"
    by (cases "sampleLoop s cluster posIncrement ?more currentPos z")
  from sampleLoop_frame [of s cluster posIncrement ?more currentPos z] sl
  have f: "startPos z1 = startPos z" "endPos z1 = endPos z"
    "samplesAtStartWhichShouldBeReplaced z1 = samplesAtStartWhichShouldBeReplaced z"
    by simp_all
  from "1.prems" have m: "\<not> ?m \<le> 0"
    by (subst (asm) segmentLoop.simps) (simp add: Let_def split: if_splits)
  from "1.prems" m sl obtain b where
    w: "writePercussiveness cfg reversed (startPosSamples + ?m * playDirection) angle (lastAngle z1)
          percCacheNow = Inr b"
    by (subst (asm) segmentLoop.simps) (auto simp: Let_def split: sum.splits)
  show ?case
  proof (cases "n - ?m \<noteq> 0")
    case True
    from "1.prems" m sl w True
    have rec: "segmentLoop cfg s cluster reversed playDirection posIncrement (n - ?m)
        (currentPos + ?m * posIncrement) (startPosSamples + ?m * playDirection)
        (z1\<lparr>lastAngle := angle\<rparr>) b = Inr (start', z', buf')"
      by (subst (asm) segmentLoop.simps) (simp add: Let_def)
    from "1.IH" [OF refl m refl sl [symmetric] refl refl w True rec] f
    show ?thesis by (simp add: algebra_simps)
  next
    case False
    from "1.prems" m sl w False
    have "start' = startPosSamples + ?m * playDirection" "z' = z1\<lparr>lastAngle := angle\<rparr>"
      by (subst (asm) segmentLoop.simps, simp add: Let_def)+
    with f False show ?thesis by simp
  qed
qed

lemma zonesStepped_same:
  "percCacheZones s1 = percCacheZones s \<Longrightarrow> zonesStepped s s1 r i 0"
  unfolding zonesStepped_def zoneAdvanced_def
  by (rule exI [of _ "percCacheZones s r ! nat i"]) simp

lemma zonesStepped_trans:
  assumes "zonesStepped s s1 r i d" "zonesStepped s1 s2 r i d'" "nat i < length (percCacheZones s r)"
  shows "zonesStepped s s2 r i (d + d')"
proof -
  from assms(1) obtain z1 where
    a: "percCacheZones s1 r = (percCacheZones s r)[nat i := z1]"
       "percCacheZones s1 (\<not> r) = percCacheZones s (\<not> r)"
       "zoneAdvanced (percCacheZones s r ! nat i) z1 d"
    unfolding zonesStepped_def by blast
  from assms(2) obtain z2 where
    b: "percCacheZones s2 r = (percCacheZones s1 r)[nat i := z2]"
       "percCacheZones s2 (\<not> r) = percCacheZones s1 (\<not> r)"
       "zoneAdvanced (percCacheZones s1 r ! nat i) z2 d'"
    unfolding zonesStepped_def by blast
  have "percCacheZones s2 r = (percCacheZones s r)[nat i := z2]" using a(1) b(1) by simp
  moreover have "percCacheZones s2 (\<not> r) = percCacheZones s (\<not> r)" using a(2) b(2) by simp
  moreover have "zoneAdvanced (percCacheZones s r ! nat i) z2 (d + d')"
    using a(1,3) b(3) assms(3) by (simp add: zoneAdvanced_def)
  ultimately show ?thesis unfolding zonesStepped_def by blast
qed

lemma sameExceptCache_refl: "sameExceptCache s s"
  by (simp add: sameExceptCache_def)

lemma sameExceptCache_trans: "sameExceptCache s s1 \<Longrightarrow> sameExceptCache s1 s2 \<Longrightarrow> sameExceptCache s s2"
  by (simp add: sameExceptCache_def)

lemma touchPercCluster_frame:
  "touchPercCluster cfg env s r start = Some s1 \<Longrightarrow>
     percCacheZones s1 = percCacheZones s \<and> sameExceptCache s s1
     \<and> percCacheMemory s1 = percCacheMemory s"
  by (auto simp: touchPercCluster_def sameExceptCache_def Let_def split: if_splits)

lemma touchPercCluster_None:
  "touchPercCluster cfg env s r start = None \<Longrightarrow> \<exists>c. \<not> env_allocClusterOk env c"
  by (auto simp: touchPercCluster_def Let_def split: if_splits)

lemma writeBack_frame:
  "percCacheZones (writeBackBuffer cfg (writeBackZone s1 r i z') r c b) r = (percCacheZones s1 r)[nat i := z']"
  "percCacheZones (writeBackBuffer cfg (writeBackZone s1 r i z') r c b) (\<not> r) = percCacheZones s1 (\<not> r)"
  "sameExceptCache s1 (writeBackBuffer cfg (writeBackZone s1 r i z') r c b)"
  by (auto simp: writeBackBuffer_def writeBackZone_def sameExceptCache_def)

lemma clusterLoop_run:
  assumes "\<not> outsideAudioData cfg s (drop_bit (clusterSizeMagnitude cfg) sb)"
    and "touchPercCluster cfg env s r start = Some s1"
    and "clusters s (drop_bit (clusterSizeMagnitude cfg) sb) = Some cl"
    and "loaded cl"
    and "numSamplesThisCluster cfg s r n start sb = Inr nn"
    and "0 < nn" "nn \<le> n"
    and "segmentLoop cfg s cl r dir (bytesPerSample s * dir) nn
           ((sb AND (clusterSize cfg - 1)) - 4 + int (byteDepth s)) start
           ((percCacheZones s1 r ! nat i)\<lparr>endPos := endPos (percCacheZones s1 r ! nat i) + nn * dir\<rparr>)
           (percCacheNowOf cfg s1 r start) = Inr (st1, z1, b1)"
  shows "clusterLoop cfg env r dir i n start sb s =
     (if n - nn \<noteq> 0
      then clusterLoop cfg env r dir i (n - nn) st1 (sb + nn * (bytesPerSample s * dir))
             (writeBackBuffer cfg (writeBackZone s1 r i z1) r (percClusterIndexOf cfg start) b1)
      else Inr (NO_ERROR, True,
             writeBackBuffer cfg (writeBackZone s1 r i z1) r (percClusterIndexOf cfg start) b1,
             st1, sb + nn * (bytesPerSample s * dir)))"
  using assms by (subst clusterLoop.simps) (simp add: Let_def)

lemma clusterLoop_frame:
  "clusterLoop cfg env r dir i n start sb s = Inr (e, fin, s', start', sb') \<Longrightarrow>
   nat i < length (percCacheZones s r) \<Longrightarrow>
     zonesStepped s s' r i (start' - start)
     \<and> sameExceptCache s s'
     \<and> (fin \<longrightarrow> start' = start + n * dir \<and> e = NO_ERROR)
     \<and> (e \<noteq> NO_ERROR \<longrightarrow> e = ERROR_INSUFFICIENT_RAM \<and> (\<exists>c. \<not> env_allocClusterOk env c))"
proof (induction cfg env r dir i n start sb s rule: clusterLoop.induct)
  case (1 cfg env reversed playDirection i numSamples startPosSamples sourceBytePos s)
  let ?ci = "drop_bit (clusterSizeMagnitude cfg) sourceBytePos"
  note prem = "1.prems"(1)
  note len = "1.prems"(2)
  show ?case
  proof (cases "outsideAudioData cfg s ?ci")
    case True
    with prem have r: "e = NO_ERROR" "fin = False" "s' = s" "start' = startPosSamples"
      by (subst (asm) clusterLoop.simps, simp add: Let_def)+
    from zonesStepped_same [of s s reversed i] sameExceptCache_refl [of s]
    show ?thesis unfolding r by simp
  next
    case inside: False
    show ?thesis
    proof (cases "touchPercCluster cfg env s reversed startPosSamples")
      case None
      with prem inside have r: "e = ERROR_INSUFFICIENT_RAM" "fin = False" "s' = s" "start' = startPosSamples"
        by (subst (asm) clusterLoop.simps, simp add: Let_def)+
      from zonesStepped_same [of s s reversed i] sameExceptCache_refl [of s]
        touchPercCluster_None [OF None]
      show ?thesis unfolding r by simp
    next
      case (Some s1)
      note t = touchPercCluster_frame [OF Some]
      have stay: ?thesis if r: "e = NO_ERROR" "fin = False" "s' = s1" "start' = startPosSamples"
        using zonesStepped_same [of s1 s reversed i] t unfolding r by simp
      show ?thesis
      proof (cases "clusters s ?ci")
        case None
        with prem inside Some have "e = NO_ERROR" "fin = False" "s' = s1" "start' = startPosSamples"
          by (subst (asm) clusterLoop.simps, simp add: Let_def)+
        then show ?thesis by (rule stay)
      next
        case cl: (Some cluster)
        show ?thesis
        proof (cases "loaded cluster")
          case False
          with prem inside Some cl have "e = NO_ERROR" "fin = False" "s' = s1" "start' = startPosSamples"
            by (subst (asm) clusterLoop.simps, simp add: Let_def)+
          then show ?thesis by (rule stay)
        next
          case ld: True
          from prem inside Some cl ld obtain nn where
            nn: "numSamplesThisCluster cfg s reversed numSamples startPosSamples sourceBytePos = Inr nn"
            by (subst (asm) clusterLoop.simps) (auto simp: Let_def split: sum.splits)
          from prem inside Some cl ld nn have rng: "\<not> (nn \<le> 0 \<or> numSamples < nn)"
            by (subst (asm) clusterLoop.simps) (auto simp: Let_def split: if_splits)
          let ?z = "(percCacheZones s1 reversed ! nat i)
                      \<lparr>endPos := endPos (percCacheZones s1 reversed ! nat i) + nn * playDirection\<rparr>"
          let ?inc = "bytesPerSample s * playDirection"
          let ?cur = "(sourceBytePos AND clusterSize cfg - 1) - 4 + int (byteDepth s)"
          from prem inside Some cl ld nn rng obtain st1 z1 b1 where
            sg: "segmentLoop cfg s cluster reversed playDirection ?inc nn ?cur startPosSamples ?z
                   (percCacheNowOf cfg s1 reversed startPosSamples) = Inr (st1, z1, b1)"
            by (subst (asm) clusterLoop.simps) (auto simp: Let_def split: sum.splits)
          let ?s2 = "writeBackBuffer cfg (writeBackZone s1 reversed i z1) reversed
                       (percClusterIndexOf cfg startPosSamples) b1"
          from rng have pos: "0 < nn" "nn \<le> numSamples" by simp_all
          note run = clusterLoop_run [where dir = playDirection and i = i, OF inside Some cl ld nn pos sg]
          note sf = segmentLoop_frame [OF sg]
          note wb = writeBack_frame [where cfg = cfg and ?s1.0 = s1 and r = reversed and i = i and z' = z1
              and c = "percClusterIndexOf cfg startPosSamples" and b = b1]
          have step1: "zonesStepped s ?s2 reversed i (st1 - startPosSamples)"
            unfolding zonesStepped_def
            using sf t wb(1,2) by (intro exI [of _ z1]) (simp add: zoneAdvanced_def)
          have same2: "sameExceptCache s ?s2"
            using t wb(3) sameExceptCache_trans by blast
          show ?thesis
          proof (cases "numSamples - nn \<noteq> 0")
            case False
            with prem run have r: "e = NO_ERROR" "fin = True" "s' = ?s2" "start' = st1" by simp_all
            from step1 same2 sf False show ?thesis unfolding r by simp
          next
            case True
            with prem run have rec: "clusterLoop cfg env reversed playDirection i (numSamples - nn) st1
                (sourceBytePos + nn * ?inc) ?s2 = Inr (e, fin, s', start', sb')" by simp
            have len2: "nat i < length (percCacheZones ?s2 reversed)" using len t wb(1) by simp
            have ld': "\<not> \<not> loaded cluster" using ld by simp
            from "1.IH" [OF refl inside Some cl ld' nn rng refl refl refl sg refl refl refl True rec len2]
            have ih: "zonesStepped ?s2 s' reversed i (start' - st1)"
                "sameExceptCache ?s2 s'"
                "fin \<longrightarrow> start' = st1 + (numSamples - nn) * playDirection \<and> e = NO_ERROR"
                "e \<noteq> NO_ERROR \<longrightarrow> e = ERROR_INSUFFICIENT_RAM \<and> (\<exists>c. \<not> env_allocClusterOk env c)"
              by simp_all
            from zonesStepped_trans [OF step1 ih(1) len]
            have a: "zonesStepped s s' reversed i (start' - startPosSamples)" by simp
            have c: "sameExceptCache s s'" using ih(2) same2 sameExceptCache_trans by blast
            have d: "fin \<longrightarrow> start' = startPosSamples + numSamples * playDirection \<and> e = NO_ERROR"
              using ih(3) sf by (simp add: algebra_simps)
            from a c d ih(4) show ?thesis by blast
          qed
        qed
      qed
    qed
  qed
qed

subsection \<open>Error codes and early stops\<close>




lemma allocatePercCacheStorage_frame:
  "allocatePercCacheStorage cfg env r s = (e, s1) \<Longrightarrow>
     percCacheZones s1 = percCacheZones s \<and> sameExceptCache s s1
     \<and> (e \<noteq> NO_ERROR \<longrightarrow> e = ERROR_INSUFFICIENT_RAM \<and> \<not> env_allocStorageOk env)"
  by (auto simp: allocatePercCacheStorage_def sameExceptCache_def Let_def split: if_splits)





subsection \<open>Starting near the end of a zone\<close>

lemma clusterLoop_progress:
  "clusterLoop cfg env r dir i n start sb s = Inr (e, fin, s', start', sb') \<Longrightarrow>
     \<exists>k. 0 \<le> k \<and> start' = start + k * dir
        \<and> (\<not> outsideAudioData cfg s (drop_bit (clusterSizeMagnitude cfg) sb)
           \<and> touchPercCluster cfg env s r start \<noteq> None
           \<and> (\<exists>cl. clusters s (drop_bit (clusterSizeMagnitude cfg) sb) = Some cl \<and> loaded cl)
           \<longrightarrow> 0 < k)"
proof (induction cfg env r dir i n start sb s rule: clusterLoop.induct)
  case (1 cfg env reversed playDirection i numSamples startPosSamples sourceBytePos s)
  let ?ci = "drop_bit (clusterSizeMagnitude cfg) sourceBytePos"
  note prem = "1.prems"(1)
  show ?case
  proof (cases "outsideAudioData cfg s ?ci")
    case True
    with prem have "start' = startPosSamples"
      by (subst (asm) clusterLoop.simps, simp add: Let_def)
    with True show ?thesis by (intro exI [of _ 0]) simp
  next
    case inside: False
    show ?thesis
    proof (cases "touchPercCluster cfg env s reversed startPosSamples")
      case None
      with prem inside have "start' = startPosSamples"
        by (subst (asm) clusterLoop.simps, simp add: Let_def)
      with None show ?thesis by (intro exI [of _ 0]) simp
    next
      case (Some s1)
      show ?thesis
      proof (cases "clusters s ?ci")
        case None
        with prem inside Some have "start' = startPosSamples"
          by (subst (asm) clusterLoop.simps, simp add: Let_def)
        with None show ?thesis by (intro exI [of _ 0]) simp
      next
        case cl: (Some cluster)
        show ?thesis
        proof (cases "loaded cluster")
          case False
          with prem inside Some cl have "start' = startPosSamples"
            by (subst (asm) clusterLoop.simps, simp add: Let_def)
          with False cl show ?thesis by (intro exI [of _ 0]) simp
        next
          case ld: True
          from prem inside Some cl ld obtain nn where
            nn: "numSamplesThisCluster cfg s reversed numSamples startPosSamples sourceBytePos = Inr nn"
            by (subst (asm) clusterLoop.simps) (auto simp: Let_def split: sum.splits)
          from prem inside Some cl ld nn have rng: "\<not> (nn \<le> 0 \<or> numSamples < nn)"
            by (subst (asm) clusterLoop.simps) (auto simp: Let_def split: if_splits)
          let ?z = "(percCacheZones s1 reversed ! nat i)
                      \<lparr>endPos := endPos (percCacheZones s1 reversed ! nat i) + nn * playDirection\<rparr>"
          let ?inc = "bytesPerSample s * playDirection"
          let ?cur = "(sourceBytePos AND clusterSize cfg - 1) - 4 + int (byteDepth s)"
          from prem inside Some cl ld nn rng obtain st1 z1 b1 where
            sg: "segmentLoop cfg s cluster reversed playDirection ?inc nn ?cur startPosSamples ?z
                   (percCacheNowOf cfg s1 reversed startPosSamples) = Inr (st1, z1, b1)"
            by (subst (asm) clusterLoop.simps) (auto simp: Let_def split: sum.splits)
          let ?s2 = "writeBackBuffer cfg (writeBackZone s1 reversed i z1) reversed
                       (percClusterIndexOf cfg startPosSamples) b1"
          from rng have pos: "0 < nn" "nn \<le> numSamples" by simp_all
          note run = clusterLoop_run [where dir = playDirection and i = i, OF inside Some cl ld nn pos sg]
          note sf = segmentLoop_frame [OF sg]
          show ?thesis
          proof (cases "numSamples - nn \<noteq> 0")
            case False
            with prem run have "start' = st1" by simp
            with sf pos show ?thesis by (intro exI [of _ nn]) simp
          next
            case True
            with prem run have rec: "clusterLoop cfg env reversed playDirection i (numSamples - nn) st1
                (sourceBytePos + nn * ?inc) ?s2 = Inr (e, fin, s', start', sb')" by simp
            have ld': "\<not> \<not> loaded cluster" using ld by simp
            from "1.IH" [OF refl inside Some cl ld' nn rng refl refl refl sg refl refl refl True rec]
            obtain k where k: "0 \<le> k" "start' = st1 + k * playDirection" by blast
            from k sf pos show ?thesis
              by (intro exI [of _ "nn + k"]) (simp add: algebra_simps)
          qed
        qed
      qed
    qed
  qed
qed

lemma search_last:
  "zones \<noteq> [] \<Longrightarrow> list_all (\<lambda>z. startPos z < key) zones \<Longrightarrow>
     search zones key LESS = int (length zones) - 1"
  by (simp add: search_def LESS_def list_all_iff takeWhile_eq_all_conv [THEN iffD2])

lemma search_first:
  "zones \<noteq> [] \<Longrightarrow> list_all (\<lambda>z. key \<le> startPos z) zones \<Longrightarrow>
     search zones key GREATER_OR_EQUAL = 0"
  by (cases zones) (simp_all add: search_def GREATER_OR_EQUAL_def)

lemma getOut_frame:
  "getOut r i p e s = (e', s') \<Longrightarrow>
     e' = e \<and> sameExceptCache s s' \<and> percCacheZones s' (\<not> r) = percCacheZones s (\<not> r)
     \<and> percCacheZones s' r =
         (if endPos (if nat i < length (percCacheZones s r) then percCacheZones s r ! nat i else p)
             = startPos (if nat i < length (percCacheZones s r) then percCacheZones s r ! nat i else p)
          then deleteAtIndex (percCacheZones s r) i 1 else percCacheZones s r)"
  by (auto simp: getOut_def Let_def sameExceptCache_def split: if_splits)

lemma deleteAtIndex_length: "length (deleteAtIndex zones i 1) \<le> length zones"
  by (simp add: deleteAtIndex_def)

lemma deleteAtIndex_update:
  "0 \<le> i \<Longrightarrow> deleteAtIndex (zones[nat i := z]) i 1 = deleteAtIndex zones i 1"
  by (simp add: deleteAtIndex_def nat_add_distrib)

lemma clampEndPos_beyond:
  assumes "dir = 1 \<or> dir = - 1" "0 < maxN" "0 < (endP - start) * dir"
    "if dir = 1 then start < lengthInSamples s else 0 \<le> start"
  shows "0 < (clampEndPos s (dir \<noteq> 1) dir maxN start endP - start) * dir"
  using assms by (auto simp: clampEndPos_def Let_def)

lemma firstSampleLoaded_cong:
  "sameExceptCache s s' \<Longrightarrow> firstSampleLoaded cfg s' p = firstSampleLoaded cfg s p"
  by (simp add: firstSampleLoaded_def sameExceptCache_def outsideAudioData_def bytesPerSample_def
      getFirstClusterIndexWithAudioData_def getFirstClusterIndexWithNoAudioData_def Let_def)

lemma doLoading_no_next:
  assumes res: "doLoading cfg env r dir maxN i start endP s = Inr (e, s')"
    and zs: "percCacheZones s r = zones"
    and len: "0 \<le> i" "nat i < length zones"
    and nonext: "\<not> (0 \<le> i + dir \<and> i + dir < int (length zones))"
  shows "\<exists>k z'. 0 \<le> k \<and> startPos z' = startPos (zones ! nat i)
       \<and> endPos z' = endPos (zones ! nat i) + k * dir
       \<and> percCacheZones s' r = (if endPos z' = startPos z' then deleteAtIndex zones i 1
                                  else zones[nat i := z'])
       \<and> (firstSampleLoaded cfg s start \<and> env_allocClusterOk env (percClusterIndexOf cfg start)
            \<and> 0 < (clampEndPos s r dir maxN start endP - start) * dir \<longrightarrow> 0 < k)"
proof -
  let ?E = "clampEndPos s r dir maxN start endP"
  let ?n = "(?E - start) * dir"
  from nonext zs have wh: "\<not> willHitNextElement (percCacheZones s r) (i + dir) dir ?E"
    by (auto simp: willHitNextElement_def)
  show ?thesis
  proof (cases "?n \<le> 0")
    case True
    with res wh zs have "getOut r i (zones ! nat i) NO_ERROR s = (e, s')"
      by (simp add: doLoading_def Let_def)
    from getOut_frame [OF this] zs len True show ?thesis
      by (intro exI [of _ 0] exI [of _ "zones ! nat i"]) simp
  next
    case False
    let ?sb = "audioDataStartPosBytes s + start * bytesPerSample s"
    from res False wh obtain e1 fin s1 st1 sb1 where
      cl: "clusterLoop cfg env r dir i ?n start ?sb s = Inr (e1, fin, s1, st1, sb1)"
      by (auto simp: doLoading_def Let_def split: sum.splits)
    from len(2) zs have len': "nat i < length (percCacheZones s r)" by simp
    from clusterLoop_frame [OF cl len'] zs obtain z1 where
      z1: "percCacheZones s1 r = zones[nat i := z1]" "zoneAdvanced (zones ! nat i) z1 (st1 - start)"
      by (auto simp: zonesStepped_def)
    from clusterLoop_progress [OF cl] obtain k where
      k: "0 \<le> k" "st1 = start + k * dir"
        "\<not> outsideAudioData cfg s (drop_bit (clusterSizeMagnitude cfg) ?sb)
           \<and> touchPercCluster cfg env s r start \<noteq> None
           \<and> (\<exists>cl. clusters s (drop_bit (clusterSizeMagnitude cfg) ?sb) = Some cl \<and> loaded cl)
           \<longrightarrow> 0 < k"
      by blast
    have kpos: "firstSampleLoaded cfg s start \<and> env_allocClusterOk env (percClusterIndexOf cfg start)
            \<and> 0 < ?n \<longrightarrow> 0 < k"
      using k(3) by (auto simp: firstSampleLoaded_def touchPercCluster_def Let_def split: option.splits)
    have adv: "startPos z1 = startPos (zones ! nat i)" "endPos z1 = endPos (zones ! nat i) + k * dir"
      using z1(2) k(2) by (simp_all add: zoneAdvanced_def)
    show ?thesis
    proof (cases fin)
      case False
      with res \<open>\<not> ?n \<le> 0\<close> cl wh
      have "getOut r i (percCacheZones s1 r ! nat i) e1 s1 = (e, s')"
        by (simp add: doLoading_def Let_def)
      from getOut_frame [OF this] z1(1) len
      have "percCacheZones s' r = (if endPos z1 = startPos z1 then deleteAtIndex zones i 1
                                   else zones[nat i := z1])"
        by (simp add: deleteAtIndex_update)
      with adv k(1) kpos show ?thesis
        by (intro exI [of _ k] exI [of _ z1]) simp
    next
      case True
      let ?z' = "z1\<lparr>samplesAtStartWhichShouldBeReplaced := max 2048 ((endPos z1 - startPos z1) * dir)\<rparr>"
      let ?s2 = "s1\<lparr>percCacheZones := (percCacheZones s1)(r := zones[nat i := ?z'])\<rparr>"
      from z1(1) len have cz: "connectZones (percCacheZones s1 r) i dir False 0 ?E = zones[nat i := ?z']"
        by (simp add: connectZones_def Let_def)
      from res \<open>\<not> ?n \<le> 0\<close> cl wh True z1(1) len cz
      have "getOut r i ?z' e1 ?s2 = (e, s')"
        by (simp add: doLoading_def Let_def)
      from getOut_frame [OF this] len
      have "percCacheZones s' r = (if endPos ?z' = startPos ?z' then deleteAtIndex zones i 1
                                   else zones[nat i := ?z'])"
        by (simp add: deleteAtIndex_update)
      with adv k(1) kpos show ?thesis
        by (intro exI [of _ k] exI [of _ ?z']) simp
    qed
  qed
qed

lemma inside_unsigned:
  "0 \<le> start \<Longrightarrow> start < len \<Longrightarrow> \<not> len \<le> start mod 2 ^ 64" for start len :: int
  using zmod_le_nonneg_dividend [of start "2 ^ 64"] by simp

lemma fillPercCache_found:
  assumes inside: "0 \<le> start" "playDirection = 1 \<longrightarrow> start < lengthInSamples s"
    and zs: "percCacheZones s (playDirection \<noteq> 1) = zones"
    and i: "i = (if playDirection = 1 then search zones (start + 1) LESS
                 else search zones start GREATER_OR_EQUAL)"
      "0 \<le> i" "i < int (length zones)"
    and slack: "- 2048 \<le> (endPos (zones ! nat i) - start) * playDirection"
  shows "fillPercCache cfg env s start endP playDirection maxN =
     (case allocatePercCacheStorage cfg env (playDirection \<noteq> 1) s of
        (ERROR_INSUFFICIENT_RAM, s1) \<Rightarrow> Inr (ERROR_INSUFFICIENT_RAM, s1)
      | (NO_ERROR, s1) \<Rightarrow>
          if (if playDirection = 1 then lengthInSamples s \<le> endPos (zones ! nat i) mod 2 ^ 64
              else endPos (zones ! nat i) < 0)
          then Inr (NO_ERROR, s1)
          else if 0 \<le> (endPos (zones ! nat i) - endP) * playDirection then Inr (NO_ERROR, s1)
          else doLoading cfg env (playDirection \<noteq> 1) playDirection maxN i
                 (endPos (zones ! nat i)) endP s1)"
proof -
  obtain e0 s1 where al: "allocatePercCacheStorage cfg env (playDirection \<noteq> 1) s = (e0, s1)"
    by (cases "allocatePercCacheStorage cfg env (playDirection \<noteq> 1) s")
  from allocatePercCacheStorage_frame [OF al] zs
  have f: "percCacheZones s1 (playDirection \<noteq> 1) = zones" "lengthInSamples s1 = lengthInSamples s"
    by (simp_all add: sameExceptCache_def)
  have u: "playDirection = 1 \<longrightarrow> \<not> lengthInSamples s \<le> start mod 2 ^ 64"
    using inside inside_unsigned [of start "lengthInSamples s"] by blast
  show ?thesis
  proof (cases e0)
    case ERROR_INSUFFICIENT_RAM
    with al inside u show ?thesis by (auto simp: fillPercCache_def Let_def)
  next
    case NO_ERROR
    show ?thesis
    proof (cases "playDirection = 1")
      case True
      with NO_ERROR al inside u f i slack show ?thesis
        by (simp add: fillPercCache_def Let_def)
    next
      case False
      with NO_ERROR al inside u f i slack show ?thesis
        by (simp add: fillPercCache_def Let_def)
    qed
  qed
qed

lemma fillPercCache_not_found:
  assumes inside: "0 \<le> start" "playDirection = 1 \<longrightarrow> start < lengthInSamples s"
    and zs: "percCacheZones s (playDirection \<noteq> 1) = zones"
    and i: "i = (if playDirection = 1 then search zones (start + 1) LESS
                 else search zones start GREATER_OR_EQUAL)"
      "0 \<le> i" "i < int (length zones)"
    and slack: "(endPos (zones ! nat i) - start) * playDirection < - 2048"
  shows "fillPercCache cfg env s start endP playDirection maxN =
     (case allocatePercCacheStorage cfg env (playDirection \<noteq> 1) s of
        (ERROR_INSUFFICIENT_RAM, s1) \<Rightarrow> Inr (ERROR_INSUFFICIENT_RAM, s1)
      | (NO_ERROR, s1) \<Rightarrow>
          if \<not> env_insertOk env then Inr (ERROR_INSUFFICIENT_RAM, s1)
          else doLoading cfg env (playDirection \<noteq> 1) playDirection maxN
                 (if playDirection = 1 then i + 1 else i) start endP
                 (s1\<lparr>percCacheZones := (percCacheZones s1)
                       ((playDirection \<noteq> 1) := insertAtIndex zones (if playDirection = 1 then i + 1 else i)
                            (newSamplePercCacheZone cfg start))\<rparr>))"
proof -
  obtain e0 s1 where al: "allocatePercCacheStorage cfg env (playDirection \<noteq> 1) s = (e0, s1)"
    by (cases "allocatePercCacheStorage cfg env (playDirection \<noteq> 1) s")
  from allocatePercCacheStorage_frame [OF al] zs
  have f: "percCacheZones s1 (playDirection \<noteq> 1) = zones" "lengthInSamples s1 = lengthInSamples s"
    by (simp_all add: sameExceptCache_def)
  have u: "playDirection = 1 \<longrightarrow> \<not> lengthInSamples s \<le> start mod 2 ^ 64"
    using inside inside_unsigned [of start "lengthInSamples s"] by blast
  show ?thesis
  proof (cases e0)
    case ERROR_INSUFFICIENT_RAM
    with al inside u show ?thesis by (auto simp: fillPercCache_def Let_def)
  next
    case NO_ERROR
    show ?thesis
    proof (cases "playDirection = 1")
      case True
      with NO_ERROR al inside u f i slack show ?thesis
        by (simp add: fillPercCache_def Let_def)
    next
      case False
      with NO_ERROR al inside u f i slack show ?thesis
        by (simp add: fillPercCache_def Let_def)
    qed
  qed
qed

lemma clampEndPos_cong:
  "lengthInSamples s' = lengthInSamples s \<Longrightarrow>
     clampEndPos s' r dir maxN start endP = clampEndPos s r dir maxN start endP"
  by (simp add: clampEndPos_def)

lemma nearest_zone_found:
  assumes dir: "playDirection = 1 \<or> playDirection = - 1"
    and ne: "zones \<noteq> []"
    and before: "list_all (\<lambda>z. 0 \<le> (P - startPos z) * playDirection) zones"
    and d: "0 \<le> d"
  shows "(if playDirection = 1 then search zones (P + d * playDirection + 1) LESS
          else search zones (P + d * playDirection) GREATER_OR_EQUAL)
         = (if playDirection = 1 then int (length zones) - 1 else 0)"
proof (cases "playDirection = 1")
  case True
  with before d have "list_all (\<lambda>z. startPos z < P + d * playDirection + 1) zones"
    by (auto simp: list_all_iff)
  from search_last [OF ne this] True show ?thesis by simp
next
  case False
  with dir have m: "playDirection = - 1" by simp
  with before d have "list_all (\<lambda>z. P + d * playDirection \<le> startPos z) zones"
    by (auto simp: list_all_iff)
  from search_first [OF ne this] False show ?thesis by simp
qed

text \<open>
  For a call whose values fit, the byte position of line 511 is the same number in 32 bits,
  for every position of the file and of the slack beyond it, and so the tests of lines 519
  and 567 on the 32-bit position are the tests on the integer.
\<close>

lemma sourceBytePos_fits:
  assumes "callFitsInt32 cfg s e maxN" "0 \<le> p" "p \<le> lengthInSamples s + 2048"
  shows "to_int32 (audioDataStartPosBytes s + p * bytesPerSample s)
           = audioDataStartPosBytes s + p * bytesPerSample s"
proof -
  have b: "0 \<le> bytesPerSample s" by (simp add: bytesPerSample_def)
  from assms(3) b have "p * bytesPerSample s \<le> (lengthInSamples s + 2048) * bytesPerSample s"
    by (rule mult_right_mono)
  moreover from assms(2) b have "0 \<le> p * bytesPerSample s" by simp
  moreover from assms(1) have "0 \<le> audioDataStartPosBytes s"
    "audioDataStartPosBytes s < 2 ^ 30"
    "(lengthInSamples s + 2048) * bytesPerSample s < 2 ^ 30"
    by (simp_all only: callFitsInt32_def)
  ultimately have "0 \<le> audioDataStartPosBytes s + p * bytesPerSample s"
    "audioDataStartPosBytes s + p * bytesPerSample s < 2 ^ 31"
    by simp_all
  then show ?thesis by (simp add: to_int32_def)
qed

lemma firstSampleLoaded32_fits:
  assumes "callFitsInt32 cfg s e maxN" "0 \<le> p" "p \<le> lengthInSamples s + 2048"
  shows "firstSampleLoaded32 cfg s p = firstSampleLoaded cfg s p"
  by (simp only: firstSampleLoaded32_def firstSampleLoaded_def sourceBytePos_fits [OF assms] Let_def)

text \<open>
  A call that starts 3000 samples beyond the end of the only zone, in a source cluster that
  is not loaded: the zone inserted at the start position is still empty when the loop
  stops, the exit path removes it, and the call returns \<^verbatim>\<open>NO_ERROR\<close> with the one zone
  it found.
\<close>

theorem fillPercCache_unloaded_start_counterexample:
  "fillPercCache exampleConfig allOk rampStopped 19362 19500 1 1000 = Inr (NO_ERROR, rampStopped)
   \<and> length (percCacheZones rampStopped False) = 1
   \<and> endPos (percCacheZones rampStopped False ! 0) = 16362
   \<and> 19362 = 16362 + (3000 :: int)
   \<and> 19362 < lengthInSamples rampStopped"
  by (simp add: perc_defs clusterLoop.simps segmentLoop.simps perc_example_defs Let_def
      eval_nat_numeral)

text \<open>
  C6, as the code has it, for either direction. The zones of the direction all start at or
  before \<open>P\<close> (in play direction) and the nearest of them is not empty and ends at \<open>P\<close>,
  which is not negative; the call starts \<open>d\<close> samples beyond \<open>P\<close>, inside the file.

  With \<open>d\<close> up to 2048 the call is the call that starts at \<open>P\<close>: no zone is added, the zone
  found keeps its start and its end moves on by the \<open>k\<close> samples read. \<open>k\<close> is positive
  once the source cluster that the 32-bit byte position of \<open>P\<close> lies in is inside the audio
  data and loaded, the allocations succeed, the range is not empty and the values of the
  call fit the 32-bit variables of the source.

  With \<open>d\<close> above 2048 a new zone starting at the start position follows the zones (precedes
  them when reversed) if \<open>k\<close> samples were read, \<open>k\<close> positive under the same conditions and a
  successful insertion; when nothing was read the zones are returned as they were.

  The conditions on the 32-bit values are needed: \<^verbatim>\<open>sourceBytePos\<close> is an
  \<^verbatim>\<open>int32_t\<close>, so in a file whose audio data reaches past byte \<open>2\<^sup>3\<^sup>1\<close> the byte
  position of a late start wraps to a negative number, the test of line 519 leaves the
  loop, nothing is read and the zone just inserted is removed again.
\<close>

theorem fillPercCache_slack_merge:
  assumes dir: "playDirection = 1 \<or> playDirection = - 1"
    and zs: "percCacheZones s (playDirection \<noteq> 1) = zones" "zones \<noteq> []"
    and before: "list_all (\<lambda>z. 0 \<le> (P - startPos z) * playDirection) zones"
    and theZone: "endPos (zones ! (if playDirection = 1 then length zones - 1 else 0)) = P"
      "startPos (zones ! (if playDirection = 1 then length zones - 1 else 0)) \<noteq> P"
    and d: "0 \<le> d"
    and nonneg: "0 \<le> P"
    and inside: "0 \<le> P + d * playDirection" "P + d * playDirection < lengthInSamples s"
  shows "(d \<le> 2048 \<longrightarrow>
            fillPercCache cfg env s (P + d * playDirection) endP playDirection maxN
              = fillPercCache cfg env s P endP playDirection maxN)
       \<and> (d \<le> 2048
            \<and> fillPercCache cfg env s (P + d * playDirection) endP playDirection maxN = Inr (e, s')
          \<longrightarrow> (\<exists>k z'. 0 \<le> k
                \<and> startPos z' = startPos (zones ! (if playDirection = 1 then length zones - 1 else 0))
                \<and> endPos z' = P + k * playDirection
                \<and> percCacheZones s' (playDirection \<noteq> 1)
                    = zones[(if playDirection = 1 then length zones - 1 else 0) := z']
                \<and> (env_allocStorageOk env \<and> env_allocClusterOk env (percClusterIndexOf cfg P)
                     \<and> firstSampleLoaded32 cfg s P
                     \<and> callFitsInt32 cfg s endP maxN
                     \<and> 0 < maxN \<and> 0 < (endP - P) * playDirection
                   \<longrightarrow> 0 < k)))
       \<and> (2048 < d
            \<and> fillPercCache cfg env s (P + d * playDirection) endP playDirection maxN = Inr (e, s')
          \<longrightarrow> (\<exists>k z'. 0 \<le> k
                \<and> startPos z' = P + d * playDirection
                \<and> endPos z' = P + d * playDirection + k * playDirection
                \<and> percCacheZones s' (playDirection \<noteq> 1)
                    = (if k = 0 then zones else if playDirection = 1 then zones @ [z'] else z' # zones)
                \<and> (env_allocStorageOk env \<and> env_insertOk env
                     \<and> env_allocClusterOk env (percClusterIndexOf cfg (P + d * playDirection))
                     \<and> firstSampleLoaded32 cfg s (P + d * playDirection)
                     \<and> callFitsInt32 cfg s endP maxN
                     \<and> 0 < maxN \<and> 0 < (endP - (P + d * playDirection)) * playDirection
                   \<longrightarrow> 0 < k)))"
proof -
  let ?r = "playDirection \<noteq> 1"
  let ?idx = "(if playDirection = 1 then int (length zones) - 1 else 0)"
  let ?n = "(if playDirection = 1 then length zones - 1 else 0)"
  let ?start = "P + d * playDirection"
  have n: "nat ?idx = ?n" by (simp add: nat_diff_distrib')
  have idx: "0 \<le> ?idx" "?idx < int (length zones)" "nat ?idx < length zones"
    using zs(2) by (cases zones; simp)+
  have nonext: "\<not> (0 \<le> ?idx + playDirection \<and> ?idx + playDirection < int (length zones))"
    using dir by auto
  have sq: "playDirection * playDirection = 1" using dir by auto
  have ins: "if playDirection = 1 then ?start < lengthInSamples s else 0 \<le> ?start"
    using inside by auto
  have ins': "0 \<le> ?start" "playDirection = 1 \<longrightarrow> ?start < lengthInSamples s"
    using inside by auto
  have insP: "if playDirection = 1 then P < lengthInSamples s else 0 \<le> P"
    using inside d dir by auto
  have insP': "0 \<le> P" "playDirection = 1 \<longrightarrow> P < lengthInSamples s"
    using nonneg inside d dir by auto
  have insP2: "\<not> (if playDirection = 1 then lengthInSamples s \<le> P mod 2 ^ 64 else P < 0)"
    using insP' inside_unsigned [of P "lengthInSamples s"] by auto
  have found: "?idx = (if playDirection = 1 then search zones (?start + 1) LESS
                       else search zones ?start GREATER_OR_EQUAL)"
    using nearest_zone_found [OF dir zs(2) before d] by (cases "playDirection = 1") simp_all
  have foundP: "?idx = (if playDirection = 1 then search zones (P + 1) LESS
                       else search zones P GREATER_OR_EQUAL)"
    using nearest_zone_found [OF dir zs(2) before, of 0] by (cases "playDirection = 1") simp_all
  have endz: "endPos (zones ! nat ?idx) = P" using theZone(1) n by simp
  have gap: "(endPos (zones ! nat ?idx) - ?start) * playDirection = - d"
    using endz sq by (simp add: algebra_simps)
  have nonempty: "0 < (P - startPos (zones ! ?n)) * playDirection"
  proof -
    from before idx(3) n have "0 \<le> (P - startPos (zones ! ?n)) * playDirection"
      by (auto simp: list_all_length)
    with theZone(2) dir show ?thesis by auto
  qed
  obtain e0 s1 where al: "allocatePercCacheStorage cfg env ?r s = (e0, s1)"
    by (cases "allocatePercCacheStorage cfg env ?r s")
  note af = allocatePercCacheStorage_frame [OF al]
  from af zs have zs1: "percCacheZones s1 ?r = zones" by simp
  have p1: "d \<le> 2048 \<longrightarrow>
            fillPercCache cfg env s ?start endP playDirection maxN
              = fillPercCache cfg env s P endP playDirection maxN"
  proof
    assume le: "d \<le> 2048"
    have s1: "- 2048 \<le> (endPos (zones ! nat ?idx) - ?start) * playDirection"
      using gap le by simp
    have s2: "- 2048 \<le> (endPos (zones ! nat ?idx) - P) * playDirection"
      using endz by simp
    show "fillPercCache cfg env s ?start endP playDirection maxN
              = fillPercCache cfg env s P endP playDirection maxN"
      by (simp only: fillPercCache_found [OF ins' zs(1) found idx(1,2) s1]
          fillPercCache_found [OF insP' zs(1) foundP idx(1,2) s2])
  qed
  have p2: "d \<le> 2048
            \<and> fillPercCache cfg env s ?start endP playDirection maxN = Inr (e, s')
          \<longrightarrow> (\<exists>k z'. 0 \<le> k
                \<and> startPos z' = startPos (zones ! ?n)
                \<and> endPos z' = P + k * playDirection
                \<and> percCacheZones s' ?r = zones[?n := z']
                \<and> (env_allocStorageOk env \<and> env_allocClusterOk env (percClusterIndexOf cfg P)
                     \<and> firstSampleLoaded32 cfg s P
                     \<and> callFitsInt32 cfg s endP maxN
                     \<and> 0 < maxN \<and> 0 < (endP - P) * playDirection
                   \<longrightarrow> 0 < k))"
  proof
    assume a: "d \<le> 2048
            \<and> fillPercCache cfg env s ?start endP playDirection maxN = Inr (e, s')"
    let ?goal = "\<exists>k z'. 0 \<le> k \<and> startPos z' = startPos (zones ! ?n)
                \<and> endPos z' = P + k * playDirection
                \<and> percCacheZones s' ?r = zones[?n := z']
                \<and> (env_allocStorageOk env \<and> env_allocClusterOk env (percClusterIndexOf cfg P)
                     \<and> firstSampleLoaded32 cfg s P
                     \<and> callFitsInt32 cfg s endP maxN
                     \<and> 0 < maxN \<and> 0 < (endP - P) * playDirection
                   \<longrightarrow> 0 < k)"
    from a have s1: "- 2048 \<le> (endPos (zones ! nat ?idx) - ?start) * playDirection"
      using gap by simp
    have stay: ?goal
      if "s' = s1" "\<not> env_allocStorageOk env \<or> 0 \<le> (P - endP) * playDirection"
    proof -
      have "\<not> (env_allocStorageOk env \<and> 0 < (endP - P) * playDirection)"
        using that(2) dir by auto
      with that(1) zs1 theZone(1) show ?thesis
        by (intro exI [of _ 0] exI [of _ "zones ! ?n"]) auto
    qed
    from a fillPercCache_found [OF ins' zs(1) found idx(1,2) s1, of cfg env endP maxN] al endz insP2
    consider (ret) "s' = s1" "\<not> env_allocStorageOk env \<or> 0 \<le> (P - endP) * playDirection"
      | (load) "doLoading cfg env ?r playDirection maxN ?idx P endP s1 = Inr (e, s')"
      using af by (cases e0) (auto split: if_splits)
    then show ?goal
    proof cases
      case ret
      then show ?thesis by (rule stay)
    next
      case load
      from doLoading_no_next [OF load zs1 idx(1,3) nonext]
      obtain k z' where k0: "0 \<le> k" "startPos z' = startPos (zones ! nat ?idx)"
        "endPos z' = endPos (zones ! nat ?idx) + k * playDirection"
        "percCacheZones s' ?r = (if endPos z' = startPos z' then deleteAtIndex zones ?idx 1
                                 else zones[nat ?idx := z'])"
        "firstSampleLoaded cfg s1 P \<and> env_allocClusterOk env (percClusterIndexOf cfg P)
            \<and> 0 < (clampEndPos s1 ?r playDirection maxN P endP - P) * playDirection
          \<longrightarrow> 0 < k"
        by blast
      have k: "0 \<le> k" "startPos z' = startPos (zones ! ?n)"
        "endPos z' = P + k * playDirection"
        "percCacheZones s' ?r = (if endPos z' = startPos z' then deleteAtIndex zones ?idx 1
                                 else zones[?n := z'])"
        using k0(1-4) theZone(1) by (simp_all only: n)
      have "0 < (endPos z' - startPos z') * playDirection"
        using k(1,2,3) nonempty sq by (simp add: algebra_simps)
      then have ne: "endPos z' \<noteq> startPos z'" by auto
      have pos: "0 < k" if h: "env_allocClusterOk env (percClusterIndexOf cfg P)"
          "firstSampleLoaded32 cfg s P" "0 < maxN" "0 < (endP - P) * playDirection"
          "callFitsInt32 cfg s endP maxN"
      proof -
        have "P \<le> lengthInSamples s + 2048" using a inside(2) d dir by auto
        from h(2) firstSampleLoaded32_fits [OF h(5) nonneg this]
        have ld: "firstSampleLoaded cfg s P" by simp
        have same: "sameExceptCache s s1" using af by simp
        then have len1: "lengthInSamples s1 = lengthInSamples s" by (simp add: sameExceptCache_def)
        from clampEndPos_beyond [OF dir h(3,4) insP]
        have "0 < (clampEndPos s1 ?r playDirection maxN P endP - P) * playDirection"
          by (simp only: clampEndPos_cong [OF len1])
        with k0(5) h(1) ld firstSampleLoaded_cong [OF same, of cfg P] show ?thesis by simp
      qed
      from k ne pos show ?thesis by (intro exI [of _ k] exI [of _ z']) simp
    qed
  qed
  have p3: "2048 < d
            \<and> fillPercCache cfg env s ?start endP playDirection maxN = Inr (e, s')
          \<longrightarrow> (\<exists>k z'. 0 \<le> k
                \<and> startPos z' = ?start
                \<and> endPos z' = ?start + k * playDirection
                \<and> percCacheZones s' ?r
                    = (if k = 0 then zones else if playDirection = 1 then zones @ [z'] else z' # zones)
                \<and> (env_allocStorageOk env \<and> env_insertOk env
                     \<and> env_allocClusterOk env (percClusterIndexOf cfg ?start)
                     \<and> firstSampleLoaded32 cfg s ?start
                     \<and> callFitsInt32 cfg s endP maxN
                     \<and> 0 < maxN \<and> 0 < (endP - ?start) * playDirection
                   \<longrightarrow> 0 < k))"
  proof
    assume a: "2048 < d
            \<and> fillPercCache cfg env s ?start endP playDirection maxN = Inr (e, s')"
    then have s1: "(endPos (zones ! nat ?idx) - ?start) * playDirection < - 2048"
      using gap by simp
    let ?iNew = "(if playDirection = 1 then ?idx + 1 else ?idx)"
    let ?new = "newSamplePercCacheZone cfg ?start"
    let ?zones2 = "insertAtIndex zones ?iNew ?new"
    let ?s2 = "s1\<lparr>percCacheZones := (percCacheZones s1)(?r := ?zones2)\<rparr>"
    let ?goal = "\<exists>k z'. 0 \<le> k
                \<and> startPos z' = ?start
                \<and> endPos z' = ?start + k * playDirection
                \<and> percCacheZones s' ?r
                    = (if k = 0 then zones else if playDirection = 1 then zones @ [z'] else z' # zones)
                \<and> (env_allocStorageOk env \<and> env_insertOk env
                     \<and> env_allocClusterOk env (percClusterIndexOf cfg ?start)
                     \<and> firstSampleLoaded32 cfg s ?start
                     \<and> callFitsInt32 cfg s endP maxN
                     \<and> 0 < maxN \<and> 0 < (endP - ?start) * playDirection
                   \<longrightarrow> 0 < k)"
    from a fillPercCache_not_found [OF ins' zs(1) found idx(1,2) s1, of cfg env endP maxN] al
    consider (ram) "s' = s1" "\<not> env_allocStorageOk env \<or> \<not> env_insertOk env"
      | (load) "doLoading cfg env ?r playDirection maxN ?iNew ?start endP ?s2 = Inr (e, s')"
      using af by (cases e0) (auto split: if_splits)
    then show ?goal
    proof cases
      case ram
      with zs1 show ?thesis
        by (intro exI [of _ 0] exI [of _ ?new]) (auto simp: newSamplePercCacheZone_def)
    next
      case load
      have z2: "percCacheZones ?s2 ?r = ?zones2" by simp
      have zz: "?zones2 = (if playDirection = 1 then zones @ [?new] else ?new # zones)"
        using zs(2) by (auto simp: insertAtIndex_def nat_add_distrib Suc_leI)
      have i2: "0 \<le> ?iNew" "nat ?iNew < length ?zones2"
        using zs(2) by (auto simp: insertAtIndex_def)
      have nn2: "\<not> (0 \<le> ?iNew + playDirection \<and> ?iNew + playDirection < int (length ?zones2))"
        using dir zs(2) by (auto simp: insertAtIndex_def)
      have at: "?zones2 ! nat ?iNew = ?new"
        using zs(2) by (auto simp: zz nth_append)
      have same: "sameExceptCache s ?s2" using af by (simp add: sameExceptCache_def)
      from doLoading_no_next [OF load z2 i2 nn2]
      obtain k z' where k0: "0 \<le> k" "startPos z' = startPos (?zones2 ! nat ?iNew)"
        "endPos z' = endPos (?zones2 ! nat ?iNew) + k * playDirection"
        "percCacheZones s' ?r = (if endPos z' = startPos z' then deleteAtIndex ?zones2 ?iNew 1
                                 else ?zones2[nat ?iNew := z'])"
        "firstSampleLoaded cfg ?s2 ?start \<and> env_allocClusterOk env (percClusterIndexOf cfg ?start)
            \<and> 0 < (clampEndPos ?s2 ?r playDirection maxN ?start endP - ?start) * playDirection
          \<longrightarrow> 0 < k"
        by blast
      have k: "startPos z' = ?start" "endPos z' = ?start + k * playDirection"
        using k0(2,3) by (simp_all only: at) (simp_all add: newSamplePercCacheZone_def)
      have e0: "endPos z' = startPos z' \<longleftrightarrow> k = 0" using k dir by auto
      have del: "deleteAtIndex ?zones2 ?iNew 1 = zones"
        using zs(2) by (auto simp: zz deleteAtIndex_def nat_add_distrib)
      have upd: "?zones2[nat ?iNew := z'] = (if playDirection = 1 then zones @ [z'] else z' # zones)"
        using zs(2) by (auto simp: zz)
      have res: "percCacheZones s' ?r
                    = (if k = 0 then zones else if playDirection = 1 then zones @ [z'] else z' # zones)"
        using k0(4) e0 del upd by simp
      have pos: "0 < k" if h: "env_allocClusterOk env (percClusterIndexOf cfg ?start)"
          "firstSampleLoaded32 cfg s ?start" "0 < maxN" "0 < (endP - ?start) * playDirection"
          "callFitsInt32 cfg s endP maxN"
      proof -
        have "?start \<le> lengthInSamples s + 2048" using inside(2) by simp
        from h(2) firstSampleLoaded32_fits [OF h(5) inside(1) this]
        have ld: "firstSampleLoaded cfg s ?start" by simp
        have len2: "lengthInSamples ?s2 = lengthInSamples s" using same by (simp add: sameExceptCache_def)
        from clampEndPos_beyond [OF dir h(3,4) ins]
        have "0 < (clampEndPos ?s2 ?r playDirection maxN ?start endP - ?start) * playDirection"
          by (simp only: clampEndPos_cong [OF len2])
        with k0(5) h(1) ld firstSampleLoaded_cong [OF same, of cfg ?start] show ?thesis by simp
      qed
      from k0(1) k res pos show ?thesis
        by (intro exI [of _ k] exI [of _ z']) simp
    qed
  qed
  from p1 p2 p3 show ?thesis by (intro conjI)
qed

theorem fillPercCache_slack_merge_witness:
  "percCacheZones rampEarly False = [earlyZone]
   \<and> endPos earlyZone = 230 \<and> startPos earlyZone = 100
   \<and> callFitsInt32 exampleConfig rampEarly 1300 3
   \<and> callFitsInt32 exampleConfig rampEarly 3300 3
   \<and> firstSampleLoaded32 exampleConfig rampEarly 230
   \<and> firstSampleLoaded32 exampleConfig rampEarly 3230
   \<and> fillPercCache exampleConfig allOk rampEarly (230 + 1000) 1300 1 3
       = fillPercCache exampleConfig allOk rampEarly 230 1300 1 3
   \<and> fillPercCache exampleConfig allOk rampEarly (230 + 1000) 1300 1 3 = Inr (NO_ERROR, rampExtended)
   \<and> (\<exists>k z'. 0 < k \<and> startPos z' = 100 \<and> endPos z' = 230 + k
          \<and> percCacheZones rampExtended False = [z'])
   \<and> fillPercCache exampleConfig allOk rampEarly (230 + 3000) 3300 1 3 = Inr (NO_ERROR, rampSecondZone)
   \<and> (\<exists>k z'. 0 < k \<and> startPos z' = 3230 \<and> endPos z' = 3230 + k
          \<and> percCacheZones rampSecondZone False = [earlyZone, z'])"
proof -
  have z: "percCacheZones rampEarly (1 \<noteq> (1 :: int)) = [earlyZone]" "[earlyZone] \<noteq> []"
    by (simp_all add: perc_example_defs)
  have b: "list_all (\<lambda>z. 0 \<le> (230 - startPos z) * 1) [earlyZone]"
    by (simp add: perc_example_defs)
  have t: "endPos ([earlyZone] ! (if (1 :: int) = 1 then length [earlyZone] - 1 else 0)) = 230"
    "startPos ([earlyZone] ! (if (1 :: int) = 1 then length [earlyZone] - 1 else 0)) \<noteq> 230"
    by (simp_all add: perc_example_defs)
  have f1: "fillPercCache exampleConfig allOk rampEarly (230 + 1000 * 1) 1300 1 3
      = Inr (NO_ERROR, rampExtended)"
    by (simp add: perc_defs clusterLoop.simps segmentLoop.simps perc_example_defs Let_def
        eval_nat_numeral)
  have f2: "fillPercCache exampleConfig allOk rampEarly (230 + 3000 * 1) 3300 1 3
      = Inr (NO_ERROR, rampSecondZone)"
    by (simp add: perc_defs clusterLoop.simps segmentLoop.simps perc_example_defs Let_def
        eval_nat_numeral)
  have l1: "firstSampleLoaded32 exampleConfig rampEarly 230"
    "firstSampleLoaded32 exampleConfig rampEarly (230 + 3000 * 1)"
    by (simp_all add: firstSampleLoaded32_def perc_defs perc_example_defs Let_def)
  have ok: "env_allocStorageOk allOk" "env_insertOk allOk" "env_allocClusterOk allOk c" for c
    by (simp_all add: allOk_def)
  have nn: "(0 :: int) \<le> 230" by simp
  have fit: "callFitsInt32 exampleConfig rampEarly 1300 3"
    "callFitsInt32 exampleConfig rampEarly 3300 3"
    by (simp_all add: callFitsInt32_def bytesPerSample_def perc_example_defs)
  note m1 = fillPercCache_slack_merge [where playDirection = 1 and s = rampEarly
      and zones = "[earlyZone]" and P = 230 and d = 1000 and cfg = exampleConfig and env = allOk
      and endP = 1300 and maxN = 3 and e = NO_ERROR and s' = rampExtended, OF _ z b t _ nn]
  note m2 = fillPercCache_slack_merge [where playDirection = 1 and s = rampEarly
      and zones = "[earlyZone]" and P = 230 and d = 3000 and cfg = exampleConfig and env = allOk
      and endP = 3300 and maxN = 3 and e = NO_ERROR and s' = rampSecondZone, OF _ z b t _ nn]
  have len: "(230 :: int) + 3000 * 1 < lengthInSamples rampEarly"
    by (simp add: perc_example_defs)
  from m1 f1 l1(1) fit(1) ok len have c1: "fillPercCache exampleConfig allOk rampEarly (230 + 1000) 1300 1 3
       = fillPercCache exampleConfig allOk rampEarly 230 1300 1 3"
    "\<exists>k z'. 0 < k \<and> startPos z' = 100 \<and> endPos z' = 230 + k
          \<and> percCacheZones rampExtended False = [z']"
    by (auto simp: perc_example_defs)
  from m2 f2 l1(2) fit(2) ok len have c2: "\<exists>k z'. 0 < k \<and> startPos z' = 3230 \<and> endPos z' = 3230 + k
          \<and> percCacheZones rampSecondZone False = [earlyZone, z']"
    by (auto simp: perc_example_defs)
  from z(1) c1 c2 f1 f2 fit l1 show ?thesis by (simp add: earlyZone_def)
qed

subsection \<open>Failing inputs of \<^verbatim>\<open>fillPercCache\<close>\<close>

text \<open>
  C1 fails on the code. On the silent file, filling the forward range from 70 to 71 leaves
  one zone from 70 to 71 with a provisional prefix of 2048. Filling the forward range from
  66 to 71 next creates a zone at 66, runs it up to 71 inside the prefix of the zone that
  follows, and moves that zone's start to 71 without looking at its end: the call returns
  with a zone whose \<^verbatim>\<open>startPos\<close> and \<^verbatim>\<open>endPos\<close> are both 71.
\<close>

theorem fillPercCache_leaves_empty_zone:
  "fillPercCache exampleConfig allOk silentSample 70 71 1 1000 = Inr (NO_ERROR, afterFirstFill)
   \<and> zoneInvariant False (percCacheZones afterFirstFill False)
   \<and> fillPercCache exampleConfig allOk afterFirstFill 66 71 1 1000 = Inr (NO_ERROR, afterSecondFill)
   \<and> startPos (percCacheZones afterSecondFill False ! 1) = 71
   \<and> endPos (percCacheZones afterSecondFill False ! 1) = 71
   \<and> \<not> zoneInvariant False (percCacheZones afterSecondFill False)"
proof -
  have a: "fillPercCache exampleConfig allOk silentSample 70 71 1 1000 = Inr (NO_ERROR, afterFirstFill)"
    by (simp add: perc_defs clusterLoop.simps segmentLoop.simps perc_example_defs Let_def
        eval_nat_numeral)
  have b: "fillPercCache exampleConfig allOk afterFirstFill 66 71 1 1000
      = Inr (NO_ERROR, afterSecondFill)"
    by (simp add: perc_defs clusterLoop.simps segmentLoop.simps perc_example_defs Let_def
        eval_nat_numeral)
  have c: "zoneInvariant False (percCacheZones afterFirstFill False)"
    "\<not> zoneInvariant False (percCacheZones afterSecondFill False)"
    by (simp_all add: zoneInvariant_def zoneNonEmpty_def zoneBefore_def perc_example_defs)
  have d: "startPos (percCacheZones afterSecondFill False ! 1) = 71"
    "endPos (percCacheZones afterSecondFill False ! 1) = 71"
    by (simp_all add: perc_example_defs)
  from a b c d show ?thesis by simp
qed

text \<open>
  C9 fails on the code. On the silent file, filling the forward range from 63 to 64 reads
  one sample, which leaves the smoothed angle at 0, and ends on a segment boundary: the
  percussiveness is then computed with the divisor 0.
\<close>

theorem fillPercCache_silence_divides_by_zero:
  "fillPercCache exampleConfig allOk silentSample 63 64 1 1000 = Inl DivisionByZero"
  by (simp add: perc_defs clusterLoop.simps segmentLoop.simps perc_example_defs Let_def
      eval_nat_numeral)

section \<open>Resuming a zone\<close>

text \<open>
  The equations of the two loops are unfolded by hand from here on.
\<close>

declare segmentLoop.simps [simp del] clusterLoop.simps [simp del]

lemma sampleLoop_split:
  "sampleLoop s cl inc (p + Suc q) cur z =
     (let (angle, z1) = sampleLoop s cl inc p cur z
      in sampleLoop s cl inc q (cur + (int p + 1) * inc) (z1\<lparr>lastAngle := angle\<rparr>))"
proof (induction p arbitrary: cur z)
  case 0
  show ?case by (simp add: Let_def split: prod.splits)
next
  case (Suc p)
  obtain angle z' where st: "sampleStep s cl cur z = (angle, z')" by (cases "sampleStep s cl cur z")
  show ?case
    using Suc [of "cur + inc" "z'\<lparr>lastAngle := angle\<rparr>"] st
    by (simp add: Let_def algebra_simps split: prod.splits)
qed

lemma and_size_mod: "(x :: int) AND (2 ^ k - 1) = x mod 2 ^ k"
  by (simp flip: mask_eq_exp_minus_1 take_bit_eq_mask add: take_bit_eq_mod)

lemma leftForward_bounds: "0 < leftForward cfg start" "leftForward cfg start \<le> kPercBufferReductionSize cfg"
  by (simp_all add: leftForward_def kPercBufferReductionSize_def)

lemma numSamples_forward:
  "numSamplesThisPercPixelSegment cfg False n start = min n (leftForward cfg start)"
proof -
  have "(2 ^ kPercBufferReductionMagnitude cfg :: int)
      \<noteq> (start + drop_bit 1 (2 ^ kPercBufferReductionMagnitude cfg)) mod 2 ^ kPercBufferReductionMagnitude cfg"
    using pos_mod_bound [of "2 ^ kPercBufferReductionMagnitude cfg :: int"
        "start + drop_bit 1 (2 ^ kPercBufferReductionMagnitude cfg)"]
      zero_less_power [of "2 :: int" "kPercBufferReductionMagnitude cfg"]
    by linarith
  then show ?thesis
    by (auto simp: numSamplesThisPercPixelSegment_def Let_def leftForward_def and_size_mod
        kPercBufferReductionSize_def)
qed

lemma leftForward_advance:
  assumes "0 < a" "a < leftForward cfg start"
  shows "leftForward cfg (start + a) = leftForward cfg start - a"
proof -
  let ?size = "kPercBufferReductionSize cfg"
  let ?h = "drop_bit 1 ?size"
  have sz: "0 < ?size" by (simp add: kPercBufferReductionSize_def)
  let ?r = "(start + ?h) mod ?size"
  have r: "0 \<le> ?r" "?r + a < ?size" using assms sz by (simp_all add: leftForward_def)
  have "(start + a + ?h) mod ?size = (?r + a) mod ?size"
    by (simp add: mod_simps algebra_simps)
  also have "\<dots> = ?r + a" using r assms by simp
  finally show ?thesis by (simp add: leftForward_def)
qed

lemma no_write_inside:
  assumes "0 < a" "a < leftForward cfg start"
  shows "writePercussiveness cfg False (start + a) angle la buf = Inr buf"
proof -
  let ?size = "kPercBufferReductionSize cfg"
  let ?h = "drop_bit 1 ?size"
  have sz: "0 < ?size" by (simp add: kPercBufferReductionSize_def)
  let ?r = "(start + ?h) mod ?size"
  have r: "0 \<le> ?r" "?r + a < ?size" using assms sz by (simp_all add: leftForward_def)
  have e: "(start + a + ?h) mod ?size = ?r + a"
  proof -
    have "(start + a + ?h) mod ?size = (?r + a) mod ?size" by (simp add: mod_simps algebra_simps)
    with r assms show ?thesis by simp
  qed
  have "(start + a) mod ?size \<noteq> ?h"
  proof
    assume h: "(start + a) mod ?size = ?h"
    have "(start + a + ?h) mod ?size = ((start + a) mod ?size + ?h) mod ?size"
      by (simp add: mod_simps)
    also have "\<dots> = (?h + ?h) mod ?size" by (simp only: h)
    finally have "?r + a = (?h + ?h) mod ?size" using e by simp
    moreover have "(?h + ?h) mod ?size = 0 \<or> ?size = 1"
      by (cases "kPercBufferReductionMagnitude cfg")
        (simp_all add: kPercBufferReductionSize_def drop_bit_eq_div)
    ultimately show False using r assms by auto
  qed
  then show ?thesis
    by (simp add: writePercussiveness_def Let_def and_size_mod kPercBufferReductionSize_def)
qed

lemma segmentLoop_unfold:
  assumes "0 < k" "inc \<noteq> 0"
  shows "segmentLoop cfg s cl False 1 inc k cur start z buf =
     (case sampleLoop s cl inc (nat (min k (leftForward cfg start) - 1)) cur z of
        (angle, z1) \<Rightarrow>
          (case writePercussiveness cfg False (start + min k (leftForward cfg start)) angle
                  (lastAngle z1) buf of
             Inl t \<Rightarrow> Inl t
           | Inr buf' \<Rightarrow>
               if k - min k (leftForward cfg start) \<noteq> 0
               then segmentLoop cfg s cl False 1 inc (k - min k (leftForward cfg start))
                      (cur + min k (leftForward cfg start) * inc)
                      (start + min k (leftForward cfg start)) (z1\<lparr>lastAngle := angle\<rparr>) buf'
               else Inr (start + min k (leftForward cfg start), z1\<lparr>lastAngle := angle\<rparr>, buf')))"
proof -
  have "\<not> min k (leftForward cfg start) \<le> 0"
    using assms(1) leftForward_bounds(1) [of cfg start] by simp
  then show ?thesis using assms(2)
    by (subst segmentLoop.simps) (simp add: numSamples_forward Let_def split: prod.splits)
qed

lemma segmentLoop_split:
  "\<not> reversed \<Longrightarrow> playDirection = 1 \<Longrightarrow> posIncrement \<noteq> 0 \<Longrightarrow> 0 < n \<Longrightarrow> 0 < b \<Longrightarrow>
   segmentLoop cfg s cl reversed playDirection posIncrement (n + b) cur start z buf =
     (case segmentLoop cfg s cl reversed playDirection posIncrement n cur start z buf of
        Inl t \<Rightarrow> Inl t
      | Inr (st1, z1, buf1) \<Rightarrow>
          segmentLoop cfg s cl reversed playDirection posIncrement b (cur + n * posIncrement) st1 z1 buf1)"
proof (induction cfg s cl reversed playDirection posIncrement n cur start z buf rule: segmentLoop.induct)
  case (1 cfg s cluster reversed playDirection posIncrement n currentPos startPosSamples z percCacheNow)
  from "1.prems" have rv: "reversed = False" and pd: "playDirection = 1"
    and inc: "posIncrement \<noteq> 0" and n: "0 < n" and b: "0 < b"
    by simp_all
  let ?L = "leftForward cfg startPosSamples"
  note Lb = leftForward_bounds [of cfg startPosSamples]
  have nb: "0 < n + b" using n b by simp
  note un = segmentLoop_unfold [OF n inc, of cfg s cluster currentPos startPosSamples z percCacheNow]
  note unb = segmentLoop_unfold [OF nb inc, of cfg s cluster currentPos startPosSamples z percCacheNow]
  show ?case unfolding rv pd
  proof (cases "?L \<le> n")
    case True
    then have m1: "min n ?L = ?L" and m2: "min (n + b) ?L = ?L" using b by simp_all
    obtain angle z1 where sl: "sampleLoop s cluster posIncrement (nat (?L - 1)) currentPos z = (angle, z1)"
      by (cases "sampleLoop s cluster posIncrement (nat (?L - 1)) currentPos z")
    show "segmentLoop cfg s cluster False 1 posIncrement (n + b) currentPos startPosSamples z percCacheNow =
       (case segmentLoop cfg s cluster False 1 posIncrement n currentPos startPosSamples z percCacheNow of
          Inl t \<Rightarrow> Inl t
        | Inr (st1, z1, buf1) \<Rightarrow>
            segmentLoop cfg s cluster False 1 posIncrement b (currentPos + n * posIncrement) st1 z1 buf1)"
    proof (cases "writePercussiveness cfg False (startPosSamples + ?L) angle (lastAngle z1) percCacheNow")
      case (Inl t)
      then show ?thesis by (simp add: un unb m1 m2 sl)
    next
      case (Inr buf')
      show ?thesis
      proof (cases "n = ?L")
        case True
        then have m1': "min n ?L = n" and m2': "min (n + b) ?L = n" using b by simp_all
        from sl True have sl2: "sampleLoop s cluster posIncrement (nat (n - 1)) currentPos z = (angle, z1)"
          by simp
        from Inr True have w2: "writePercussiveness cfg False (startPosSamples + n) angle (lastAngle z1)
            percCacheNow = Inr buf'" by simp
        have bb: "n + b - n = b" "b \<noteq> 0" using b by simp_all
        show ?thesis unfolding un unb m1' m2' sl2 by (simp add: w2 bb)
      next
        case False
        with \<open>?L \<le> n\<close> have gt: "0 < n - ?L" "n - ?L \<noteq> 0" by simp_all
        have x: "?L = numSamplesThisPercPixelSegment cfg reversed n startPosSamples"
          by (simp add: rv numSamples_forward m1)
        have y: "\<not> ?L \<le> 0" using Lb by simp
        have pl: "nat (?L - 1) = (if posIncrement = 0 then 0 else nat (?L - 1))" using inc by simp
        have sl': "(angle, z1) = sampleLoop s cluster posIncrement (nat (?L - 1)) currentPos z"
          using sl by simp
        have w: "writePercussiveness cfg reversed (startPosSamples + ?L * playDirection) angle
                   (lastAngle z1) percCacheNow = Inr buf'"
          using Inr by (simp add: rv pd)
        note ih = "1.IH" [OF x y pl refl sl' refl w gt(2) "1.prems"(1,2,3) gt(1) b, unfolded rv pd]
        have e: "n + b - ?L = n - ?L + b" by simp
        have c: "currentPos + ?L * posIncrement + (n - ?L) * posIncrement = currentPos + n * posIncrement"
          by (simp add: algebra_simps)
        have lhs: "segmentLoop cfg s cluster False 1 posIncrement (n + b) currentPos startPosSamples z
              percCacheNow
            = segmentLoop cfg s cluster False 1 posIncrement (n - ?L + b)
                (currentPos + ?L * posIncrement) (startPosSamples + ?L) (z1\<lparr>lastAngle := angle\<rparr>) buf'"
          using Inr gt b by (simp add: unb m2 sl e)
        have rhs: "segmentLoop cfg s cluster False 1 posIncrement n currentPos startPosSamples z
              percCacheNow
            = segmentLoop cfg s cluster False 1 posIncrement (n - ?L)
                (currentPos + ?L * posIncrement) (startPosSamples + ?L) (z1\<lparr>lastAngle := angle\<rparr>) buf'"
          using Inr gt by (simp add: un m1 sl)
        show ?thesis unfolding lhs rhs using ih [unfolded c] by simp
      qed
    qed
  next
    case False
    then have lt: "n < ?L" by simp
    then have m1: "min n ?L = n" by simp
    obtain an zn where sn: "sampleLoop s cluster posIncrement (nat (n - 1)) currentPos z = (an, zn)"
      by (cases "sampleLoop s cluster posIncrement (nat (n - 1)) currentPos z")
    note nw = no_write_inside [OF n lt, of an "lastAngle zn" percCacheNow]
    have first: "segmentLoop cfg s cluster False 1 posIncrement n currentPos startPosSamples z percCacheNow
        = Inr (startPosSamples + n, zn\<lparr>lastAngle := an\<rparr>, percCacheNow)"
      by (simp add: un m1 sn nw)
    let ?mb = "min b (?L - n)"
    have mb: "0 < ?mb" using b lt by simp
    have adv: "leftForward cfg (startPosSamples + n) = ?L - n"
      by (rule leftForward_advance [OF n lt])
    have m2: "min (n + b) ?L = n + ?mb" by simp
    have split: "sampleLoop s cluster posIncrement (nat (n + ?mb - 1)) currentPos z
        = sampleLoop s cluster posIncrement (nat (?mb - 1)) (currentPos + n * posIncrement)
            (zn\<lparr>lastAngle := an\<rparr>)"
    proof -
      have "nat (n + ?mb - 1) = nat (n - 1) + Suc (nat (?mb - 1))" using n mb by linarith
      moreover have "int (nat (n - 1)) + 1 = n" using n by simp
      ultimately show ?thesis
        using sampleLoop_split [of s cluster posIncrement "nat (n - 1)" "nat (?mb - 1)" currentPos z] sn
        by simp
    qed
    have second: "segmentLoop cfg s cluster False 1 posIncrement b (currentPos + n * posIncrement)
          (startPosSamples + n) (zn\<lparr>lastAngle := an\<rparr>) percCacheNow
        = segmentLoop cfg s cluster False 1 posIncrement (n + b) currentPos startPosSamples z percCacheNow"
    proof -
      have a1: "n + b - (n + ?mb) = b - ?mb" by simp
      have a2: "currentPos + (n + ?mb) * posIncrement = currentPos + n * posIncrement + ?mb * posIncrement"
        by (simp add: algebra_simps)
      have a3: "startPosSamples + (n + ?mb) = startPosSamples + n + ?mb" by simp
      show ?thesis
        unfolding segmentLoop_unfold [OF b inc, of cfg s cluster "currentPos + n * posIncrement"
            "startPosSamples + n" "zn\<lparr>lastAngle := an\<rparr>" percCacheNow] unb adv m2 split a1 a2 a3
        by (rule refl)
    qed
    show "segmentLoop cfg s cluster False 1 posIncrement (n + b) currentPos startPosSamples z percCacheNow =
       (case segmentLoop cfg s cluster False 1 posIncrement n currentPos startPosSamples z percCacheNow of
          Inl t \<Rightarrow> Inl t
        | Inr (st1, z1, buf1) \<Rightarrow>
            segmentLoop cfg s cluster False 1 posIncrement b (currentPos + n * posIncrement) st1 z1 buf1)"
      by (simp add: first second)
  qed
qed

lemma sampleStep_reposition:
  "sampleStep s cl cur (reposition z e p) =
     (case sampleStep s cl cur z of (angle, z') \<Rightarrow> (angle, reposition z' e p))"
  by (simp add: sampleStep_def reposition_def Let_def split: prod.splits)

lemma sampleLoop_reposition:
  "sampleLoop s cl inc k cur (reposition z e p) =
     (case sampleLoop s cl inc k cur z of (angle, z') \<Rightarrow> (angle, reposition z' e p))"
proof (induction k arbitrary: cur z)
  case 0
  show ?case by (simp add: sampleStep_reposition)
next
  case (Suc k)
  obtain angle z' where st: "sampleStep s cl cur z = (angle, z')" by (cases "sampleStep s cl cur z")
  have r: "(reposition z' e p)\<lparr>lastAngle := angle\<rparr> = reposition (z'\<lparr>lastAngle := angle\<rparr>) e p"
    by (simp add: reposition_def)
  show ?case using Suc [of "cur + inc" "z'\<lparr>lastAngle := angle\<rparr>"]
    by (simp add: sampleStep_reposition st r)
qed

lemma segmentLoop_reposition:
  "segmentLoop cfg s cl reversed playDirection posIncrement n cur start (reposition z e p) buf =
     (case segmentLoop cfg s cl reversed playDirection posIncrement n cur start z buf of
        Inl t \<Rightarrow> Inl t
      | Inr (st, z', buf') \<Rightarrow> Inr (st, reposition z' e p, buf'))"
proof (induction cfg s cl reversed playDirection posIncrement n cur start z buf rule: segmentLoop.induct)
  case (1 cfg s cluster reversed playDirection posIncrement n currentPos startPosSamples z percCacheNow)
  let ?m = "numSamplesThisPercPixelSegment cfg reversed n startPosSamples"
  let ?k = "(if posIncrement = 0 then 0 else nat (?m - 1))"
  show ?case
  proof (cases "?m \<le> 0")
    case True
    then show ?thesis
      by (subst segmentLoop.simps, subst (2) segmentLoop.simps) (simp add: Let_def)
  next
    case m: False
    obtain angle z1 where sl: "sampleLoop s cluster posIncrement ?k currentPos z = (angle, z1)"
      by (cases "sampleLoop s cluster posIncrement ?k currentPos z")
    have slr: "sampleLoop s cluster posIncrement ?k currentPos (reposition z e p) = (angle, reposition z1 e p)"
      by (simp add: sampleLoop_reposition sl)
    have la: "lastAngle (reposition z1 e p) = lastAngle z1" by (simp add: reposition_def)
    have r: "(reposition z1 e p)\<lparr>lastAngle := angle\<rparr> = reposition (z1\<lparr>lastAngle := angle\<rparr>) e p"
      by (simp add: reposition_def)
    let ?w = "writePercussiveness cfg reversed (startPosSamples + ?m * playDirection) angle (lastAngle z1)
                percCacheNow"
    have u1: "segmentLoop cfg s cluster reversed playDirection posIncrement n currentPos startPosSamples z
          percCacheNow =
        (case ?w of Inl t \<Rightarrow> Inl t
         | Inr buf' \<Rightarrow>
             if n - ?m \<noteq> 0
             then segmentLoop cfg s cluster reversed playDirection posIncrement (n - ?m)
                    (currentPos + ?m * posIncrement) (startPosSamples + ?m * playDirection)
                    (z1\<lparr>lastAngle := angle\<rparr>) buf'
             else Inr (startPosSamples + ?m * playDirection, z1\<lparr>lastAngle := angle\<rparr>, buf'))"
      using m by (subst segmentLoop.simps) (simp add: Let_def sl)
    have u2': "segmentLoop cfg s cluster reversed playDirection posIncrement n currentPos startPosSamples
          (reposition z e p) percCacheNow =
        (case ?w of Inl t \<Rightarrow> Inl t
         | Inr buf' \<Rightarrow>
             if n - ?m \<noteq> 0
             then segmentLoop cfg s cluster reversed playDirection posIncrement (n - ?m)
                    (currentPos + ?m * posIncrement) (startPosSamples + ?m * playDirection)
                    ((reposition z1 e p)\<lparr>lastAngle := angle\<rparr>) buf'
             else Inr (startPosSamples + ?m * playDirection,
                       (reposition z1 e p)\<lparr>lastAngle := angle\<rparr>, buf'))"
      using m by (subst segmentLoop.simps) (simp add: Let_def slr la)
    note u2 = u2' [unfolded r]
    show ?thesis
    proof (cases ?w)
      case (Inl t)
      then show ?thesis by (simp add: u1 u2)
    next
      case (Inr buf')
      show ?thesis
      proof (cases "n - ?m \<noteq> 0")
        case False
        with Inr show ?thesis by (simp add: u1 u2)
      next
        case True
        have sl': "(angle, z1) = sampleLoop s cluster posIncrement ?k currentPos z" using sl by simp
        from "1.IH" [OF refl m refl refl sl' refl Inr True] Inr True show ?thesis
          by (simp add: u1 u2)
      qed
    qed
  qed
qed

lemma clusterLoop_single_pass:
  assumes "\<not> outsideAudioData cfg t (drop_bit (clusterSizeMagnitude cfg) sb)"
    and "touchPercCluster cfg env t False start = Some t1"
    and "clusters t (drop_bit (clusterSizeMagnitude cfg) sb) = Some cl"
    and "loaded cl"
    and "numSamplesThisCluster cfg t False k start sb = Inr k"
    and "0 < k"
  shows "clusterLoop cfg env False 1 i k start sb t =
     (case segmentLoop cfg t cl False 1 (bytesPerSample t) k
             ((sb AND (clusterSize cfg - 1)) - 4 + int (byteDepth t)) start
             ((percCacheZones t1 False ! nat i)\<lparr>endPos := endPos (percCacheZones t1 False ! nat i) + k\<rparr>)
             (percCacheNowOf cfg t1 False start) of
        Inl x \<Rightarrow> Inl x
      | Inr (st, z', buf') \<Rightarrow>
          Inr (NO_ERROR, True,
               writeBackBuffer cfg (writeBackZone t1 False i z') False (percClusterIndexOf cfg start) buf',
               st, sb + k * bytesPerSample t))"
  using assms
  by (subst clusterLoop.simps) (simp add: Let_def split: sum.splits prod.splits)

lemma done_with_clusters_updates:
  "percCacheDoneWithClusters cfg (t\<lparr>percCacheZones := zs\<rparr>) = percCacheDoneWithClusters cfg t"
  "percCacheDoneWithClusters cfg (t\<lparr>percCacheMemory := pm\<rparr>) = percCacheDoneWithClusters cfg t"
  "percCacheDoneWithClusters cfg (t\<lparr>percCacheClusters := pc\<rparr>) = percCacheDoneWithClusters cfg t"
  "percCacheDoneWithClusters cfg (t\<lparr>numPercCacheClusters := np\<rparr>) = percCacheDoneWithClusters cfg t"
  by (simp_all add: percCacheDoneWithClusters_def lengthInSamplesAfterReduction_def)

lemma percClusterSlots_updates:
  "percClusterSlots (t\<lparr>percCacheZones := zs\<rparr>) r = percClusterSlots t r"
  "percClusterSlots (t\<lparr>percCacheMemory := pm\<rparr>) r = percClusterSlots t r"
  by (simp_all add: percClusterSlots_def)

lemma doLoading_single_zone:
  assumes zs: "percCacheZones t False = [z]"
    and ord: "startPos z \<le> endPos z"
    and k: "start < e" "e \<le> lengthInSamples t" "e \<le> start + maxN"
    and ins: "\<not> outsideAudioData cfg t (drop_bit (clusterSizeMagnitude cfg)
                 (audioDataStartPosBytes t + start * bytesPerSample t))"
    and touch: "touchPercCluster cfg env t False start = Some t1"
    and cl: "clusters t (drop_bit (clusterSizeMagnitude cfg)
                 (audioDataStartPosBytes t + start * bytesPerSample t)) = Some cl"
    and ld: "loaded cl"
    and ns: "numSamplesThisCluster cfg t False (e - start) start
               (audioDataStartPosBytes t + start * bytesPerSample t) = Inr (e - start)"
  shows "doLoading cfg env False 1 maxN 0 start e t =
     (case segmentLoop cfg t cl False 1 (bytesPerSample t) (e - start)
             (((audioDataStartPosBytes t + start * bytesPerSample t) AND (clusterSize cfg - 1)) - 4
                + int (byteDepth t)) start
             (z\<lparr>endPos := endPos z + (e - start)\<rparr>)
             (percCacheNowOf cfg t1 False start) of
        Inl x \<Rightarrow> Inl x
      | Inr (st, z', buf') \<Rightarrow>
          Inr (NO_ERROR,
               storeRun cfg t1 (percClusterIndexOf cfg start)
                 (z'\<lparr>samplesAtStartWhichShouldBeReplaced := max 2048 (endPos z' - startPos z')\<rparr>) buf'))"
proof -
  let ?sb = "audioDataStartPosBytes t + start * bytesPerSample t"
  let ?k = "e - start"
  let ?z0 = "z\<lparr>endPos := endPos z + ?k\<rparr>"
  let ?seg = "segmentLoop cfg t cl False 1 (bytesPerSample t) ?k
             ((?sb AND (clusterSize cfg - 1)) - 4 + int (byteDepth t)) start ?z0
             (percCacheNowOf cfg t1 False start)"
  have kpos: "0 < ?k" using k by simp
  have clamp: "clampEndPos t False 1 maxN start e = e"
    using k by (auto simp: clampEndPos_def Let_def)
  have nohit: "\<not> willHitNextElement (percCacheZones t False) (0 + 1) 1 e"
    by (simp add: willHitNextElement_def zs)
  note tf = touchPercCluster_frame [OF touch]
  from tf zs have z1: "percCacheZones t1 False = [z]" by simp
  note pass = clusterLoop_single_pass [OF ins touch cl ld ns kpos, of 0, unfolded z1]
  show ?thesis
  proof (cases ?seg)
    case (Inl x)
    with pass have "clusterLoop cfg env False 1 0 ?k start ?sb t = Inl x" by simp
    with Inl kpos clamp nohit show ?thesis
      by (simp add: doLoading_def Let_def)
  next
    case (Inr r)
    obtain st z' buf' where r: "r = (st, z', buf')" by (cases r)
    let ?t2 = "writeBackBuffer cfg (writeBackZone t1 False 0 z') False (percClusterIndexOf cfg start) buf'"
    from pass Inr r have cl2: "clusterLoop cfg env False 1 0 ?k start ?sb t
        = Inr (NO_ERROR, True, ?t2, st, ?sb + ?k * bytesPerSample t)" by simp
    from segmentLoop_frame [OF Inr [unfolded r]] have zf: "startPos z' = startPos z" "endPos z' = endPos z + ?k"
      by simp_all
    have ne: "endPos z' \<noteq> startPos z'" using zf ord kpos by simp
    have zt2: "percCacheZones ?t2 False = [z']"
      by (simp add: writeBackBuffer_def writeBackZone_def z1 done_with_clusters_updates)
    let ?zf = "z'\<lparr>samplesAtStartWhichShouldBeReplaced := max 2048 (endPos z' - startPos z')\<rparr>"
    have cz: "connectZones [z'] 0 1 False 0 e = [?zf]"
      by (simp add: connectZones_def Let_def)
    have fin: "?t2\<lparr>percCacheZones := (percCacheZones ?t2)(False := [?zf])\<rparr>
        = storeRun cfg t1 (percClusterIndexOf cfg start) ?zf buf'"
      by (cases "percCacheDoneWithClusters cfg t1")
        (simp_all add: storeRun_def writeBackBuffer_def writeBackZone_def done_with_clusters_updates
          percClusterSlots_updates)
    have go: "getOut False 0 ?zf NO_ERROR (storeRun cfg t1 (percClusterIndexOf cfg start) ?zf buf')
        = (NO_ERROR, storeRun cfg t1 (percClusterIndexOf cfg start) ?zf buf')"
      using ne by (simp add: getOut_def Let_def storeRun_def)
    from cl2 kpos clamp nohit show ?thesis
      unfolding Inr r
      by (simp add: doLoading_def Let_def zs cz fin go zt2)
  qed
qed

lemma div_mod_inside:
  assumes "0 < (c :: int)" "0 \<le> y" "a mod c + y < c"
  shows "(a + y) div c = a div c" "(a + y) mod c = a mod c + y"
proof -
  have e: "a + y = c * (a div c) + (a mod c + y)" by simp
  have r: "0 \<le> a mod c + y" using assms by simp
  show "(a + y) div c = a div c" using e r assms(3) by (rule int_div_pos_eq)
  show "(a + y) mod c = a mod c + y" using e r assms(3) by (rule int_mod_pos_eq)
qed

lemma range_geometry:
  assumes rg: "rangeInFirstCluster cfg s n" and p: "0 \<le> p" "p < n"
  shows "drop_bit (clusterSizeMagnitude cfg) (audioDataStartPosBytes s + p * bytesPerSample s)
           = drop_bit (clusterSizeMagnitude cfg) (audioDataStartPosBytes s)"
    and "(audioDataStartPosBytes s + p * bytesPerSample s) AND (clusterSize cfg - 1)
           = (audioDataStartPosBytes s AND (clusterSize cfg - 1)) + p * bytesPerSample s"
    and "percClusterIndexOf cfg p = 0"
    and "n \<le> clusterSize cfg"
proof -
  let ?c = "2 ^ clusterSizeMagnitude cfg :: int"
  let ?A = "audioDataStartPosBytes s"
  let ?b = "bytesPerSample s"
  from rg have b: "0 < ?b" and le: "?A mod ?c + n * ?b \<le> ?c"
    by (simp_all add: rangeInFirstCluster_def clusterSize_def and_size_mod)
  have c: "0 < ?c" by simp
  have y: "0 \<le> p * ?b" using p b by simp
  have "p * ?b < n * ?b" using p b by simp
  with le have lt: "?A mod ?c + p * ?b < ?c" by simp
  show "drop_bit (clusterSizeMagnitude cfg) (?A + p * ?b) = drop_bit (clusterSizeMagnitude cfg) ?A"
    using div_mod_inside(1) [OF c y lt] by (simp add: drop_bit_eq_div)
  show "(?A + p * ?b) AND (clusterSize cfg - 1) = (?A AND (clusterSize cfg - 1)) + p * ?b"
    using div_mod_inside(2) [OF c y lt] by (simp add: clusterSize_def and_size_mod)
  have "n \<le> n * ?b" using b p by (simp add: mult_le_cancel_left1)
  moreover have "0 \<le> ?A mod ?c" by simp
  ultimately have n: "n \<le> ?c" using le by linarith
  then show "n \<le> clusterSize cfg" by (simp add: clusterSize_def)
  have "?c \<le> 2 ^ (clusterSizeMagnitude cfg + kPercBufferReductionMagnitude cfg)"
    by (simp add: power_add)
  with n p have "p < 2 ^ (clusterSizeMagnitude cfg + kPercBufferReductionMagnitude cfg)" by linarith
  with p show "percClusterIndexOf cfg p = 0"
    by (simp add: percClusterIndexOf_def drop_bit_eq_div div_pos_pos_trivial)
qed

lemma numSamplesThisCluster_inside:
  assumes rg: "rangeInFirstCluster cfg s n" and p: "0 \<le> p" "0 < k" "p + k \<le> n"
    and same: "sameExceptCache s t"
  shows "numSamplesThisCluster cfg t False k p (audioDataStartPosBytes t + p * bytesPerSample t) = Inr k"
proof -
  let ?c = "clusterSize cfg"
  let ?A = "audioDataStartPosBytes s"
  let ?b = "bytesPerSample s"
  from same have eq: "audioDataStartPosBytes t = ?A" "bytesPerSample t = ?b"
    by (simp_all add: sameExceptCache_def bytesPerSample_def)
  from p have pn: "p < n" by simp
  note g = range_geometry [OF rg p(1) pn]
  from rg have b: "0 < ?b" and le: "(?A AND (?c - 1)) + n * ?b \<le> ?c"
    by (simp_all add: rangeInFirstCluster_def)
  let ?big = "push_bit (kPercBufferReductionMagnitude cfg) ?c"
  have big: "?c \<le> ?big" by (simp add: push_bit_eq_mult clusterSize_def)
  have pb: "p AND (?big - 1) = p"
  proof -
    have "?big = 2 ^ (kPercBufferReductionMagnitude cfg + clusterSizeMagnitude cfg)"
      by (simp add: push_bit_eq_mult clusterSize_def power_add)
    moreover have "p < ?big" using g(4) big pn by linarith
    ultimately show ?thesis using p(1) by (simp add: and_size_mod)
  qed
  have left: "k \<le> samplesLeftThisDestCluster cfg False p"
    using g(4) big p by (simp add: samplesLeftThisDestCluster_def Let_def pb)
  have "(p + k) * ?b \<le> n * ?b" using p b by simp
  then have want: "k * ?b \<le> ?c - ((?A AND (?c - 1)) + p * ?b)"
    using le by (simp add: algebra_simps)
  show ?thesis
    using left want b
    by (simp add: numSamplesThisCluster_def Let_def eq g(2) bytesLeftThisSourceCluster_def min_def)
qed

lemma sampleStep_cong:
  "numChannels t = numChannels s \<Longrightarrow> byteDepth t = byteDepth s \<Longrightarrow>
     sampleStep t cl cur z = sampleStep s cl cur z"
  by (simp add: sampleStep_def thisSampleRead_def)

lemma sampleLoop_cong:
  "numChannels t = numChannels s \<Longrightarrow> byteDepth t = byteDepth s \<Longrightarrow>
     sampleLoop t cl inc k cur z = sampleLoop s cl inc k cur z"
proof -
  assume a: "numChannels t = numChannels s" "byteDepth t = byteDepth s"
  note st = sampleStep_cong [OF a]
  show ?thesis by (induction k arbitrary: cur z) (simp_all add: st)
qed

lemma segmentLoop_cong:
  "numChannels t = numChannels s \<Longrightarrow> byteDepth t = byteDepth s \<Longrightarrow>
     segmentLoop cfg t cl reversed playDirection posIncrement n cur start z buf
       = segmentLoop cfg s cl reversed playDirection posIncrement n cur start z buf"
proof (induction cfg s cl reversed playDirection posIncrement n cur start z buf rule: segmentLoop.induct)
  case (1 cfg s cluster reversed playDirection posIncrement n currentPos startPosSamples z percCacheNow)
  note sc = sampleLoop_cong [OF "1.prems"]
  let ?m = "numSamplesThisPercPixelSegment cfg reversed n startPosSamples"
  let ?k = "(if posIncrement = 0 then 0 else nat (?m - 1))"
  show ?case
  proof (cases "?m \<le> 0")
    case True
    then show ?thesis
      by (subst segmentLoop.simps, subst (2) segmentLoop.simps) (simp add: Let_def)
  next
    case m: False
    obtain angle z1 where sl: "sampleLoop s cluster posIncrement ?k currentPos z = (angle, z1)"
      by (cases "sampleLoop s cluster posIncrement ?k currentPos z")
    let ?w = "writePercussiveness cfg reversed (startPosSamples + ?m * playDirection) angle (lastAngle z1)
                percCacheNow"
    have u1: "segmentLoop cfg s cluster reversed playDirection posIncrement n currentPos startPosSamples z
          percCacheNow =
        (case ?w of Inl x \<Rightarrow> Inl x
         | Inr buf' \<Rightarrow>
             if n - ?m \<noteq> 0
             then segmentLoop cfg s cluster reversed playDirection posIncrement (n - ?m)
                    (currentPos + ?m * posIncrement) (startPosSamples + ?m * playDirection)
                    (z1\<lparr>lastAngle := angle\<rparr>) buf'
             else Inr (startPosSamples + ?m * playDirection, z1\<lparr>lastAngle := angle\<rparr>, buf'))"
      using m by (subst segmentLoop.simps) (simp add: Let_def sl)
    have u2: "segmentLoop cfg t cluster reversed playDirection posIncrement n currentPos startPosSamples z
          percCacheNow =
        (case ?w of Inl x \<Rightarrow> Inl x
         | Inr buf' \<Rightarrow>
             if n - ?m \<noteq> 0
             then segmentLoop cfg t cluster reversed playDirection posIncrement (n - ?m)
                    (currentPos + ?m * posIncrement) (startPosSamples + ?m * playDirection)
                    (z1\<lparr>lastAngle := angle\<rparr>) buf'
             else Inr (startPosSamples + ?m * playDirection, z1\<lparr>lastAngle := angle\<rparr>, buf'))"
      using m by (subst segmentLoop.simps) (simp add: Let_def sl sc)
    show ?thesis
    proof (cases ?w)
      case (Inl x)
      then show ?thesis by (simp add: u1 u2)
    next
      case (Inr buf')
      show ?thesis
      proof (cases "n - ?m \<noteq> 0")
        case False
        with Inr show ?thesis by (simp add: u1 u2)
      next
        case True
        have sl': "(angle, z1) = sampleLoop s cluster posIncrement ?k currentPos z" using sl by simp
        from "1.IH" [OF refl m refl refl sl' refl Inr True "1.prems"] Inr True show ?thesis
          by (simp add: u1 u2)
      qed
    qed
  qed
qed

lemma storeRun_facts:
  "sameExceptCache t (storeRun cfg t idx z buf)"
  "percCacheZones (storeRun cfg t idx z buf) False = [z]"
  "percCacheDoneWithClusters cfg (storeRun cfg t idx z buf) = percCacheDoneWithClusters cfg t"
  "allocatePercCacheStorage cfg env False (storeRun cfg t idx z buf)
     = (NO_ERROR, storeRun cfg t idx z buf)"
  "percClusterIndexOf cfg p = idx \<Longrightarrow>
     touchPercCluster cfg env (storeRun cfg t idx z buf) False p = Some (storeRun cfg t idx z buf)"
  "percClusterIndexOf cfg p = idx \<Longrightarrow> percCacheNowOf cfg (storeRun cfg t idx z buf) False p = buf"
  "storeRun cfg (storeRun cfg t idx z buf) idx z' buf' = storeRun cfg t idx z' buf'"
  by (cases "percCacheDoneWithClusters cfg t";
      simp add: storeRun_def writeBackBuffer_def sameExceptCache_def done_with_clusters_updates
        percClusterSlots_updates allocatePercCacheStorage_def touchPercCluster_def percCacheNowOf_def
        percClusterSlots_def Let_def)+

lemma firstSampleLoaded_unfold:
  assumes "firstSampleLoaded cfg s 0" "sameExceptCache s t"
    "drop_bit (clusterSizeMagnitude cfg) (audioDataStartPosBytes s + p * bytesPerSample s)
       = drop_bit (clusterSizeMagnitude cfg) (audioDataStartPosBytes s)"
  shows "\<not> outsideAudioData cfg t (drop_bit (clusterSizeMagnitude cfg)
            (audioDataStartPosBytes t + p * bytesPerSample t))"
    and "clusters t (drop_bit (clusterSizeMagnitude cfg)
            (audioDataStartPosBytes t + p * bytesPerSample t)) = Some (firstCluster cfg s)"
    and "loaded (firstCluster cfg s)"
  using assms
  by (auto simp: firstSampleLoaded_def sameExceptCache_def firstCluster_def outsideAudioData_def
      bytesPerSample_def getFirstClusterIndexWithAudioData_def getFirstClusterIndexWithNoAudioData_def
      Let_def split: option.splits)

lemma startedAtZero_same: "sameExceptCache s (startedAtZero cfg env s)"
proof -
  obtain e0 sA where al: "allocatePercCacheStorage cfg env False s = (e0, sA)"
    by (cases "allocatePercCacheStorage cfg env False s")
  let ?s2 = "sA\<lparr>percCacheZones := (percCacheZones sA)(False := [newSamplePercCacheZone cfg 0])\<rparr>"
  from allocatePercCacheStorage_frame [OF al] have a: "sameExceptCache s ?s2"
    by (simp add: sameExceptCache_def)
  show ?thesis
  proof (cases "touchPercCluster cfg env ?s2 False 0")
    case None
    with a al show ?thesis by (simp add: startedAtZero_def Let_def)
  next
    case (Some s3)
    from touchPercCluster_frame [OF Some] a sameExceptCache_trans have "sameExceptCache s s3" by blast
    with Some al show ?thesis by (simp add: startedAtZero_def Let_def)
  qed
qed

lemma touchPercCluster_ok:
  "env_allocClusterOk env (percClusterIndexOf cfg p) \<Longrightarrow>
     \<exists>t1. touchPercCluster cfg env t r p = Some t1"
  by (cases "percCacheDoneWithClusters cfg t \<and> percClusterSlots t r (percClusterIndexOf cfg p) = None")
    (simp_all add: touchPercCluster_def Let_def)

lemma fill_fresh:
  assumes fresh: "percCacheZones s False = []"
    and e: "0 < e" "e \<le> n"
    and n: "n \<le> lengthInSamples s" "n \<le> maxN"
    and ok: "env_allocStorageOk env" "env_insertOk env" "env_allocClusterOk env 0"
    and ld: "firstSampleLoaded cfg s 0"
    and rg: "rangeInFirstCluster cfg s n"
  shows "fillPercCache cfg env s 0 e 1 maxN =
     (case segmentLoop cfg s (firstCluster cfg s) False 1 (bytesPerSample s) e
             ((audioDataStartPosBytes s AND (clusterSize cfg - 1)) - 4 + int (byteDepth s)) 0
             ((newSamplePercCacheZone cfg 0)\<lparr>endPos := e\<rparr>)
             (percCacheNowOf cfg (startedAtZero cfg env s) False 0) of
        Inl x \<Rightarrow> Inl x
      | Inr (st, z', buf') \<Rightarrow>
          Inr (NO_ERROR,
               storeRun cfg (startedAtZero cfg env s) 0
                 (z'\<lparr>samplesAtStartWhichShouldBeReplaced := max 2048 (endPos z' - startPos z')\<rparr>) buf'))"
proof -
  obtain e0 sA where al: "allocatePercCacheStorage cfg env False s = (e0, sA)"
    by (cases "allocatePercCacheStorage cfg env False s")
  note af = allocatePercCacheStorage_frame [OF al]
  from af ok(1) have e0: "e0 = NO_ERROR" by auto
  let ?new = "newSamplePercCacheZone cfg 0"
  let ?s2 = "sA\<lparr>percCacheZones := (percCacheZones sA)(False := [?new])\<rparr>"
  have same2: "sameExceptCache s ?s2" using af by (simp add: sameExceptCache_def)
  have i0: "percClusterIndexOf cfg 0 = 0" by (simp add: percClusterIndexOf_def)
  from ok(3) touchPercCluster_ok [of env cfg 0 ?s2 False]
  obtain s3 where touch: "touchPercCluster cfg env ?s2 False 0 = Some s3"
    unfolding i0 by blast
  from touch al have s3: "startedAtZero cfg env s = s3" by (simp add: startedAtZero_def Let_def)
  have fp: "fillPercCache cfg env s 0 e 1 maxN = doLoading cfg env False 1 maxN 0 0 e ?s2"
    using e n al e0 af fresh ok(2)
    by (simp add: fillPercCache_def Let_def search_def LESS_def insertAtIndex_def)
  have eq: "audioDataStartPosBytes ?s2 = audioDataStartPosBytes s"
    "bytesPerSample ?s2 = bytesPerSample s" "byteDepth ?s2 = byteDepth s"
    "numChannels ?s2 = numChannels s" "lengthInSamples ?s2 = lengthInSamples s"
    using same2 by (simp_all add: sameExceptCache_def bytesPerSample_def)
  have g0: "drop_bit (clusterSizeMagnitude cfg) (audioDataStartPosBytes s + 0 * bytesPerSample s)
       = drop_bit (clusterSizeMagnitude cfg) (audioDataStartPosBytes s)" by simp
  note fl = firstSampleLoaded_unfold [OF ld same2 g0]
  have ns: "numSamplesThisCluster cfg ?s2 False (e - 0) 0
               (audioDataStartPosBytes ?s2 + 0 * bytesPerSample ?s2) = Inr (e - 0)"
    using numSamplesThisCluster_inside [OF rg _ e(1) _ same2, of 0] e by simp
  have zs: "percCacheZones ?s2 False = [?new]" by simp
  have ord: "startPos ?new \<le> endPos ?new" by (simp add: newSamplePercCacheZone_def)
  have k: "0 < e" "e \<le> lengthInSamples ?s2" "e \<le> 0 + maxN" using e n eq by simp_all
  note dl = doLoading_single_zone [OF zs ord k fl(1) touch fl(2,3) ns]
  have ep: "endPos ?new + (e - 0) = e" by (simp add: newSamplePercCacheZone_def)
  have sc: "segmentLoop cfg ?s2 = segmentLoop cfg s"
    by (intro ext) (rule segmentLoop_cong [OF eq(4,3)])
  show ?thesis
    unfolding fp dl s3 i0 ep sc eq by simp
qed

lemma fill_resume:
  assumes same: "sameExceptCache s s3"
    and zf: "startPos zf = 0" "endPos zf = m"
    and mn: "0 < m" "m < n" "n \<le> lengthInSamples s" "n \<le> maxN"
    and ld: "firstSampleLoaded cfg s 0"
    and rg: "rangeInFirstCluster cfg s n"
  shows "fillPercCache cfg env (storeRun cfg s3 0 zf buf) m n 1 maxN =
     (case segmentLoop cfg s (firstCluster cfg s) False 1 (bytesPerSample s) (n - m)
             ((audioDataStartPosBytes s AND (clusterSize cfg - 1)) - 4 + int (byteDepth s)
                + m * bytesPerSample s) m
             (zf\<lparr>endPos := n\<rparr>) buf of
        Inl x \<Rightarrow> Inl x
      | Inr (st, z', buf') \<Rightarrow>
          Inr (NO_ERROR,
               storeRun cfg s3 0
                 (z'\<lparr>samplesAtStartWhichShouldBeReplaced := max 2048 (endPos z' - startPos z')\<rparr>) buf'))"
proof -
  let ?t = "storeRun cfg s3 0 zf buf"
  note sf = storeRun_facts [where t = s3 and cfg = cfg and idx = 0 and z = zf and buf = buf]
  from same sf(1) sameExceptCache_trans have st: "sameExceptCache s ?t" by blast
  then have eq: "audioDataStartPosBytes ?t = audioDataStartPosBytes s"
    "bytesPerSample ?t = bytesPerSample s" "byteDepth ?t = byteDepth s"
    "numChannels ?t = numChannels s" "lengthInSamples ?t = lengthInSamples s"
    by (simp_all add: sameExceptCache_def bytesPerSample_def)
  have m0: "0 \<le> m" using mn by simp
  note g = range_geometry [OF rg m0 mn(2)]
  have inside: "0 \<le> m" "(1 :: int) = 1 \<longrightarrow> m < lengthInSamples ?t" using mn eq by simp_all
  have uns: "\<not> lengthInSamples s \<le> m mod 2 ^ 64"
    using inside_unsigned [of m "lengthInSamples s"] mn by simp
  have zs: "percCacheZones ?t ((1 :: int) \<noteq> 1) = [zf]" using sf(2) by simp
  have i: "(0 :: int) = (if (1 :: int) = 1 then search [zf] (m + 1) LESS else search [zf] m GREATER_OR_EQUAL)"
    using zf mn by (simp add: search_def LESS_def)
  have slack: "- 2048 \<le> (endPos ([zf] ! nat 0) - m) * 1" using zf by simp
  have found: "fillPercCache cfg env ?t m n 1 maxN = doLoading cfg env False 1 maxN 0 m n ?t"
    using fillPercCache_found [OF inside zs i _ _ slack, of cfg env n maxN] zf mn eq sf(4) [of env]
      uns
    by simp
  note fl = firstSampleLoaded_unfold [OF ld st g(1)]
  have ns: "numSamplesThisCluster cfg ?t False (n - m) m
               (audioDataStartPosBytes ?t + m * bytesPerSample ?t) = Inr (n - m)"
    using numSamplesThisCluster_inside [OF rg m0 _ _ st, of "n - m"] mn by simp
  have ord: "startPos zf \<le> endPos zf" using zf mn by simp
  have k: "m < n" "n \<le> lengthInSamples ?t" "n \<le> m + maxN" using mn eq by simp_all
  have touch: "touchPercCluster cfg env ?t False m = Some ?t" by (rule sf(5) [OF g(3)])
  note dl = doLoading_single_zone [OF sf(2) ord k fl(1) touch fl(2,3) ns]
  have ep: "endPos zf + (n - m) = n" using zf by simp
  have sc: "segmentLoop cfg ?t = segmentLoop cfg s"
    by (intro ext) (rule segmentLoop_cong [OF eq(4,3)])
  have cur: "((audioDataStartPosBytes s + m * bytesPerSample s) AND (clusterSize cfg - 1)) - 4
        + int (byteDepth s)
      = (audioDataStartPosBytes s AND (clusterSize cfg - 1)) - 4 + int (byteDepth s)
        + m * bytesPerSample s"
    using g(2) by simp
  show ?thesis
    unfolding found dl ep sc eq g(3) sf(6) [OF g(3)] sf(7) cur by (rule refl)
qed

text \<open>
  C3. Playing forward on a sample that has no forward zone yet: when the first \<open>n\<close> samples
  lie in one source cluster and that cluster is loaded, the allocations succeed and
  \<^verbatim>\<open>maxNumSamplesToProcess\<close> is at least \<open>n\<close>, filling from 0 to \<open>m\<close> and then from \<open>m\<close> to \<open>n\<close>
  gives what filling from 0 to \<open>n\<close> in one call gives: the same error code and the same
  sample, with the same zone, filter state and output bytes, or the same trap. The ranges
  of the claim are \<open>m = 1000\<close> and \<open>n = 2000\<close>.
\<close>

theorem fillPercCache_resume:
  assumes fresh: "percCacheZones s False = []"
    and mn: "0 < m" "m < n" "n \<le> lengthInSamples s" "n \<le> maxN"
    and ok: "env_allocStorageOk env" "env_insertOk env" "env_allocClusterOk env 0"
    and ld: "firstSampleLoaded cfg s 0"
    and rg: "rangeInFirstCluster cfg s n"
  shows "(case fillPercCache cfg env s 0 m 1 maxN of
            Inl x \<Rightarrow> Inl x
          | Inr (e, s1) \<Rightarrow> fillPercCache cfg env s1 m n 1 maxN)
         = fillPercCache cfg env s 0 n 1 maxN"
proof -
  let ?cl = "firstCluster cfg s"
  let ?b = "bytesPerSample s"
  let ?cur = "(audioDataStartPosBytes s AND (clusterSize cfg - 1)) - 4 + int (byteDepth s)"
  let ?new = "newSamplePercCacheZone cfg 0"
  let ?s3 = "startedAtZero cfg env s"
  let ?buf0 = "percCacheNowOf cfg ?s3 False 0"
  let ?fin = "\<lambda>z' buf'. storeRun cfg ?s3 0
                 (z'\<lparr>samplesAtStartWhichShouldBeReplaced := max 2048 (endPos z' - startPos z')\<rparr>) buf'"
  have n0: "0 < n" "n \<le> n" "m \<le> n" using mn by simp_all
  note f1 = fill_fresh [OF fresh mn(1) n0(3) mn(3,4) ok ld rg]
  note fn = fill_fresh [OF fresh n0(1,2) mn(3,4) ok ld rg]
  from rg have b: "?b \<noteq> 0" by (simp add: rangeInFirstCluster_def)
  have km: "0 < n - m" using mn by simp
  have nm: "m + (n - m) = n" by simp
  have newn: "?new\<lparr>endPos := n\<rparr> = reposition (?new\<lparr>endPos := m\<rparr>) n 0"
    by (simp add: reposition_def newSamplePercCacheZone_def)
  note sp = segmentLoop_split [where reversed = False and playDirection = 1 and posIncrement = ?b
      and n = m and b = "n - m" and cfg = cfg and s = s and cl = ?cl and cur = ?cur and start = 0
      and z = "?new\<lparr>endPos := n\<rparr>" and buf = ?buf0, OF _ _ b mn(1) km, unfolded nm]
  note rp = segmentLoop_reposition [where cfg = cfg and s = s and cl = ?cl and reversed = False
      and playDirection = 1 and posIncrement = ?b and n = m and cur = ?cur and start = 0
      and z = "?new\<lparr>endPos := m\<rparr>" and e = n and p = 0 and buf = ?buf0]
  show ?thesis
  proof (cases "segmentLoop cfg s ?cl False 1 ?b m ?cur 0 (?new\<lparr>endPos := m\<rparr>) ?buf0")
    case (Inl x)
    have "segmentLoop cfg s ?cl False 1 ?b n ?cur 0 (?new\<lparr>endPos := n\<rparr>) ?buf0 = Inl x"
      using sp rp Inl by (simp add: newn)
    with Inl show ?thesis by (simp add: f1 fn)
  next
    case (Inr r)
    obtain st1 zm bufm where r: "r = (st1, zm, bufm)" by (cases r)
    note seg1 = Inr [unfolded r]
    from segmentLoop_frame [OF seg1]
    have zm: "st1 = m" "startPos zm = 0" "endPos zm = m"
      by (simp_all add: newSamplePercCacheZone_def)
    let ?zf = "zm\<lparr>samplesAtStartWhichShouldBeReplaced := max 2048 (endPos zm - startPos zm)\<rparr>"
    have call1: "fillPercCache cfg env s 0 m 1 maxN = Inr (NO_ERROR, ?fin zm bufm)"
      using seg1 by (simp add: f1)
    have zf: "startPos ?zf = 0" "endPos ?zf = m" using zm by simp_all
    note call2 = fill_resume [OF startedAtZero_same zf mn ld rg, where env = env and buf = bufm
        and ?env1 = env]
    let ?R = "segmentLoop cfg s ?cl False 1 ?b (n - m) (?cur + m * ?b) m zm bufm"
    have zfn: "?zf\<lparr>endPos := n\<rparr> = reposition zm n (max 2048 (endPos zm - startPos zm))"
      by (simp add: reposition_def)
    have left: "segmentLoop cfg s ?cl False 1 ?b (n - m) (?cur + m * ?b) m (?zf\<lparr>endPos := n\<rparr>) bufm
        = (case ?R of Inl x \<Rightarrow> Inl x
           | Inr (st, z', buf') \<Rightarrow>
               Inr (st, reposition z' n (max 2048 (endPos zm - startPos zm)), buf'))"
      unfolding zfn by (rule segmentLoop_reposition)
    have right: "segmentLoop cfg s ?cl False 1 ?b n ?cur 0 (?new\<lparr>endPos := n\<rparr>) ?buf0
        = (case ?R of Inl x \<Rightarrow> Inl x
           | Inr (st, z', buf') \<Rightarrow> Inr (st, reposition z' n 0, buf'))"
    proof -
      have "segmentLoop cfg s ?cl False 1 ?b m ?cur 0 (?new\<lparr>endPos := n\<rparr>) ?buf0
          = Inr (m, reposition zm n 0, bufm)"
        using rp seg1 zm(1) by (simp add: newn)
      with sp have "segmentLoop cfg s ?cl False 1 ?b n ?cur 0 (?new\<lparr>endPos := n\<rparr>) ?buf0
          = segmentLoop cfg s ?cl False 1 ?b (n - m) (?cur + m * ?b) m (reposition zm n 0) bufm"
        by simp
      then show ?thesis by (simp only: segmentLoop_reposition)
    qed
    show ?thesis
    proof (cases ?R)
      case (Inl x)
      with call1 show ?thesis by (simp add: call2 left fn right)
    next
      case (Inr q)
      obtain st z' buf' where q: "q = (st, z', buf')" by (cases q)
      have fz: "(reposition z' n (max 2048 (endPos zm - startPos zm)))
                  \<lparr>samplesAtStartWhichShouldBeReplaced :=
                     max 2048 (endPos (reposition z' n (max 2048 (endPos zm - startPos zm)))
                               - startPos (reposition z' n (max 2048 (endPos zm - startPos zm))))\<rparr>
          = (reposition z' n 0)
                  \<lparr>samplesAtStartWhichShouldBeReplaced :=
                     max 2048 (endPos (reposition z' n 0) - startPos (reposition z' n 0))\<rparr>"
        by (simp add: reposition_def)
      from Inr q call1 show ?thesis
        by (simp add: call2 left fn right fz)
    qed
  qed
qed


theorem fillPercCache_resume_witness:
  "percCacheZones rampSample False = []
   \<and> (2000 :: int) \<le> lengthInSamples rampSample
   \<and> firstSampleLoaded exampleConfig rampSample 0
   \<and> rangeInFirstCluster exampleConfig rampSample 2000
   \<and> (case fillPercCache exampleConfig allOk rampSample 0 1000 1 2000 of
         Inl x \<Rightarrow> Inl x
       | Inr (e, s1) \<Rightarrow> fillPercCache exampleConfig allOk s1 1000 2000 1 2000)
       = fillPercCache exampleConfig allOk rampSample 0 2000 1 2000
   \<and> fillPercCache exampleConfig allOk rampSample 0 2 1 2000 = Inr (NO_ERROR, rampTwo)
   \<and> fillPercCache exampleConfig allOk rampTwo 2 4 1 2000 = Inr (NO_ERROR, rampFour)
   \<and> fillPercCache exampleConfig allOk rampSample 0 4 1 2000 = Inr (NO_ERROR, rampFour)"
proof -
  have fresh: "percCacheZones rampSample False = []" by (simp add: perc_example_defs)
  have len: "(2000 :: int) \<le> lengthInSamples rampSample" by (simp add: perc_example_defs)
  have ok: "env_allocStorageOk allOk" "env_insertOk allOk" "env_allocClusterOk allOk 0"
    by (simp_all add: allOk_def)
  have ld: "firstSampleLoaded exampleConfig rampSample 0"
    by (simp add: firstSampleLoaded_def perc_defs perc_example_defs Let_def)
  have rg: "rangeInFirstCluster exampleConfig rampSample 2000"
    by (simp add: rangeInFirstCluster_def perc_defs perc_example_defs)
  have rg4: "rangeInFirstCluster exampleConfig rampSample 4"
    by (simp add: rangeInFirstCluster_def perc_defs perc_example_defs)
  have c1: "fillPercCache exampleConfig allOk rampSample 0 2 1 2000 = Inr (NO_ERROR, rampTwo)"
    by (simp add: perc_defs clusterLoop.simps segmentLoop.simps perc_example_defs Let_def
        eval_nat_numeral)
  have c2: "fillPercCache exampleConfig allOk rampTwo 2 4 1 2000 = Inr (NO_ERROR, rampFour)"
    by (simp add: perc_defs clusterLoop.simps segmentLoop.simps perc_example_defs Let_def
        eval_nat_numeral)
  from fillPercCache_resume [OF fresh _ _ len _ ok ld rg, of 1000 2000]
  have big: "(case fillPercCache exampleConfig allOk rampSample 0 1000 1 2000 of
         Inl x \<Rightarrow> Inl x
       | Inr (e, s1) \<Rightarrow> fillPercCache exampleConfig allOk s1 1000 2000 1 2000)
       = fillPercCache exampleConfig allOk rampSample 0 2000 1 2000"
    by simp
  have "(4 :: int) \<le> lengthInSamples rampSample" by (simp add: perc_example_defs)
  from fillPercCache_resume [OF fresh _ _ this _ ok ld rg4, of 2 2000] c1 c2
  have c3: "fillPercCache exampleConfig allOk rampSample 0 4 1 2000 = Inr (NO_ERROR, rampFour)"
    by simp
  from fresh len ld rg big c1 c2 c3 show ?thesis by (intro conjI)
qed

section \<open>Properties of the onset search\<close>

lemmas pitch_defs =
  determinePitchOnset_def startAgain.simps onsetSearch.simps testedValues.simps readingEnd.simps
  readStep_def getCluster_def individualSampleValue_def workOutBitMask_def absoluteValue_def
  onsetOffset_def firstReader_def biggestOf_def getFirstClusterIndexWithNoAudioData_def
  clusterSize_def to_int32_def

lemmas pitch_example_defs =
  exampleConfig_def pcm16_def monoFile_def allLoad_def edgeTone_def lateClick_def loudTone_def
  softTone_def quietTone_def

subsection \<open>The state the search reads\<close>

lemma getFirstClusterIndexWithNoAudioData_update:
  "getFirstClusterIndexWithNoAudioData cfg (s\<lparr>beginningOffsetForPitchDetection := x\<rparr>)
     = getFirstClusterIndexWithNoAudioData cfg s"
  by (simp add: getFirstClusterIndexWithNoAudioData_def)

lemma getCluster_update:
  "getCluster canLoad (s\<lparr>beginningOffsetForPitchDetection := x\<rparr>) c = getCluster canLoad s c"
  by (simp add: getCluster_def)

lemma individualSampleValue_update:
  "individualSampleValue cfg (s\<lparr>beginningOffsetForPitchDetection := x\<rparr>) cl off
     = individualSampleValue cfg s cl off"
  by (simp add: individualSampleValue_def)

lemma readStep_update:
  "readStep cfg canLoad (s\<lparr>beginningOffsetForPitchDetection := x\<rparr>) rd = readStep cfg canLoad s rd"
  unfolding readStep_def getFirstClusterIndexWithNoAudioData_update getCluster_update
    individualSampleValue_update
  by (simp add: Let_def split: option.split)

lemma testedValues_update:
  "testedValues cfg canLoad (s\<lparr>beginningOffsetForPitchDetection := x\<rparr>) rd
     = testedValues cfg canLoad s rd"
proof (induction cfg canLoad s rd rule: testedValues.induct)
  case (1 cfg canLoad s rd)
  let ?s = "s\<lparr>beginningOffsetForPitchDetection := x\<rparr>"
  show ?case
  proof (cases "byteDepth s = 0")
    case True
    then show ?thesis by (subst testedValues.simps, subst testedValues.simps [of _ _ s]) simp
  next
    case bd: False
    show ?thesis
    proof (cases "readStep cfg canLoad s rd")
      case (Inl t)
      with bd show ?thesis
        by (subst testedValues.simps, subst testedValues.simps [of _ _ s]) (simp add: readStep_update)
    next
      case (Inr y)
      show ?thesis
      proof (cases y)
        case (Inl e)
        with Inr bd show ?thesis
          by (subst testedValues.simps, subst testedValues.simps [of _ _ s]) (simp add: readStep_update)
      next
        case r: (Inr p)
        obtain v rd1 where p: "p = (v, rd1)" by (cases p)
        from Inr r p have st: "readStep cfg canLoad s rd = Inr (Inr (v, rd1))" by simp
        note ih = "1.IH" [OF bd st refl refl]
        have "testedValues cfg canLoad ?s rd = absoluteValue v # testedValues cfg canLoad ?s rd1"
          using bd st by (subst testedValues.simps) (simp add: readStep_update)
        moreover have "testedValues cfg canLoad s rd = absoluteValue v # testedValues cfg canLoad s rd1"
          using bd st by (subst testedValues.simps) simp
        ultimately show ?thesis using ih by simp
      qed
    qed
  qed
qed

lemma readingEnd_update:
  "readingEnd cfg canLoad (s\<lparr>beginningOffsetForPitchDetection := x\<rparr>) rd
     = readingEnd cfg canLoad s rd"
proof (induction cfg canLoad s rd rule: readingEnd.induct)
  case (1 cfg canLoad s rd)
  let ?s = "s\<lparr>beginningOffsetForPitchDetection := x\<rparr>"
  show ?case
  proof (cases "byteDepth s = 0")
    case True
    then show ?thesis by (subst readingEnd.simps, subst readingEnd.simps [of _ _ s]) simp
  next
    case bd: False
    show ?thesis
    proof (cases "readStep cfg canLoad s rd")
      case (Inl t)
      with bd show ?thesis
        by (subst readingEnd.simps, subst readingEnd.simps [of _ _ s]) (simp add: readStep_update)
    next
      case (Inr y)
      show ?thesis
      proof (cases y)
        case (Inl e)
        with Inr bd show ?thesis
          by (subst readingEnd.simps, subst readingEnd.simps [of _ _ s]) (simp add: readStep_update)
      next
        case r: (Inr p)
        obtain v rd1 where p: "p = (v, rd1)" by (cases p)
        from Inr r p have st: "readStep cfg canLoad s rd = Inr (Inr (v, rd1))" by simp
        note ih = "1.IH" [OF bd st refl refl]
        have "readingEnd cfg canLoad ?s rd = readingEnd cfg canLoad ?s rd1"
          using bd st by (subst readingEnd.simps) (simp add: readStep_update)
        moreover have "readingEnd cfg canLoad s rd = readingEnd cfg canLoad s rd1"
          using bd st by (subst readingEnd.simps) simp
        ultimately show ?thesis using ih by simp
      qed
    qed
  qed
qed

lemma onsetSearch_found:
  "list_ex (\<lambda>a. thr \<le> a) (testedValues cfg canLoad s rd) \<Longrightarrow>
     \<exists>rd' b' off. onsetSearch cfg canLoad s ld thr b rd = Inr (Found rd' b' off)"
proof (induction cfg canLoad s ld thr b rd rule: onsetSearch.induct)
  case (1 cfg canLoad s ld thr b rd)
  from "1.prems" have bd: "byteDepth s \<noteq> 0"
    by (subst (asm) testedValues.simps) (auto split: if_splits)
  from "1.prems" bd obtain v rd1 where st: "readStep cfg canLoad s rd = Inr (Inr (v, rd1))"
    by (subst (asm) testedValues.simps) (auto split: sum.splits)
  show ?case
  proof (cases "absoluteValue v < thr")
    case True
    from "1.prems" bd st True have "list_ex (\<lambda>a. thr \<le> a) (testedValues cfg canLoad s rd1)"
      by (subst (asm) testedValues.simps) auto
    from "1.IH" [OF bd st refl refl refl True this] bd st True show ?thesis
      by (subst onsetSearch.simps) (simp add: Let_def)
  next
    case False
    with bd st show ?thesis by (subst onsetSearch.simps) (simp add: Let_def)
  qed
qed

lemma onsetSearch_not_found:
  "list_all (\<lambda>a. a < thr) (testedValues cfg canLoad s rd) \<Longrightarrow>
     onsetSearch cfg canLoad s ld thr b rd =
       (case readingEnd cfg canLoad s rd of
          Inl t \<Rightarrow> Inl t
        | Inr e \<Rightarrow> Inr (NotFound e (fold (\<lambda>a b. if a > b then a else b)
                                     (testedValues cfg canLoad s rd) b)))"
proof (induction cfg canLoad s ld thr b rd rule: onsetSearch.induct)
  case (1 cfg canLoad s ld thr b rd)
  show ?case
  proof (cases "byteDepth s = 0")
    case True
    then show ?thesis
      by (subst onsetSearch.simps, subst readingEnd.simps) simp
  next
    case bd: False
    show ?thesis
    proof (cases "readStep cfg canLoad s rd")
      case (Inl t)
      with bd show ?thesis by (subst onsetSearch.simps, subst readingEnd.simps) simp
    next
      case (Inr x)
      show ?thesis
      proof (cases x)
        case (Inl e)
        with Inr bd show ?thesis
          by (subst onsetSearch.simps, subst readingEnd.simps, subst testedValues.simps) simp
      next
        case r: (Inr p)
        obtain v rd1 where p: "p = (v, rd1)" by (cases p)
        from Inr r p have st: "readStep cfg canLoad s rd = Inr (Inr (v, rd1))" by simp
        from "1.prems" bd st have lt: "absoluteValue v < thr"
          and rest: "list_all (\<lambda>a. a < thr) (testedValues cfg canLoad s rd1)"
          by (subst (asm) testedValues.simps, simp)+
        note ih = "1.IH" [OF bd st refl refl refl lt rest]
        have os: "onsetSearch cfg canLoad s ld thr b rd
            = onsetSearch cfg canLoad s ld thr (if b < absoluteValue v then absoluteValue v else b) rd1"
          using bd st lt by (subst onsetSearch.simps) (simp add: Let_def)
        have re: "readingEnd cfg canLoad s rd = readingEnd cfg canLoad s rd1"
          using bd st by (subst readingEnd.simps) simp
        have tv: "testedValues cfg canLoad s rd = absoluteValue v # testedValues cfg canLoad s rd1"
          using bd st by (subst testedValues.simps) simp
        show ?thesis using ih
          by (cases "readingEnd cfg canLoad s rd1")
            (simp_all add: os re tv)
      qed
    qed
  qed
qed

lemma fold_biggest_ge: "b \<le> fold (\<lambda>a b. if a > b then a else b) vs (b :: int)"
proof (induction vs arbitrary: b)
  case Nil
  show ?case by simp
next
  case (Cons a vs)
  from Cons [of "if a > b then a else b"] show ?case by (auto split: if_splits)
qed

lemma fold_biggest_mem:
  "b < fold (\<lambda>a b. if a > b then a else b) vs (b :: int) \<Longrightarrow>
     fold (\<lambda>a b. if a > b then a else b) vs b \<in> set vs"
proof (induction vs arbitrary: b)
  case Nil
  then show ?case by simp
next
  case (Cons a vs)
  let ?b = "(if a > b then a else b)"
  let ?p = "fold (\<lambda>a b. if a > b then a else b) vs ?b"
  show ?case
  proof (cases "?b < ?p")
    case True
    from Cons.IH [OF True] show ?thesis by simp
  next
    case False
    with fold_biggest_ge [of ?b vs] have "?p = ?b" by simp
    with Cons.prems show ?thesis by (auto split: if_splits)
  qed
qed

lemma startAgain_search:
  assumes "\<not> beginningOffsetForPitchDetectionFound s"
    and "getCluster canLoad s (drop_bit (clusterSizeMagnitude cfg) (beginningOffsetForPitchDetection s))
         = Some cl"
  shows "startAgain cfg canLoad s ld doing thr =
     (case onsetSearch cfg canLoad s ld thr 0
             \<lparr>rd_currentOffset = beginningOffsetForPitchDetection s,
              rd_currentClusterIndex = drop_bit (clusterSizeMagnitude cfg)
                                         (beginningOffsetForPitchDetection s),
              rd_cluster = Some cl, rd_nextCluster = None\<rparr> of
        Inl t \<Rightarrow> Inl t
      | Inr (Found rd b off) \<Rightarrow> Inr (doing, thr, OnsetFound off)
      | Inr (NotFound FailedToLoadNext b) \<Rightarrow> Inr (doing, thr, FailedToLoad)
      | Inr (NotFound DoneReading b) \<Rightarrow>
          if \<not> doing \<and> b \<ge> 2 ^ (31 - 9)
          then startAgain cfg canLoad s ld True (drop_bit 4 b)
          else Inr (doing, thr, NoSoundFound))"
  using assms
  by (subst startAgain.simps)
    (simp add: Let_def)

text \<open>
  Two files on which the search does not do what C8 says. In the first the second of four
  samples is exactly at the fixed threshold \<open>2\<^sup>2\<^sup>7\<close> and no sample is above it: the
  comparison of line 1404 lets it pass, the onset is found on the first pass and there is
  no second one. In the second the only loud sample is the last of the file: the end of
  the file is noticed (line 1381) before the value is compared, so it is never tested, the
  peak stays at 0 and the search ends without a sound and without a second pass.
\<close>

theorem determinePitch_onset_counterexample:
  "testedValues exampleConfig allLoad edgeTone (firstReader exampleConfig allLoad edgeTone)
     = [16777216, 134217728, 0]
   \<and> determinePitchOnset exampleConfig allLoad edgeTone 0 = Inr (False, 2 ^ 27, OnsetFound 48)
   \<and> absoluteValue (individualSampleValue exampleConfig lateClick (pcm16 [0, 0, 0, 32767]) 50)
     = 2147418112
   \<and> testedValues exampleConfig allLoad lateClick (firstReader exampleConfig allLoad lateClick)
     = [0, 0, 0]
   \<and> determinePitchOnset exampleConfig allLoad lateClick 0 = Inr (False, 2 ^ 27, NoSoundFound)"
  by (simp add: pitch_defs pitch_example_defs Let_def)

text \<open>
  C8, as the code has it. The search has not been made before and the first cluster can be
  loaded. The tested values are the absolute values of the samples read before the one
  that ends the file.

  If a tested value is at least \<open>2\<^sup>2\<^sup>7\<close>, the onset is found on the first pass, with the fixed
  threshold. If all are below it and the reading gets to the end of the file, the peak is
  the biggest of them: with a peak of at least \<open>2\<^sup>2\<^sup>2\<close> there is one more pass, its threshold
  is the peak shifted right by 4, and that pass finds the onset; with a smaller peak there
  is no second pass and no sound is found.
\<close>

theorem determinePitch_onset_passes:
  assumes nf: "\<not> beginningOffsetForPitchDetectionFound s"
    and first: "rd_cluster (firstReader cfg canLoad s) \<noteq> None"
  shows "(list_ex (\<lambda>a. 2 ^ 27 \<le> a) (testedValues cfg canLoad s (firstReader cfg canLoad s))
          \<longrightarrow> (\<exists>off. determinePitchOnset cfg canLoad s ld = Inr (False, 2 ^ 27, OnsetFound off)))
       \<and> (list_all (\<lambda>a. a < 2 ^ 27) (testedValues cfg canLoad s (firstReader cfg canLoad s))
            \<and> readingEnd cfg canLoad s (firstReader cfg canLoad s) = Inr DoneReading
            \<and> 2 ^ 22 \<le> biggestOf (testedValues cfg canLoad s (firstReader cfg canLoad s))
          \<longrightarrow> (\<exists>off. determinePitchOnset cfg canLoad s ld
                  = Inr (True,
                         drop_bit 4 (biggestOf (testedValues cfg canLoad s (firstReader cfg canLoad s))),
                         OnsetFound off)))
       \<and> (list_all (\<lambda>a. a < 2 ^ 27) (testedValues cfg canLoad s (firstReader cfg canLoad s))
            \<and> readingEnd cfg canLoad s (firstReader cfg canLoad s) = Inr DoneReading
            \<and> biggestOf (testedValues cfg canLoad s (firstReader cfg canLoad s)) < 2 ^ 22
          \<longrightarrow> determinePitchOnset cfg canLoad s ld = Inr (False, 2 ^ 27, NoSoundFound))"
proof -
  define s0 where "s0 = (if beginningOffsetForPitchDetection s = 0
              then s\<lparr>beginningOffsetForPitchDetection := audioDataStartPosBytes s\<rparr> else s)"
  let ?rd = "firstReader cfg canLoad s"
  let ?T = "testedValues cfg canLoad s ?rd"
  let ?p = "biggestOf ?T"
  from first obtain cl where cl: "rd_cluster ?rd = Some cl" by auto
  have nf0: "\<not> beginningOffsetForPitchDetectionFound s0" using nf by (simp add: s0_def)
  have gc0: "getCluster canLoad s0 (drop_bit (clusterSizeMagnitude cfg) (beginningOffsetForPitchDetection s0))
      = Some cl"
    using cl by (auto simp: s0_def firstReader_def Let_def getCluster_update)
  have rd0: "\<lparr>rd_currentOffset = beginningOffsetForPitchDetection s0,
              rd_currentClusterIndex = drop_bit (clusterSizeMagnitude cfg)
                                         (beginningOffsetForPitchDetection s0),
              rd_cluster = Some cl, rd_nextCluster = None\<rparr> = ?rd"
    using cl by (auto simp: s0_def firstReader_def Let_def)
  have T0: "testedValues cfg canLoad s0 ?rd = ?T"
    by (cases "beginningOffsetForPitchDetection s = 0") (simp_all add: s0_def testedValues_update)
  have E0: "readingEnd cfg canLoad s0 ?rd = readingEnd cfg canLoad s ?rd"
    by (cases "beginningOffsetForPitchDetection s = 0") (simp_all add: s0_def readingEnd_update)
  have dp: "determinePitchOnset cfg canLoad s ld = startAgain cfg canLoad s0 ld False (2 ^ (31 - 4))"
    by (simp add: determinePitchOnset_def s0_def)
  note sa = startAgain_search [OF nf0 gc0, where ld = ld, unfolded rd0]
  have p1: "list_ex (\<lambda>a. 2 ^ 27 \<le> a) ?T
          \<longrightarrow> (\<exists>off. determinePitchOnset cfg canLoad s ld = Inr (False, 2 ^ 27, OnsetFound off))"
  proof
    assume "list_ex (\<lambda>a. 2 ^ 27 \<le> a) ?T"
    then have "list_ex (\<lambda>a. 2 ^ 27 \<le> a) (testedValues cfg canLoad s0 ?rd)" by (simp only: T0)
    from onsetSearch_found [OF this, of ld 0] obtain rd' b' off where
      "onsetSearch cfg canLoad s0 ld (2 ^ 27) 0 ?rd = Inr (Found rd' b' off)" by blast
    then have "determinePitchOnset cfg canLoad s ld = Inr (False, 2 ^ 27, OnsetFound off)"
      unfolding dp by (subst sa) simp
    then show "\<exists>off. determinePitchOnset cfg canLoad s ld = Inr (False, 2 ^ 27, OnsetFound off)"
      by blast
  qed
  have search1: "onsetSearch cfg canLoad s0 ld (2 ^ 27) 0 ?rd = Inr (NotFound DoneReading ?p)"
    if a: "list_all (\<lambda>a. a < 2 ^ 27) ?T" "readingEnd cfg canLoad s ?rd = Inr DoneReading"
  proof -
    from a(1) have "list_all (\<lambda>a. a < 2 ^ 27) (testedValues cfg canLoad s0 ?rd)" by (simp only: T0)
    from onsetSearch_not_found [OF this, of ld 0] a(2) show ?thesis
      by (simp only: E0 T0 biggestOf_def sum.case)
  qed
  have p2: "list_all (\<lambda>a. a < 2 ^ 27) ?T
            \<and> readingEnd cfg canLoad s ?rd = Inr DoneReading \<and> 2 ^ 22 \<le> ?p
          \<longrightarrow> (\<exists>off. determinePitchOnset cfg canLoad s ld = Inr (True, drop_bit 4 ?p, OnsetFound off))"
  proof
    assume a: "list_all (\<lambda>a. a < 2 ^ 27) ?T
            \<and> readingEnd cfg canLoad s ?rd = Inr DoneReading \<and> 2 ^ 22 \<le> ?p"
    then have s1: "onsetSearch cfg canLoad s0 ld (2 ^ 27) 0 ?rd = Inr (NotFound DoneReading ?p)"
      using search1 by blast
    from a have pos: "0 < ?p" by simp
    then have "?p \<in> set ?T" unfolding biggestOf_def by (rule fold_biggest_mem)
    moreover have "drop_bit 4 ?p \<le> ?p" using pos by (simp add: drop_bit_eq_div)
    ultimately have "list_ex (\<lambda>a. drop_bit 4 ?p \<le> a) (testedValues cfg canLoad s0 ?rd)"
      unfolding T0 by (auto simp: list_ex_iff)
    from onsetSearch_found [OF this, of ld 0] obtain rd' b' off where
      s2: "onsetSearch cfg canLoad s0 ld (drop_bit 4 ?p) 0 ?rd = Inr (Found rd' b' off)" by blast
    have "startAgain cfg canLoad s0 ld True (drop_bit 4 ?p) = Inr (True, drop_bit 4 ?p, OnsetFound off)"
      using s2 by (subst sa) simp
    moreover have "startAgain cfg canLoad s0 ld False (2 ^ 27)
        = startAgain cfg canLoad s0 ld True (drop_bit 4 ?p)"
      using a s1 by (subst sa) simp
    ultimately have "determinePitchOnset cfg canLoad s ld = Inr (True, drop_bit 4 ?p, OnsetFound off)"
      unfolding dp by simp
    then show "\<exists>off. determinePitchOnset cfg canLoad s ld = Inr (True, drop_bit 4 ?p, OnsetFound off)"
      by blast
  qed
  have p3: "list_all (\<lambda>a. a < 2 ^ 27) ?T
            \<and> readingEnd cfg canLoad s ?rd = Inr DoneReading \<and> ?p < 2 ^ 22
          \<longrightarrow> determinePitchOnset cfg canLoad s ld = Inr (False, 2 ^ 27, NoSoundFound)"
  proof
    assume a: "list_all (\<lambda>a. a < 2 ^ 27) ?T
            \<and> readingEnd cfg canLoad s ?rd = Inr DoneReading \<and> ?p < 2 ^ 22"
    then have s1: "onsetSearch cfg canLoad s0 ld (2 ^ 27) 0 ?rd = Inr (NotFound DoneReading ?p)"
      using search1 by blast
    have "startAgain cfg canLoad s0 ld False (2 ^ 27) = Inr (False, 2 ^ 27, NoSoundFound)"
      using a s1 by (subst sa) simp
    then show "determinePitchOnset cfg canLoad s ld = Inr (False, 2 ^ 27, NoSoundFound)"
      unfolding dp by simp
  qed
  from p1 p2 p3 show ?thesis by (intro conjI)
qed

theorem determinePitch_onset_passes_witness:
  "\<not> beginningOffsetForPitchDetectionFound loudTone
   \<and> rd_cluster (firstReader exampleConfig allLoad loudTone) \<noteq> None
   \<and> list_ex (\<lambda>a. 2 ^ 27 \<le> a)
        (testedValues exampleConfig allLoad loudTone (firstReader exampleConfig allLoad loudTone))
   \<and> (\<exists>off. determinePitchOnset exampleConfig allLoad loudTone 0 = Inr (False, 2 ^ 27, OnsetFound off))
   \<and> determinePitchOnset exampleConfig allLoad loudTone 0 = Inr (False, 2 ^ 27, OnsetFound 48)
   \<and> \<not> beginningOffsetForPitchDetectionFound softTone
   \<and> rd_cluster (firstReader exampleConfig allLoad softTone) \<noteq> None
   \<and> testedValues exampleConfig allLoad softTone (firstReader exampleConfig allLoad softTone)
       = [0, 16777216, 67108864]
   \<and> readingEnd exampleConfig allLoad softTone (firstReader exampleConfig allLoad softTone)
       = Inr DoneReading
   \<and> (\<exists>off. determinePitchOnset exampleConfig allLoad softTone 0
               = Inr (True, drop_bit 4 67108864, OnsetFound off))
   \<and> determinePitchOnset exampleConfig allLoad softTone 0 = Inr (True, 4194304, OnsetFound 48)
   \<and> \<not> beginningOffsetForPitchDetectionFound quietTone
   \<and> rd_cluster (firstReader exampleConfig allLoad quietTone) \<noteq> None
   \<and> testedValues exampleConfig allLoad quietTone (firstReader exampleConfig allLoad quietTone)
       = [0, 65536, 0]
   \<and> readingEnd exampleConfig allLoad quietTone (firstReader exampleConfig allLoad quietTone)
       = Inr DoneReading
   \<and> determinePitchOnset exampleConfig allLoad quietTone 0 = Inr (False, 2 ^ 27, NoSoundFound)"
proof -
  have l1: "\<not> beginningOffsetForPitchDetectionFound loudTone"
    "rd_cluster (firstReader exampleConfig allLoad loudTone) \<noteq> None"
    by (simp_all add: pitch_defs pitch_example_defs Let_def)
  have l2: "testedValues exampleConfig allLoad loudTone (firstReader exampleConfig allLoad loudTone)
      = [0, 268435456, 0]"
    by (simp add: pitch_defs pitch_example_defs Let_def)
  have l3: "determinePitchOnset exampleConfig allLoad loudTone 0 = Inr (False, 2 ^ 27, OnsetFound 48)"
    by (simp add: pitch_defs pitch_example_defs Let_def)
  have s1: "\<not> beginningOffsetForPitchDetectionFound softTone"
    "rd_cluster (firstReader exampleConfig allLoad softTone) \<noteq> None"
    by (simp_all add: pitch_defs pitch_example_defs Let_def)
  have s2: "testedValues exampleConfig allLoad softTone (firstReader exampleConfig allLoad softTone)
      = [0, 16777216, 67108864]"
    by (simp add: pitch_defs pitch_example_defs Let_def)
  have s3: "readingEnd exampleConfig allLoad softTone (firstReader exampleConfig allLoad softTone)
      = Inr DoneReading"
    by (simp add: pitch_defs pitch_example_defs Let_def)
  have s4: "determinePitchOnset exampleConfig allLoad softTone 0 = Inr (True, 4194304, OnsetFound 48)"
    by (simp add: pitch_defs pitch_example_defs Let_def)
  have q1: "\<not> beginningOffsetForPitchDetectionFound quietTone"
    "rd_cluster (firstReader exampleConfig allLoad quietTone) \<noteq> None"
    by (simp_all add: pitch_defs pitch_example_defs Let_def)
  have q2: "testedValues exampleConfig allLoad quietTone (firstReader exampleConfig allLoad quietTone)
      = [0, 65536, 0]"
    by (simp add: pitch_defs pitch_example_defs Let_def)
  have q3: "readingEnd exampleConfig allLoad quietTone (firstReader exampleConfig allLoad quietTone)
      = Inr DoneReading"
    by (simp add: pitch_defs pitch_example_defs Let_def)
  from determinePitch_onset_passes [OF l1, of 0] l2
  have c1: "list_ex (\<lambda>a. 2 ^ 27 \<le> a)
        (testedValues exampleConfig allLoad loudTone (firstReader exampleConfig allLoad loudTone))"
    "\<exists>off. determinePitchOnset exampleConfig allLoad loudTone 0 = Inr (False, 2 ^ 27, OnsetFound off)"
    by simp_all
  from determinePitch_onset_passes [OF s1, of 0] s2 s3
  have c2: "\<exists>off. determinePitchOnset exampleConfig allLoad softTone 0
               = Inr (True, drop_bit 4 67108864, OnsetFound off)"
    by (simp add: biggestOf_def)
  from determinePitch_onset_passes [OF q1, of 0] q2 q3
  have c3: "determinePitchOnset exampleConfig allLoad quietTone 0 = Inr (False, 2 ^ 27, NoSoundFound)"
    by (simp add: biggestOf_def)
  from l1 c1 l3 s1 s2 s3 c2 s4 q1 q2 q3 c3 show ?thesis by (intro conjI)
qed

end
